(* ===== verification/Avr_Prelude.thy ===== *)
theory Avr_Prelude
  imports Main "HOL-Library.Word"
begin

text \<open>
  Shared prelude of the development: the machine integers of the ATMEGA (the C types
  \<^verbatim>\<open>uint8_t\<close>, \<^verbatim>\<open>uint16_t\<close>, \<^verbatim>\<open>uint32_t\<close> as words of their width, an \<^verbatim>\<open>int\<close> being 16 bits wide),
  the rewrite collections the component theories extend, and the generic facts on words,
  bytes and lists that several components use.
\<close>

unbundle bit_operations_syntax

type_synonym u8 = "8 word"
type_synonym u16 = "16 word"
type_synonym u32 = "32 word"

named_theorems nat_word \<open>facts that move word arithmetic to natural numbers\<close>
named_theorems driver_simps \<open>unfolding equations of driver operations\<close>

subsection \<open>Words as natural numbers\<close>

lemma unat_less_u8: "unat (x :: u8) < 256"
  using unsigned_less [of x, where 'a = nat] by simp

lemma unat_less_u16: "unat (x :: u16) < 65536"
  using unsigned_less [of x, where 'a = nat] by simp

lemma unat_less_u32: "unat (x :: u32) < 4294967296"
  using unsigned_less [of x, where 'a = nat] by simp

lemma unat_ucast_8_16 [simp]: "unat (ucast (x :: u8) :: u16) = unat x"
proof -
  have "unat x < 65536" using unat_less_u8 [of x] by linarith
  then show ?thesis by (simp add: unsigned_ucast_eq take_bit_eq_mod)
qed

lemma unat_ucast_8_32 [simp]: "unat (ucast (x :: u8) :: u32) = unat x"
proof -
  have "unat x < 4294967296" using unat_less_u8 [of x] by linarith
  then show ?thesis by (simp add: unsigned_ucast_eq take_bit_eq_mod)
qed

lemma unat_ucast_16_32 [simp]: "unat (ucast (x :: u16) :: u32) = unat x"
proof -
  have "unat x < 4294967296" using unat_less_u16 [of x] by linarith
  then show ?thesis by (simp add: unsigned_ucast_eq take_bit_eq_mod)
qed

lemma unat_ucast_16_8: "unat (ucast (x :: u16) :: u8) = unat x mod 256"
  by (simp add: unsigned_ucast_eq take_bit_eq_mod)

lemma ucast_ucast_8_16 [simp]: "(ucast (ucast (x :: u8) :: u16) :: u8) = x"
  using unat_less_u8 [of x] by (simp add: word_unat_eq_iff unat_ucast_16_8)

lemma unat_ucast_32_16: "unat (ucast (x :: u32) :: u16) = unat x mod 65536"
  by (simp add: unsigned_ucast_eq take_bit_eq_mod)

lemma unat_ucast_32_8: "unat (ucast (x :: u32) :: u8) = unat x mod 256"
  by (simp add: unsigned_ucast_eq take_bit_eq_mod)

lemma unat_plus_u8: "unat (x + y :: u8) = (unat x + unat y) mod 256"
  by (simp add: unat_word_ariths)

lemma unat_plus_u16: "unat (x + y :: u16) = (unat x + unat y) mod 65536"
  by (simp add: unat_word_ariths)

lemma unat_plus_u32: "unat (x + y :: u32) = (unat x + unat y) mod 4294967296"
  by (simp add: unat_word_ariths)

lemma unat_times_u16: "unat (x * y :: u16) = (unat x * unat y) mod 65536"
  by (simp add: unat_word_ariths)

lemma unat_times_u32: "unat (x * y :: u32) = (unat x * unat y) mod 4294967296"
  by (simp add: unat_word_ariths)

lemma unat_minus_le: "y \<le> x \<Longrightarrow> unat (x - y :: 'a::len word) = unat x - unat y"
  by (simp add: unat_sub)

lemma unat_and_mask: "unat (x AND mask n :: 'a::len word) = unat x mod 2 ^ n"
  by (simp add: take_bit_eq_mask [symmetric] unsigned_take_bit_eq)
    (simp add: take_bit_eq_mod)

lemmas [nat_word] = unat_ucast_16_8 unat_ucast_32_16 unat_ucast_32_8 unat_plus_u8
  unat_plus_u16 unat_plus_u32 unat_times_u16 unat_times_u32 unat_div_distrib
  unat_mod_distrib word_le_nat_alt word_less_nat_alt

lemma word_of_nat_unat_u8 [simp]: "n < 256 \<Longrightarrow> unat (of_nat n :: u8) = n"
  by (simp add: unat_of_nat)

lemma word_of_nat_unat_u16 [simp]: "n < 65536 \<Longrightarrow> unat (of_nat n :: u16) = n"
  by (simp add: unat_of_nat)

lemma word_of_nat_unat_u32 [simp]: "n < 4294967296 \<Longrightarrow> unat (of_nat n :: u32) = n"
  by (simp add: unat_of_nat)

section \<open>Carries\<close>

lemma unat_Suc_small: "unat (x :: 'a::len word) + 1 < 2 ^ LENGTH('a) \<Longrightarrow> unat (x + 1) = unat x + 1"
  by (metis Suc_eq_plus1 unat_1 unat_add_lem unsigned_1)

lemma unat_inc_u16: "unat x < 65535 \<Longrightarrow> unat (x + 1 :: u16) = unat x + 1"
  by (rule unat_Suc_small) simp
lemma unat_inc_u8: "unat x < 255 \<Longrightarrow> unat (x + 1 :: u8) = unat x + 1"
  by (rule unat_Suc_small) simp

lemma radix_le:
  fixes a b x y N :: nat
  assumes "a < N" "b < N"
  shows "a + N * x \<le> b + N * y \<longleftrightarrow> x < y \<or> (x = y \<and> a \<le> b)"
proof -
  have "N * x + N \<le> N * y" if "x < y"
    using mult_le_mono2 [of "Suc x" y N] that by simp
  moreover have "N * y + N \<le> N * x" if "y < x"
    using mult_le_mono2 [of "Suc y" x N] that by simp
  ultimately show ?thesis using assms by (cases x y rule: linorder_cases) auto
qed

lemma reduce16:
  assumes "unat t < 2 * unat (N :: u16)"
  shows "unat (if N \<le> t then t - N else t) = unat t mod unat N"
    and "(if N \<le> t then 1 else 0 :: nat) = unat t div unat N"
proof -
  show "unat (if N \<le> t then t - N else t) = unat t mod unat N"
    using assms by (auto simp: unat_minus_le word_le_nat_alt mod_if)
  show "(if N \<le> t then 1 else 0 :: nat) = unat t div unat N"
    using assms by (auto simp: word_le_nat_alt div_if)
qed

lemma u16_split_or: "push_bit 8 (drop_bit 8 x) OR (x AND 0xFF) = (x :: u16)"
proof -
  have "(0xFF :: u16) = mask 8" by (simp add: mask_eq_exp_minus_1)
  then show ?thesis by (auto simp: bit_eq_iff bit_simps)
qed

lemma u16_split_add: "(x AND 0xFF) + push_bit 8 (drop_bit 8 x) = (x :: u16)"
proof -
  have m: "(0xFF :: u16) = mask 8" by (simp add: mask_eq_exp_minus_1)
  have "(x AND 0xFF) + push_bit 8 (drop_bit 8 x) = (x AND 0xFF) OR push_bit 8 (drop_bit 8 x)"
    by (rule disjunctive_add) (auto simp: m bit_simps)
  then show ?thesis using u16_split_or [of x] by (simp add: or.commute)
qed

lemma unat_drop_bit: "unat (drop_bit k (x :: 'a::len word)) = unat x div 2 ^ k"
  by (simp only: unsigned_drop_bit_eq) (simp add: drop_bit_eq_div take_bit_nat_eq_self)

lemma radix4:
  fixes a b c d :: nat
  assumes "a = 256 * b + r0" "b = 256 * c + r1" "c = 256 * d + r2"
  shows "a = r0 + 256 * (r1 + 256 * (r2 + 256 * d))"
  using assms by simp

lemma bytes4: "n = n mod 256 + 256 * (n div 256 mod 256 + 256 * (n div 65536 mod 256 + 256 * (n div 16777216 :: nat)))"
proof (rule radix4)
  show "n = 256 * (n div 256) + n mod 256" by simp
  show "n div 256 = 256 * (n div 65536) + n div 256 mod 256" using div_mult2_eq [of n 256 256] by simp
  show "n div 65536 = 256 * (n div 16777216) + n div 65536 mod 256" using div_mult2_eq [of n 65536 256] by simp
qed

end
