(* ===== verification/Timer1_Clock.thy ===== *)
theory Timer1_Clock
  imports Avr_Prelude
begin

text \<open>
  The millisecond clock and callback scheduler of \<^verbatim>\<open>src/src/board_support/timer1_clock.c\<close>.
  The wall time and the callback structures are records with the fields of the C structs;
  pointers to callback structures are addresses into a heap, the null pointer is \<open>None\<close>;
  the linked chain is walked by partial functions, so that a walk that does not return (a
  cyclic chain) is the value \<open>None\<close>. The function a callback points to is of any type \<open>'f\<close>.
\<close>

section \<open>State\<close>

record timer1_wall_time =
  msec :: u16
  sec :: u8
  minute :: u8
  hour :: u8
  day :: u16
  freerunning_sec :: u16

type_synonym addr = nat

record 'f timer1_callback =
  next_ptr :: "addr option"
  time :: timer1_wall_time
  recurring :: u8
  recurring_msec :: u16
  user_data :: nat
  callback :: 'f

text \<open>The timer 1 registers the module writes; bit positions are those of the ATMEGA32U2.\<close>

record timer1_regs =
  OCR1A :: u16
  OCR1B :: u16
  TCNT1 :: u16
  TCCR1A :: u8
  TCCR1B :: u8
  TIMSK1 :: u8
  TIFR1 :: u8

abbreviation (input) OCIE1A :: nat where "OCIE1A \<equiv> 1"
abbreviation (input) OCIE1B :: nat where "OCIE1B \<equiv> 2"
abbreviation (input) OCF1B :: nat where "OCF1B \<equiv> 2"
abbreviation (input) WGM12 :: nat where "WGM12 \<equiv> 3"
abbreviation (input) CS10 :: nat where "CS10 \<equiv> 0"

record 'f timer1 =
  walltimer :: timer1_wall_time
  callback_chain :: "addr option"
  heap :: "addr \<Rightarrow> 'f timer1_callback"
  regs :: timer1_regs

abbreviation upd_cb :: "addr \<Rightarrow> ('f timer1_callback \<Rightarrow> 'f timer1_callback) \<Rightarrow> 'f timer1 \<Rightarrow> 'f timer1" where
  "upd_cb a f s \<equiv> s\<lparr>heap := (heap s)(a := f (heap s a))\<rparr>"

section \<open>Operations\<close>

definition zero_wall_time :: timer1_wall_time where
  "zero_wall_time = \<lparr>msec = 0, sec = 0, minute = 0, hour = 0, day = 0, freerunning_sec = 0\<rparr>"

definition timer1_clock_init :: "'f timer1 \<Rightarrow> 'f timer1" where
  "timer1_clock_init s = s\<lparr>callback_chain := None, walltimer := zero_wall_time,
     regs := (regs s)\<lparr>OCR1A := push_bit 8 62 OR 128, TCCR1A := 0,
       TCCR1B := push_bit WGM12 1 OR push_bit CS10 1, TIMSK1 := push_bit OCIE1A 1\<rparr>\<rparr>"

definition timer1_clock_reset :: "'f timer1 \<Rightarrow> 'f timer1" where
  "timer1_clock_reset s = s\<lparr>walltimer := zero_wall_time\<rparr>"

definition timer1_sub_timer_b_delay :: "u16 \<Rightarrow> 'f timer1 \<Rightarrow> 'f timer1" where
  "timer1_sub_timer_b_delay delay_ticks s =
     (let r = regs s;
          d1 = delay_ticks + (TCNT1 r AND 0xFF);
          d2 = d1 + push_bit 8 (drop_bit 8 (TCNT1 r));
          d3 = (if 16000 \<le> d2 then d2 - 16000 else d2)
      in s\<lparr>regs := r\<lparr>OCR1B := push_bit 8 (drop_bit 8 d3) OR (d3 AND 0xFF),
             TIFR1 := TIFR1 r AND NOT (push_bit OCF1B 1),
             TIMSK1 := TIMSK1 r OR push_bit OCIE1B 1\<rparr>\<rparr>)"

definition timer1_sub_timer_b_unset :: "'f timer1 \<Rightarrow> 'f timer1" where
  "timer1_sub_timer_b_unset s =
     s\<lparr>regs := (regs s)\<lparr>TIMSK1 := TIMSK1 (regs s) AND NOT (push_bit OCIE1B 1)\<rparr>\<rparr>"

text \<open>
  Inserting walks a pointer to a link (the chain variable, or the \<open>next\<close> field of a node)
  until the link holds the structure itself or null.
\<close>

datatype link = ChainHead | NextOf addr

fun read_link :: "'f timer1 \<Rightarrow> link \<Rightarrow> addr option" where
  "read_link s ChainHead = callback_chain s"
| "read_link s (NextOf a) = next_ptr (heap s a)"

fun write_link :: "'f timer1 \<Rightarrow> link \<Rightarrow> addr option \<Rightarrow> 'f timer1" where
  "write_link s ChainHead v = s\<lparr>callback_chain := v\<rparr>"
| "write_link s (NextOf a) v = upd_cb a (\<lambda>c. c\<lparr>next_ptr := v\<rparr>) s"

partial_function (option) insert_walk :: "'f timer1 \<Rightarrow> link \<Rightarrow> addr \<Rightarrow> 'f timer1 option" where
  "insert_walk s l cb =
     (case read_link s l of
        None \<Rightarrow> Some (upd_cb cb (\<lambda>c. c\<lparr>next_ptr := None\<rparr>) (write_link s l (Some cb)))
      | Some a \<Rightarrow> if a = cb then Some s else insert_walk s (NextOf a) cb)"

definition timer1_clock_insert_into_chain :: "addr \<Rightarrow> 'f timer1 \<Rightarrow> 'f timer1 option" where
  "timer1_clock_insert_into_chain cb s = insert_walk s ChainHead cb"

partial_function (option) unregister_walk ::
    "'f timer1 \<Rightarrow> addr \<Rightarrow> addr option \<Rightarrow> addr \<Rightarrow> 'f timer1 option" where
  "unregister_walk s previous nxt cb =
     (case nxt of
        None \<Rightarrow> Some s
      | Some a \<Rightarrow>
          if a \<noteq> cb then unregister_walk s a (next_ptr (heap s a)) cb
          else Some (upd_cb previous (\<lambda>c. c\<lparr>next_ptr := next_ptr (heap s a)\<rparr>) s))"

definition timer1_clock_unregister_callback :: "addr \<Rightarrow> 'f timer1 \<Rightarrow> 'f timer1 option" where
  "timer1_clock_unregister_callback cb s =
     (case callback_chain s of
        None \<Rightarrow> Some s
      | Some hd_cb \<Rightarrow>
          if hd_cb = cb then
            (if next_ptr (heap s hd_cb) = None then Some (s\<lparr>callback_chain := None\<rparr>)
             else Some (s\<lparr>callback_chain := next_ptr (heap s hd_cb)\<rparr>))
          else unregister_walk s hd_cb (next_ptr (heap s hd_cb)) cb)"

text \<open>
  The due time that \<^verbatim>\<open>timer1_clock_register_callback\<close> stores: the carries run from the
  milliseconds up to the days. \<^verbatim>\<open>sec\<close> is incremented, and divided, as a 16 bit value; the
  stored fields are truncated to the width of the struct members.
\<close>

definition due_time :: "timer1_wall_time \<Rightarrow> u16 \<Rightarrow> u16 \<Rightarrow> timer1_wall_time" where
  "due_time wall sec0 ms =
     (let t0 = msec wall + ms;
          (sec1, t_ms) = (if 1000 \<le> t0 then (sec0 + 1, t0 - 1000) else (sec0, t0));
          t1 = ucast (sec wall) + sec1 mod 60 + 0;
          (c_min, t_sec) = (if 60 \<le> t1 then (1 :: u8, t1 - 60) else (0, t1));
          sec2 = sec1 div 60;
          t2 = ucast (minute wall) + sec2 mod 60 + ucast c_min;
          (c_hour, t_min) = (if 60 \<le> t2 then (1 :: u8, t2 - 60) else (0, t2));
          sec3 = sec2 div 60;
          t3 = ucast (hour wall) + sec3 + ucast c_hour;
          (c_day, t_hour) = (if 24 \<le> t3 then (1 :: u16, t3 - 24) else (0, t3))
      in \<lparr>msec = t_ms, sec = ucast t_sec, minute = ucast t_min, hour = ucast t_hour,
          day = c_day + day wall, freerunning_sec = sec0\<rparr>)"

definition timer1_clock_register_callback ::
    "u16 \<Rightarrow> u16 \<Rightarrow> u8 \<Rightarrow> 'f \<Rightarrow> nat \<Rightarrow> addr \<Rightarrow> 'f timer1 \<Rightarrow> 'f timer1 option" where
  "timer1_clock_register_callback sec0 ms recur f ud cb s =
     map_option
       (upd_cb cb (\<lambda>c. c\<lparr>recurring_msec := ms, time := due_time (walltimer s) sec0 ms,
                        recurring := recur, user_data := ud, callback := f\<rparr>))
       (timer1_clock_insert_into_chain cb s)"

definition time_reached :: "timer1_wall_time \<Rightarrow> timer1_wall_time \<Rightarrow> bool" where
  "time_reached w t \<longleftrightarrow>
     day w > day t \<or>
     (day w = day t \<and> hour w > hour t) \<or>
     (day w = day t \<and> hour w = hour t \<and> minute w > minute t) \<or>
     (day w = day t \<and> hour w = hour t \<and> minute w = minute t \<and> sec w > sec t) \<or>
     (day w = day t \<and> hour w = hour t \<and> minute w = minute t \<and> sec w = sec t \<and> msec w \<ge> msec t)"

text \<open>The check of one callback: \<open>(state, fired)\<close>, or \<open>None\<close> when a chain walk does not return.\<close>

definition timer1_clock_check :: "addr \<Rightarrow> 'f timer1 \<Rightarrow> ('f timer1 \<times> bool) option" where
  "timer1_clock_check cb s =
     (let c = heap s cb in
      if time_reached (walltimer s) (time c) then
        map_option (\<lambda>s'. (s', True))
          (if recurring c \<noteq> 0
           then timer1_clock_register_callback (freerunning_sec (time c)) (recurring_msec c)
                  (recurring c) (callback c) (user_data c) cb s
           else timer1_clock_unregister_callback cb s)
      else Some (s, False))"

definition tick_wall_time :: "timer1_wall_time \<Rightarrow> timer1_wall_time" where
  "tick_wall_time w =
     (let w = w\<lparr>msec := msec w + 1\<rparr> in
      if msec w < 1000 then w else
      let w = w\<lparr>msec := 0, freerunning_sec := freerunning_sec w + 1, sec := sec w + 1\<rparr> in
      if sec w < 60 then w else
      let w = w\<lparr>sec := 0, minute := minute w + 1\<rparr> in
      if minute w < 60 then w else
      let w = w\<lparr>minute := 0, hour := hour w + 1\<rparr> in
      if hour w < 24 then w else w\<lparr>hour := 0, day := day w + 1\<rparr>)"

partial_function (option) check_chain ::
    "'f timer1 \<Rightarrow> addr option \<Rightarrow> ('f timer1 \<times> addr option) option" where
  "check_chain s nxt =
     (case nxt of
        None \<Rightarrow> Some (s, None)
      | Some a \<Rightarrow>
          (case timer1_clock_check a s of
             None \<Rightarrow> None
           | Some (s', fired) \<Rightarrow>
               if fired then Some (s', Some a) else check_chain s' (next_ptr (heap s' a))))"

text \<open>
  The compare interrupt, once per millisecond: advance the wall time, find the first due
  callback, and call it; the call it makes is the second component, a function and its data.
\<close>

definition TIMER1_COMPA_vect :: "'f timer1 \<Rightarrow> ('f timer1 \<times> ('f \<times> nat) option) option" where
  "TIMER1_COMPA_vect s =
     (case check_chain (s\<lparr>walltimer := tick_wall_time (walltimer s)\<rparr>) (callback_chain s) of
        None \<Rightarrow> None
      | Some (s', None) \<Rightarrow> Some (s', None)
      | Some (s', Some a) \<Rightarrow> Some (s', Some (callback (heap s' a), user_data (heap s' a))))"

definition timer1_clock_get_time :: "'f timer1 \<Rightarrow> timer1_wall_time" where
  "timer1_clock_get_time s = walltimer s"

text \<open>
  The micro time is read in two steps: \<open>s1\<close> is the state inside the atomic block, \<open>s2\<close> the
  state when the milliseconds are compared after it.
\<close>

definition timer1_clock_get_micro_time :: "'f timer1 \<Rightarrow> 'f timer1 \<Rightarrow> u16 \<times> u16" where
  "timer1_clock_get_micro_time s1 s2 =
     (let msecs = msec (walltimer s1); ticks = TCNT1 (regs s1)
      in (msecs, if msecs \<noteq> msec (walltimer s2) then 16 * 1000 - 1 else ticks))"

definition timer1_get_ticks :: "'f timer1 \<Rightarrow> u16" where
  "timer1_get_ticks s = TCNT1 (regs s)"

section \<open>Calendar arithmetic\<close>

text \<open>
  \<open>wall_ok\<close> is the invariant of the wall time, \<open>ms_of\<close> the number of milliseconds it stands
  for; the day counter wraps after \<open>65536\<close> days, \<open>ms_range\<close> milliseconds.
\<close>

definition wall_ok :: "timer1_wall_time \<Rightarrow> bool" where
  "wall_ok w \<longleftrightarrow> unat (msec w) < 1000 \<and> unat (sec w) < 60 \<and> unat (minute w) < 60 \<and> unat (hour w) < 24"

definition ms_of :: "timer1_wall_time \<Rightarrow> nat" where
  "ms_of w = unat (msec w) + 1000 * (unat (sec w) + 60 * (unat (minute w) + 60 * (unat (hour w) + 24 * unat (day w))))"

abbreviation (input) ms_range :: nat where "ms_range \<equiv> 5662310400000"

lemma word_less_1000: "(x :: u16) < 1000 \<longleftrightarrow> unat x < 1000"
  by (simp add: word_less_nat_alt)

lemma u8_less_numerals: "(x :: u8) < 60 \<longleftrightarrow> unat x < 60" "(x :: u8) < 24 \<longleftrightarrow> unat x < 24"
  by (simp_all add: word_less_nat_alt)

lemma tick_wall_ok: "wall_ok w \<Longrightarrow> wall_ok (tick_wall_time w)"
  by (auto simp: tick_wall_time_def wall_ok_def Let_def word_less_1000 u8_less_numerals unat_inc_u16 unat_inc_u8)

lemma ms_of_bound:
  assumes "wall_ok w" shows "ms_of w < ms_range"
  using assms unat_less_u16 [of "day w"] unfolding wall_ok_def ms_of_def
  by simp


lemma tick_ms_of_cases:
  assumes "wall_ok w"
  shows "ms_of (tick_wall_time w) =
           (if ms_of w + 1 = ms_range then 0 else ms_of w + 1)"
proof (cases "unat (day w) = 65535")
  case True
  then have "day w = 65535" by (simp add: word_unat_eq_iff)
  then show ?thesis using assms
    by (auto simp: tick_wall_time_def wall_ok_def ms_of_def Let_def word_less_1000
        u8_less_numerals unat_inc_u16 unat_inc_u8)
next
  case False
  then have "unat (day w) < 65535" using unat_less_u16 [of "day w"] by linarith
  then show ?thesis using assms
    by (auto simp: tick_wall_time_def wall_ok_def ms_of_def Let_def word_less_1000
        u8_less_numerals unat_inc_u16 unat_inc_u8)
qed

lemma tick_ms_of:
  assumes "wall_ok w"
  shows "ms_of (tick_wall_time w) = (ms_of w + 1) mod ms_range"
  using ms_of_bound [OF assms] by (simp add: tick_ms_of_cases [OF assms])

lemma time_reached_iff: 
  assumes "wall_ok w" "wall_ok t" shows "time_reached w t \<longleftrightarrow> ms_of t \<le> ms_of w"
  using assms unfolding wall_ok_def ms_of_def time_reached_def 
  by (auto simp: radix_le word_less_nat_alt word_le_nat_alt word_unat_eq_iff)

lemma due_time_fields:
  fixes wall sec0 ms
  defines "T0 \<equiv> unat (msec wall) + unat ms"
  defines "S \<equiv> unat sec0 + T0 div 1000"
  defines "T1 \<equiv> unat (sec wall) + S mod 60"
  defines "T2 \<equiv> unat (minute wall) + S div 60 mod 60 + T1 div 60"
  defines "T3 \<equiv> unat (hour wall) + S div 3600 + T2 div 60"
  assumes ok: "wall_ok wall" "unat ms < 1000" "S < 65536"
  shows "unat (msec (due_time wall sec0 ms)) = T0 mod 1000"
    and "unat (sec (due_time wall sec0 ms)) = T1 mod 60"
    and "unat (minute (due_time wall sec0 ms)) = T2 mod 60"
    and "unat (hour (due_time wall sec0 ms)) = T3 mod 24"
    and "day (due_time wall sec0 ms) = of_nat (T3 div 24) + day wall"
    and "freerunning_sec (due_time wall sec0 ms) = sec0"
proof -
  define t0 where "t0 = msec wall + ms"
  define s1 where "s1 = (if 1000 \<le> t0 then sec0 + 1 else sec0)"
  define t1 where "t1 = ucast (sec wall) + s1 mod 60"
  define t2 where "t2 = ucast (minute wall) + s1 div 60 mod 60 + (if 60 \<le> t1 then 1 else 0)"
  define t3 where "t3 = ucast (hour wall) + s1 div 60 div 60 + (if 60 \<le> t2 then 1 else 0)"
  have due: "due_time wall sec0 ms =
      \<lparr>msec = (if 1000 \<le> t0 then t0 - 1000 else t0), sec = ucast (if 60 \<le> t1 then t1 - 60 else t1),
       minute = ucast (if 60 \<le> t2 then t2 - 60 else t2), hour = ucast (if 24 \<le> t3 then t3 - 24 else t3),
       day = (if 24 \<le> t3 then 1 else 0) + day wall, freerunning_sec = sec0\<rparr>"
    unfolding due_time_def t0_def s1_def t1_def t2_def t3_def
    by (simp add: Let_def split_def cong: if_cong)
  note w = ok(1) [unfolded wall_ok_def]
  have t0: "unat t0 = T0" "T0 < 2000"
    using w ok(2) by (auto simp: t0_def T0_def unat_plus_u16)
  have s1: "unat s1 = S"
    using t0 ok(3) reduce16(2) [of t0 1000] unat_Suc_small [of sec0]
    by (auto simp: s1_def S_def split: if_splits)
  have t1: "unat t1 = T1" "T1 < 120"
    using w s1 by (auto simp: t1_def T1_def unat_plus_u16 unat_mod_distrib)
  have c1: "unat (if 60 \<le> t1 then 1 else 0 :: u16) = T1 div 60"
    using t1 reduce16(2) [of t1 60] by (auto split: if_splits)
  have t2: "unat t2 = T2" "T2 < 120"
    using w s1 c1 t1(2) by (auto simp: t2_def T2_def unat_plus_u16 unat_mod_distrib unat_div_distrib)
  have c2: "unat (if 60 \<le> t2 then 1 else 0 :: u16) = T2 div 60"
    using t2 reduce16(2) [of t2 60] by (auto split: if_splits)
  have "S div 3600 \<le> 18" using ok(3) by simp
  then have t3: "unat t3 = T3" "T3 < 48"
    using w s1 c2 t2(2) by (auto simp: t3_def T3_def unat_plus_u16 unat_div_distrib div_mult2_eq [symmetric])
  show "unat (msec (due_time wall sec0 ms)) = T0 mod 1000"
    using reduce16(1) [of t0 1000] t0 by (simp add: due)
  show "unat (sec (due_time wall sec0 ms)) = T1 mod 60"
    using reduce16(1) [of t1 60] t1 by (simp add: due unat_ucast_16_8)
  show "unat (minute (due_time wall sec0 ms)) = T2 mod 60"
    using reduce16(1) [of t2 60] t2 by (simp add: due unat_ucast_16_8)
  show "unat (hour (due_time wall sec0 ms)) = T3 mod 24"
    using reduce16(1) [of t3 24] t3 by (simp add: due unat_ucast_16_8)
  show "day (due_time wall sec0 ms) = of_nat (T3 div 24) + day wall"
    using arg_cong [OF reduce16(2) [of t3 24], of "of_nat :: nat \<Rightarrow> u16"] t3
    by (cases "24 \<le> t3") (simp_all add: due)
  show "freerunning_sec (due_time wall sec0 ms) = sec0" by (simp add: due)
qed

lemma due_time_ok: 
  assumes "wall_ok w" "unat ms < 1000" "unat s + (unat (msec w) + unat ms) div 1000 < 65536"
  shows "wall_ok (due_time w s ms)"
  by (simp add: wall_ok_def due_time_fields [OF assms])

lemma due_time_ms:
  assumes ok: "wall_ok w" "unat ms < 1000" "unat s + (unat (msec w) + unat ms) div 1000 < 65536"
    and no_wrap: "ms_of w + 1000 * unat s + unat ms < ms_range"
  shows "ms_of (due_time w s ms) = ms_of w + 1000 * unat s + unat ms"
proof -
  define T0 where "T0 = unat (msec w) + unat ms"
  define S where "S = unat s + T0 div 1000"
  define T1 where "T1 = unat (sec w) + S mod 60"
  define T2 where "T2 = unat (minute w) + S div 60 mod 60 + T1 div 60"
  define T3 where "T3 = unat (hour w) + S div 3600 + T2 div 60"
  note defs = T0_def S_def T1_def T2_def T3_def
  note f = due_time_fields [OF ok, folded T0_def, folded S_def, folded T1_def, folded T2_def, folded T3_def]
  have e1: "unat s + unat (sec w) + T0 div 1000 = T1 mod 60 + 60 * (T1 div 60 + S div 60)"
    using div_mult_mod_eq [of T1 60] div_mult_mod_eq [of S 60] using T1_def S_def by simp
  have e2: "T1 div 60 + S div 60 + unat (minute w) = T2 mod 60 + 60 * (T2 div 60 + S div 3600)"
    using div_mult_mod_eq [of T2 60] div_mult_mod_eq [of "S div 60" 60] 
    unfolding T2_def by (simp add: div_mult2_eq [symmetric])
  have e3: "T2 div 60 + S div 3600 + unat (hour w) = T3 mod 24 + 24 * (T3 div 24)"
    by (simp add: T3_def)
  have e0: "unat (msec w) + unat ms = T0 mod 1000 + 1000 * (T0 div 1000)"
    by (simp add: T0_def)
  have "ms_of w + 1000 * unat s + unat ms = T0 mod 1000 + 1000 * (unat s + unat (sec w) + T0 div 1000
      + 60 * (unat (minute w) + 60 * (unat (hour w) + 24 * unat (day w))))"
    using e0 unfolding ms_of_def by simp
  also have "\<dots> = T0 mod 1000 + 1000 * (T1 mod 60 + 60 * (T1 div 60 + S div 60 + unat (minute w)
      + 60 * (unat (hour w) + 24 * unat (day w))))"
    unfolding e1 by simp
  also have "\<dots> = T0 mod 1000 + 1000 * (T1 mod 60 + 60 * (T2 mod 60 + 60 * (T2 div 60 + S div 3600
      + unat (hour w) + 24 * unat (day w))))"
    unfolding e2 by simp
  also have "\<dots> = T0 mod 1000 + 1000 * (T1 mod 60 + 60 * (T2 mod 60 + 60 * (T3 mod 24
      + 24 * (T3 div 24 + unat (day w)))))"
    unfolding e3 by simp
  finally have sum: "ms_of w + 1000 * unat s + unat ms = \<dots>" .
  have "T3 div 24 + unat (day w) < 65536"
    using no_wrap unfolding sum by simp
  then have "unat (day (due_time w s ms)) = T3 div 24 + unat (day w)"
    by (simp add: f(5) unat_plus_u16 unat_of_nat)
  then show ?thesis
    unfolding sum by (simp add: ms_of_def f)
qed

section \<open>The callback chain as a list\<close>

text \<open>
  \<open>chain s xs\<close> says that the linked chain holds exactly the structures at the addresses \<open>xs\<close>,
  in this order; \<open>payload\<close> is a structure without its link.
\<close>

fun chainp :: "(addr \<Rightarrow> 'f timer1_callback) \<Rightarrow> addr option \<Rightarrow> addr list \<Rightarrow> bool" where
  "chainp h p [] \<longleftrightarrow> p = None"
| "chainp h p (a # as) \<longleftrightarrow> p = Some a \<and> chainp h (next_ptr (h a)) as"

definition chain :: "'f timer1 \<Rightarrow> addr list \<Rightarrow> bool" where
  "chain s xs \<longleftrightarrow> chainp (heap s) (callback_chain s) xs"

definition payload :: "'f timer1 \<Rightarrow> addr \<Rightarrow> 'f timer1_callback" where
  "payload s a = (heap s a)\<lparr>next_ptr := None\<rparr>"

lemma chainp_unique: "chainp h p xs \<Longrightarrow> chainp h p ys \<Longrightarrow> xs = ys"
proof (induction xs arbitrary: p ys)
  case (Cons a as)
  then show ?case by (cases ys) auto
next
  case Nil
  then show ?case by (cases ys) auto
qed

lemma chainp_suffix: "chainp h p (us @ a # vs) \<Longrightarrow> chainp h (Some a) (a # vs)"
  by (induction us arbitrary: p) auto

lemma chainp_distinct: "chainp h p xs \<Longrightarrow> distinct xs"
proof (induction xs arbitrary: p)
  case (Cons a as)
  have "a \<notin> set as"
  proof
    assume "a \<in> set as"
    then obtain us vs where as: "as = us @ a # vs" by (meson split_list)
    have "chainp h (next_ptr (h a)) (us @ a # vs)" using Cons.prems as by simp
    from chainp_suffix [OF this] have "a # vs = a # as"
      using Cons.prems chainp_unique [of h "Some a" "a # vs" "a # as"] by simp
    then show False using as by simp
  qed
  then show ?case using Cons by auto
qed simp

lemma chainp_upd_notin [simp]: "a \<notin> set xs \<Longrightarrow> chainp (h(a := c)) p xs = chainp h p xs"
  by (induction xs arbitrary: p) auto

lemma chainp_upd_next [simp]: "next_ptr c = next_ptr (h a) \<Longrightarrow> chainp (h(a := c)) p xs = chainp h p xs"
  by (induction xs arbitrary: p) auto

lemma payload_upd_next [simp]: "payload (upd_cb a (\<lambda>c. c\<lparr>next_ptr := v\<rparr>) s) = payload s"
  by (auto simp: payload_def fun_eq_iff)

lemma payload_write_link [simp]: "payload (write_link s l v) = payload s"
  by (cases l) (auto simp: payload_def fun_eq_iff)

lemma walltimer_write_link [simp]: "walltimer (write_link s l v) = walltimer s"
  "regs (write_link s l v) = regs s"
  by (cases l; simp)+

lemma insert_walk_next:
  "\<lbrakk>chainp (heap s) (next_ptr (heap s a)) xs; cb \<noteq> a; a \<notin> set xs; distinct xs\<rbrakk> \<Longrightarrow>
   \<exists>s'. insert_walk s (NextOf a) cb = Some s' \<and>
        chainp (heap s') (Some a) (a # (if cb \<in> set xs then xs else xs @ [cb])) \<and>
        callback_chain s' = callback_chain s \<and>
        (\<forall>b. b \<notin> set (cb # a # xs) \<longrightarrow> heap s' b = heap s b) \<and>
        payload s' = payload s \<and> walltimer s' = walltimer s \<and> regs s' = regs s"
proof (induction xs arbitrary: a)
  case Nil
  then show ?case by (subst insert_walk.simps) (auto simp: payload_def fun_eq_iff)
next
  case (Cons x xs)
  show ?case
  proof (cases "x = cb")
    case True
    then show ?thesis using Cons.prems by (subst insert_walk.simps) auto
  next
    case False
    obtain s' where s': "insert_walk s (NextOf x) cb = Some s'"
      "chainp (heap s') (Some x) (x # (if cb \<in> set xs then xs else xs @ [cb]))"
      "callback_chain s' = callback_chain s"
      "\<forall>b. b \<notin> set (cb # x # xs) \<longrightarrow> heap s' b = heap s b"
      "payload s' = payload s" "walltimer s' = walltimer s" "regs s' = regs s"
      using Cons.IH [of x] Cons.prems False by auto
    have ha: "heap s' a = heap s a" using s'(4) Cons.prems by auto
    show ?thesis using s' ha False Cons.prems
      by (subst insert_walk.simps) auto
  qed
qed

lemma insert_into_chain:
  assumes "chain s xs"
  obtains s' where "timer1_clock_insert_into_chain cb s = Some s'"
    "chain s' (if cb \<in> set xs then xs else xs @ [cb])"
    "payload s' = payload s" "walltimer s' = walltimer s" "regs s' = regs s"
proof (cases xs)
  case Nil
  with assms show ?thesis
    by (intro that [of "s\<lparr>callback_chain := Some cb, heap := (heap s)(cb := heap s cb\<lparr>next_ptr := None\<rparr>)\<rparr>"])
      (auto simp: chain_def timer1_clock_insert_into_chain_def insert_walk.simps payload_def fun_eq_iff)
next
  case (Cons x ys)
  show ?thesis
  proof (cases "x = cb")
    case True
    then show ?thesis using assms Cons
      by (intro that [of s])
        (auto simp: chain_def timer1_clock_insert_into_chain_def insert_walk.simps)
  next
    case False
    have d: "distinct (x # ys)" using assms Cons chainp_distinct unfolding chain_def by blast
    have c: "chainp (heap s) (next_ptr (heap s x)) ys" "callback_chain s = Some x"
      using assms Cons by (auto simp: chain_def)
    from insert_walk_next [OF c(1), of cb] False d obtain s' where
      "insert_walk s (NextOf x) cb = Some s'"
      "chainp (heap s') (Some x) (x # (if cb \<in> set ys then ys else ys @ [cb]))"
      "callback_chain s' = callback_chain s"
      "payload s' = payload s" "walltimer s' = walltimer s" "regs s' = regs s" by auto
    then show ?thesis using c False Cons
      by (intro that [of s'])
        (auto simp: chain_def timer1_clock_insert_into_chain_def insert_walk.simps [of s ChainHead])
  qed
qed

lemma unregister_walk_next:
  "\<lbrakk>chainp (heap s) (next_ptr (heap s a)) xs; a \<notin> set xs; distinct xs\<rbrakk> \<Longrightarrow>
   \<exists>s'. unregister_walk s a (next_ptr (heap s a)) cb = Some s' \<and>
        chainp (heap s') (Some a) (a # remove1 cb xs) \<and>
        callback_chain s' = callback_chain s \<and>
        (\<forall>b. b \<notin> set (a # xs) \<longrightarrow> heap s' b = heap s b) \<and>
        payload s' = payload s \<and> walltimer s' = walltimer s \<and> regs s' = regs s"
proof (induction xs arbitrary: a)
  case Nil
  then show ?case by (subst unregister_walk.simps) auto
next
  case (Cons x xs)
  show ?case
  proof (cases "x = cb")
    case True
    then show ?thesis using Cons.prems
      by (subst unregister_walk.simps) (auto simp: payload_def fun_eq_iff)
  next
    case False
    obtain s' where s': "unregister_walk s x (next_ptr (heap s x)) cb = Some s'"
      "chainp (heap s') (Some x) (x # remove1 cb xs)"
      "callback_chain s' = callback_chain s"
      "\<forall>b. b \<notin> set (x # xs) \<longrightarrow> heap s' b = heap s b"
      "payload s' = payload s" "walltimer s' = walltimer s" "regs s' = regs s"
      using Cons.IH [of x] Cons.prems False by auto
    have ha: "heap s' a = heap s a" using s'(4) Cons.prems by auto
    show ?thesis using s' ha False Cons.prems
      by (subst unregister_walk.simps) auto
  qed
qed

lemma unregister_callback:
  assumes "chain s xs"
  obtains s' where "timer1_clock_unregister_callback cb s = Some s'"
    "chain s' (remove1 cb xs)"
    "payload s' = payload s" "walltimer s' = walltimer s" "regs s' = regs s"
proof (cases xs)
  case Nil
  with assms show ?thesis
    by (intro that [of s]) (auto simp: chain_def timer1_clock_unregister_callback_def)
next
  case (Cons x ys)
  have d: "distinct (x # ys)" using assms Cons chainp_distinct unfolding chain_def by blast
  have c: "chainp (heap s) (next_ptr (heap s x)) ys" "callback_chain s = Some x"
    using assms Cons by (auto simp: chain_def)
  show ?thesis
  proof (cases "x = cb")
    case True
    then show ?thesis using c Cons
      by (intro that [of "s\<lparr>callback_chain := next_ptr (heap s x)\<rparr>"])
        (auto simp: chain_def timer1_clock_unregister_callback_def payload_def fun_eq_iff)
  next
    case False
    from unregister_walk_next [OF c(1), of cb] False d obtain s' where
      "unregister_walk s x (next_ptr (heap s x)) cb = Some s'"
      "chainp (heap s') (Some x) (x # remove1 cb ys)"
      "callback_chain s' = callback_chain s"
      "payload s' = payload s" "walltimer s' = walltimer s" "regs s' = regs s" by auto
    then show ?thesis using c False Cons
      by (intro that [of s']) (auto simp: chain_def timer1_clock_unregister_callback_def)
  qed
qed

lemma register_callback:
  assumes "chain s xs"
  obtains s' where "timer1_clock_register_callback sec0 ms recur f ud cb s = Some s'"
    "chain s' (if cb \<in> set xs then xs else xs @ [cb])"
    "payload s' = (payload s)(cb := \<lparr>next_ptr = None, time = due_time (walltimer s) sec0 ms,
       recurring = recur, recurring_msec = ms, user_data = ud, callback = f\<rparr>)"
    "walltimer s' = walltimer s" "regs s' = regs s"
proof -
  obtain s' where s': "timer1_clock_insert_into_chain cb s = Some s'"
    "chain s' (if cb \<in> set xs then xs else xs @ [cb])"
    "payload s' = payload s" "walltimer s' = walltimer s" "regs s' = regs s"
    by (rule insert_into_chain [OF assms])
  show ?thesis
  proof (rule that)
    show "timer1_clock_register_callback sec0 ms recur f ud cb s =
       Some (upd_cb cb (\<lambda>c. c\<lparr>recurring_msec := ms, time := due_time (walltimer s) sec0 ms,
                        recurring := recur, user_data := ud, callback := f\<rparr>) s')"
      using s' by (simp add: timer1_clock_register_callback_def)
  qed (use s' in \<open>auto simp: chain_def payload_def fun_eq_iff\<close>)
qed

end
