(* ===== verification/Timer1_Schedule.thy ===== *)
theory Timer1_Schedule
  imports Timer1_Clock
begin

text \<open>
  The abstract schedule that the callback chain of \<^verbatim>\<open>timer1_clock.c\<close> implements, the
  refinement of the compare interrupt to it, and the properties of the clock. A \<open>schedule\<close> is
  the list of the registered addresses, the wall time and the payloads; \<open>sched_tick\<close> is the
  specification of one millisecond: the first due entry of the list fires, and is moved to its
  next time or removed.
\<close>

type_synonym 'f schedule = "addr list \<times> timer1_wall_time \<times> (addr \<Rightarrow> 'f timer1_callback)"

definition sched_tick :: "'f schedule \<Rightarrow> 'f schedule \<times> ('f \<times> nat) option" where
  "sched_tick = (\<lambda>(xs, w0, pl).
     let w = tick_wall_time w0 in
     case find (\<lambda>a. time_reached w (time (pl a))) xs of
       None \<Rightarrow> ((xs, w, pl), None)
     | Some a \<Rightarrow>
         ((if recurring (pl a) \<noteq> 0
           then (xs, w, pl(a := (pl a)\<lparr>time := due_time w (freerunning_sec (time (pl a))) (recurring_msec (pl a))\<rparr>))
           else (remove1 a xs, w, pl)),
          Some (callback (pl a), user_data (pl a))))"

definition represents :: "'f timer1 \<Rightarrow> 'f schedule \<Rightarrow> bool" where
  "represents s = (\<lambda>(xs, w, pl). chain s xs \<and> walltimer s = w \<and> payload s = pl)"

lemma payload_sel [simp]:
  "time (payload s a) = time (heap s a)" "recurring (payload s a) = recurring (heap s a)"
  "recurring_msec (payload s a) = recurring_msec (heap s a)" "callback (payload s a) = callback (heap s a)"
  "user_data (payload s a) = user_data (heap s a)" "next_ptr (payload s a) = None"
  by (simp_all add: payload_def)

lemma check_chain_skip:
  "chainp (heap s) p xs \<Longrightarrow>
   check_chain s p =
     (case find (\<lambda>a. time_reached (walltimer s) (time (heap s a))) xs of
        None \<Rightarrow> Some (s, None)
      | Some a \<Rightarrow> map_option (\<lambda>(s', _). (s', Some a)) (timer1_clock_check a s))"
proof (induction xs arbitrary: p)
  case Nil
  then show ?case by (simp add: check_chain.simps)
next
  case (Cons x xs)
  have "check_chain s p = (if time_reached (walltimer s) (time (heap s x))
     then map_option (\<lambda>(s', _). (s', Some x)) (timer1_clock_check x s)
     else check_chain s (next_ptr (heap s x)))"
    using Cons.prems
    by (subst check_chain.simps) (auto simp: timer1_clock_check_def Let_def option.map_comp split: option.splits)
  then show ?case using Cons by simp
qed

lemma check_due:
  assumes "chain s xs" "a \<in> set xs" "time_reached (walltimer s) (time (heap s a))"
  obtains s' where "timer1_clock_check a s = Some (s', True)"
    "represents s' (if recurring (heap s a) \<noteq> 0
       then (xs, walltimer s, (payload s)(a := (payload s a)\<lparr>time := 
               due_time (walltimer s) (freerunning_sec (time (heap s a))) (recurring_msec (heap s a))\<rparr>))
       else (remove1 a xs, walltimer s, payload s))" "regs s' = regs s"
proof (cases "recurring (heap s a) = 0")
  case True
  obtain s' where "timer1_clock_unregister_callback a s = Some s'"
    "chain s' (remove1 a xs)" "payload s' = payload s" "walltimer s' = walltimer s" "regs s' = regs s"
    by (rule unregister_callback [OF assms(1)])
  then show ?thesis using True assms(3)
    by (intro that [of s']) (auto simp: timer1_clock_check_def represents_def)
next
  case False
  let ?c = "heap s a"
  obtain s' where "timer1_clock_register_callback (freerunning_sec (time ?c)) (recurring_msec ?c)
      (recurring ?c) (callback ?c) (user_data ?c) a s = Some s'"
    "chain s' xs" 
    "payload s' = (payload s)(a := \<lparr>next_ptr = None,
       time = due_time (walltimer s) (freerunning_sec (time ?c)) (recurring_msec ?c),
       recurring = recurring ?c, recurring_msec = recurring_msec ?c, user_data = user_data ?c,
       callback = callback ?c\<rparr>)"
    "walltimer s' = walltimer s" "regs s' = regs s"
    by (rule register_callback [OF assms(1), of "freerunning_sec (time ?c)" "recurring_msec ?c"
          "recurring ?c" "callback ?c" "user_data ?c" a]) (erule that; simp add: assms(2))
  then show ?thesis using False assms(3)
    by (intro that [of s']) (auto simp: timer1_clock_check_def represents_def payload_def)
qed

lemma TIMER1_COMPA_refines:
  assumes "represents s sch"
  shows "\<exists>s'. TIMER1_COMPA_vect s = Some (s', snd (sched_tick sch)) \<and>
              represents s' (fst (sched_tick sch)) \<and> regs s' = regs s"
proof -
  obtain xs where sch: "sch = (xs, walltimer s, payload s)" and xs: "chain s xs"
    using assms by (cases sch) (auto simp: represents_def)
  define t where "t = s\<lparr>walltimer := tick_wall_time (walltimer s)\<rparr>"
  have t: "payload t = payload s" "heap t = heap s" "walltimer t = tick_wall_time (walltimer s)"
    "regs t = regs s"
    by (auto simp: t_def payload_def fun_eq_iff)
  have chain_t: "chain t xs" using xs by (simp add: t_def chain_def)
  have run: "TIMER1_COMPA_vect s = (case find (\<lambda>a. time_reached (walltimer t) (time (heap t a))) xs of
      None \<Rightarrow> Some (t, None)
    | Some a \<Rightarrow> map_option (\<lambda>(s', _). (s', Some (callback (heap s' a), user_data (heap s' a))))
                 (timer1_clock_check a t))"
    using check_chain_skip [of t "callback_chain s" xs] xs
    by (auto simp: TIMER1_COMPA_vect_def chain_def t_def split: option.split)
  show ?thesis
  proof (cases "find (\<lambda>a. time_reached (walltimer t) (time (heap t a))) xs")
    case None
    then show ?thesis using chain_t t by (simp add: run sch sched_tick_def represents_def)
  next
    case (Some a)
    then have a: "a \<in> set xs" "time_reached (walltimer t) (time (heap t a))"
      by (auto simp: find_Some_iff)
    obtain s' where s': "timer1_clock_check a t = Some (s', True)"
      "represents s' (if recurring (heap t a) \<noteq> 0
       then (xs, walltimer t, (payload t)(a := (payload t a)\<lparr>time := 
               due_time (walltimer t) (freerunning_sec (time (heap t a))) (recurring_msec (heap t a))\<rparr>))
       else (remove1 a xs, walltimer t, payload t))" "regs s' = regs t"
      by (rule check_due [OF chain_t a])
    have pl: "callback (payload s' a) = callback (heap t a)" "user_data (payload s' a) = user_data (heap t a)"
      using s'(2) by (cases "recurring (heap t a) = 0"; simp add: represents_def del: payload_sel, simp)+
    show ?thesis using Some s' pl by (simp add: run sch sched_tick_def t Let_def cong: if_cong)
  qed
qed

section \<open>Runs of the interrupt\<close>

fun timer1_run :: "nat \<Rightarrow> 'f timer1 \<Rightarrow> ('f timer1 \<times> ('f \<times> nat) option list) option" where
  "timer1_run 0 s = Some (s, [])"
| "timer1_run (Suc n) s =
     (case TIMER1_COMPA_vect s of
        None \<Rightarrow> None
      | Some (s', ev) \<Rightarrow> map_option (\<lambda>(s'', evs). (s'', ev # evs)) (timer1_run n s'))"

fun sched_run :: "nat \<Rightarrow> 'f schedule \<Rightarrow> 'f schedule \<times> ('f \<times> nat) option list" where
  "sched_run 0 sch = (sch, [])"
| "sched_run (Suc n) sch =
     (let (sch', ev) = sched_tick sch; (sch'', evs) = sched_run n sch' in (sch'', ev # evs))"

lemma timer1_run_refines:
  "represents s sch \<Longrightarrow>
   \<exists>s'. timer1_run n s = Some (s', snd (sched_run n sch)) \<and> represents s' (fst (sched_run n sch))"
proof (induction n arbitrary: s sch)
  case (Suc n)
  obtain s1 where s1: "TIMER1_COMPA_vect s = Some (s1, snd (sched_tick sch))"
    "represents s1 (fst (sched_tick sch))"
    using TIMER1_COMPA_refines [OF Suc.prems] by blast
  then show ?case using Suc.IH [OF s1(2)] by (auto simp: split_def Let_def)
qed simp

lemma sched_tick_early:
  assumes "wall_ok w" "wall_ok (time (pl a))" "ms_of w + 1 < ms_of (time (pl a))"
  shows "sched_tick ([a], w, pl) = (([a], tick_wall_time w, pl), None)"
    and "ms_of (tick_wall_time w) = ms_of w + 1"
proof -
  show ms: "ms_of (tick_wall_time w) = ms_of w + 1"
    using assms ms_of_bound [OF assms(2)] by (simp add: tick_ms_of)
  show "sched_tick ([a], w, pl) = (([a], tick_wall_time w, pl), None)"
    using assms ms by (simp add: sched_tick_def Let_def time_reached_iff tick_wall_ok)
qed

lemma sched_run_one_shot:
  "\<lbrakk>wall_ok w; wall_ok (time (pl a)); recurring (pl a) = 0; ms_of (time (pl a)) = ms_of w + Suc n\<rbrakk> \<Longrightarrow>
   \<exists>w'. sched_run (Suc n) ([a], w, pl) =
          (([], w', pl), replicate n None @ [Some (callback (pl a), user_data (pl a))]) \<and>
        wall_ok w' \<and> ms_of w' = ms_of (time (pl a))"
proof (induction n arbitrary: w)
  case 0
  then have "ms_of (tick_wall_time w) = ms_of (time (pl a))"
    using ms_of_bound [of "time (pl a)"] by (simp add: tick_ms_of)
  then show ?case using 0
    by (simp add: sched_tick_def Let_def time_reached_iff tick_wall_ok)
next
  case (Suc n)
  note e = sched_tick_early [of w pl a, OF Suc.prems(1,2)]
  show ?case using Suc.IH [of "tick_wall_time w"] Suc.prems e
    by (auto simp: tick_wall_ok simp del: sched_run.simps(2) simp: sched_run.simps(2) [of "Suc n"])
qed

section \<open>Properties\<close>

text \<open>
  A clock with one registered structure at address 3, one millisecond before its due time;
  the callback is the number 7.
\<close>

definition sample_timer :: "nat timer1" where
  "sample_timer =
     \<lparr>walltimer = \<lparr>msec = 999, sec = 59, minute = 59, hour = 23, day = 4, freerunning_sec = 0\<rparr>,
      callback_chain = Some 3,
      heap = (\<lambda>_. \<lparr>next_ptr = None,
                   time = \<lparr>msec = 0, sec = 0, minute = 0, hour = 0, day = 5, freerunning_sec = 0\<rparr>,
                   recurring = 0, recurring_msec = 0, user_data = 11, callback = 7\<rparr>),
      regs = \<lparr>OCR1A = 16000, OCR1B = 0, TCNT1 = 15000, TCCR1A = 0, TCCR1B = 9, TIMSK1 = 2, TIFR1 = 4\<rparr>\<rparr>"

definition idle_timer :: "nat timer1" where
  "idle_timer = sample_timer\<lparr>callback_chain := None\<rparr>"

text \<open>
  (C13) One run of the compare interrupt implements the abstract schedule: on every state whose
  linked chain represents a schedule, the interrupt returns, fires exactly the first due entry
  (or none), re-arms it when it recurs and removes it otherwise, and touches no register.
\<close>

theorem timer1_isr_refines_schedule:
  assumes "represents s sch"
  shows "\<exists>s'. TIMER1_COMPA_vect s = Some (s', snd (sched_tick sch)) \<and>
              represents s' (fst (sched_tick sch)) \<and> regs s' = regs s"
  by (rule TIMER1_COMPA_refines [OF assms])

theorem timer1_isr_refines_schedule_witness:
  "\<exists>s'. TIMER1_COMPA_vect sample_timer = Some (s', Some (7, 11)) \<and> chain s' []"
proof -
  have "represents sample_timer ([3], walltimer sample_timer, payload sample_timer)"
    by (simp add: represents_def chain_def sample_timer_def)
  note t = timer1_isr_refines_schedule [OF this]
  have "sched_tick ([3], walltimer sample_timer, payload sample_timer) =
     (([], tick_wall_time (walltimer sample_timer), payload sample_timer), Some (7, 11))"
    by (simp add: sched_tick_def payload_def sample_timer_def tick_wall_time_def time_reached_def)
  with t show ?thesis by (auto simp: represents_def)
qed

text \<open>
  (C15) Registering and unregistering a callback structure are list operations on the chain:
  registering appends it unless it is already there and sets its fields, unregistering removes
  it; both walks return, and no other structure, nor the wall time, changes.
\<close>

theorem timer1_register_unregister_list:
  assumes "chain s xs"
  shows "(\<exists>s'. timer1_clock_register_callback sec0 ms recur f ud cb s = Some s' \<and>
            chain s' (if cb \<in> set xs then xs else xs @ [cb]) \<and>
            payload s' = (payload s)(cb := \<lparr>next_ptr = None, time = due_time (walltimer s) sec0 ms,
              recurring = recur, recurring_msec = ms, user_data = ud, callback = f\<rparr>) \<and>
            walltimer s' = walltimer s) \<and>
         (\<exists>s'. timer1_clock_unregister_callback cb s = Some s' \<and>
            chain s' (remove1 cb xs) \<and> payload s' = payload s \<and> walltimer s' = walltimer s)"
  using register_callback [OF assms] unregister_callback [OF assms] by metis

theorem timer1_register_unregister_list_witness:
  "(\<exists>s'. timer1_clock_register_callback 1 0 0 8 0 5 sample_timer = Some s' \<and> chain s' [3, 5]) \<and>
   (\<exists>s'. timer1_clock_unregister_callback 3 sample_timer = Some s' \<and> chain s' [])"
proof -
  have c: "chain sample_timer [3]" by (simp add: chain_def sample_timer_def)
  show ?thesis
    using timer1_register_unregister_list [OF c, of 1 0 0 8 0 5]
      timer1_register_unregister_list [OF c, of 1 0 0 8 0 3] by auto
qed

text \<open>
  (C25) The wall time stays a calendar time and counts milliseconds: a tick advances the number
  of milliseconds it stands for by one, modulo the 65536 days of the day counter, and a wall
  time has reached a due time exactly when it stands for at least as many milliseconds.
\<close>

theorem timer1_wall_time_counts_milliseconds:
  assumes "wall_ok w" "wall_ok t"
  shows "wall_ok (tick_wall_time w) \<and> ms_of (tick_wall_time w) = (ms_of w + 1) mod ms_range \<and>
         (time_reached w t \<longleftrightarrow> ms_of t \<le> ms_of w)"
  using assms by (simp add: tick_wall_ok tick_ms_of time_reached_iff)

theorem timer1_wall_time_counts_milliseconds_witness:
  "wall_ok (tick_wall_time (walltimer sample_timer)) \<and>
   ms_of (tick_wall_time (walltimer sample_timer)) = 5 * 24 * 3600 * 1000"
  using timer1_wall_time_counts_milliseconds [of "walltimer sample_timer" "walltimer sample_timer"]
  by (simp add: wall_ok_def ms_of_def sample_timer_def)

text \<open>
  (C14) A one-shot callback registered with a delay of \<open>sec\<close> seconds and \<open>msec\<close> milliseconds
  fires on the interrupt that many milliseconds later and on no earlier one, and is then
  unregistered. It holds for every delay below 65535 s.
\<close>

theorem timer1_one_shot_fires_on_time:
  assumes s: "represents s ([], w, pl)" and w: "wall_ok w"
    and msec: "unat ms < 1000" and sec: "unat sc < 65535"
    and D: "D = 1000 * unat sc + unat ms" "0 < D" "ms_of w + D < ms_range"
  shows "\<exists>s1 s2. timer1_clock_register_callback sc ms 0 f ud cb s = Some s1 \<and>
           timer1_run D s1 = Some (s2, replicate (D - 1) None @ [Some (f, ud)]) \<and>
           chain s2 [] \<and> ms_of (walltimer s2) = ms_of w + D"
proof -
  have wt: "walltimer s = w" using s by (simp add: represents_def)
  have "(unat (msec w) + unat ms) div 1000 < 2"
    using w msec by (intro less_mult_imp_div_less) (simp add: wall_ok_def)
  then have c: "unat sc + (unat (msec w) + unat ms) div 1000 < 65536" using sec by linarith
  note ok = due_time_ok [OF w msec c] and t = due_time_ms [OF w msec c]
  have "chain s []" using s by (simp add: represents_def)
  then obtain s1 where s1: "timer1_clock_register_callback sc ms 0 f ud cb s = Some s1"
    "chain s1 (if cb \<in> set [] then [] else [] @ [cb])"
    "payload s1 = (payload s)(cb := \<lparr>next_ptr = None, time = due_time (walltimer s) sc ms,
       recurring = 0, recurring_msec = ms, user_data = ud, callback = f\<rparr>)" "walltimer s1 = walltimer s"
    by (rule register_callback)
  have pl: "payload s1 cb = \<lparr>next_ptr = None, time = due_time w sc ms, recurring = 0,
       recurring_msec = ms, user_data = ud, callback = f\<rparr>" using s1(3) wt by simp
  have r: "represents s1 ([cb], w, payload s1)" using s1 wt by (simp add: represents_def)
  have DS: "D = Suc (D - 1)" using D(2) by simp
  have "wall_ok (time (payload s1 cb))" "recurring (payload s1 cb) = 0"
    "ms_of (time (payload s1 cb)) = ms_of w + Suc (D - 1)"
    using ok t D pl by (simp_all del: payload_sel)
  from sched_run_one_shot [of w "payload s1" cb, OF w this] obtain w' where "sched_run D ([cb], w, payload s1) =
      (([], w', payload s1), replicate (D - 1) None @ [Some (f, ud)])" "ms_of w' = ms_of w + D"
    unfolding DS [symmetric] pl using ok t D by auto
  then show ?thesis using timer1_run_refines [OF r, of D] s1(1)
    by (auto simp: represents_def simp del: sched_run.simps timer1_run.simps)
qed

theorem timer1_one_shot_fires_on_time_witness:
  "\<exists>s1 s2. timer1_clock_register_callback 0 3 0 8 1 9 idle_timer = Some s1 \<and>
           timer1_run 3 s1 = Some (s2, [None, None, Some (8, 1)]) \<and> chain s2 []"
proof -
  have r: "represents idle_timer ([], walltimer idle_timer, payload idle_timer)"
    by (simp add: represents_def chain_def idle_timer_def)
  have w: "wall_ok (walltimer idle_timer)" "ms_of (walltimer idle_timer) + 3 < ms_range"
    by (simp_all add: wall_ok_def ms_of_def idle_timer_def sample_timer_def)
  have "\<exists>s1 s2. timer1_clock_register_callback 0 3 0 8 1 9 idle_timer = Some s1 \<and>
      timer1_run 3 s1 = Some (s2, replicate (3 - 1) None @ [Some (8, 1)]) \<and> chain s2 [] \<and>
      ms_of (walltimer s2) = ms_of (walltimer idle_timer) + 3"
    by (rule timer1_one_shot_fires_on_time [OF r w(1)]) (use w(2) in simp_all)
  then show ?thesis by (simp add: numeral_2_eq_2 del: timer1_run.simps) blast
qed

text \<open>
  (C37) The sub-millisecond timer is set to the tick \<open>delay_ticks\<close> after the current count,
  modulo the 16000 ticks of a millisecond, with a pending compare flag cleared and the compare
  interrupt enabled.
\<close>

theorem timer1_sub_timer_b_delay_compare:
  assumes "unat d \<le> 16000" "unat (TCNT1 (regs s)) < 16000"
  shows "unat (OCR1B (regs (timer1_sub_timer_b_delay d s))) = (unat (TCNT1 (regs s)) + unat d) mod 16000 \<and>
     bit (TIMSK1 (regs (timer1_sub_timer_b_delay d s))) OCIE1B \<and>
     \<not> bit (TIFR1 (regs (timer1_sub_timer_b_delay d s))) OCF1B"
proof -
  let ?t = "TCNT1 (regs s)"
  have t: "unat (d + ?t) = unat d + unat ?t" using assms by (simp add: unat_plus_u16)
  have "OCR1B (regs (timer1_sub_timer_b_delay d s)) = (if 16000 \<le> d + ?t then d + ?t - 16000 else d + ?t)"
    by (simp add: timer1_sub_timer_b_delay_def Let_def u16_split_or add.assoc u16_split_add)
  moreover have n: "unat (16000 :: u16) = 16000" by simp
  ultimately have ocr: "unat (OCR1B (regs (timer1_sub_timer_b_delay d s))) = (unat ?t + unat d) mod 16000"
    using reduce16(1) [of "d + ?t" 16000, unfolded n] assms t by (simp add: add.commute)
  have "bit (TIMSK1 (regs (timer1_sub_timer_b_delay d s))) OCIE1B"
    "\<not> bit (TIFR1 (regs (timer1_sub_timer_b_delay d s))) OCF1B"
    by (simp_all add: timer1_sub_timer_b_delay_def Let_def bit_simps)
  with ocr show ?thesis by simp
qed

theorem timer1_sub_timer_b_delay_compare_witness:
  "unat (OCR1B (regs (timer1_sub_timer_b_delay 2000 sample_timer))) = 1000"
  using timer1_sub_timer_b_delay_compare [of 2000 sample_timer] by (simp add: sample_timer_def)

text \<open>
  (C38) The longest delay is the exception: with \<open>sec = 65535\<close> and a carry out of the
  milliseconds the 16 bit seconds wrap to 0, and the callback is already due when it is
  registered instead of after 65535 s.
\<close>

theorem timer1_register_overflow:
  assumes w: "wall_ok w" and ms: "unat ms < 1000" "1000 \<le> unat (msec w) + unat ms"
  shows "due_time w 65535 ms = w\<lparr>msec := msec w + ms - 1000, freerunning_sec := 65535\<rparr> \<and>
         time_reached w (due_time w 65535 ms)"
proof -
  note ok = w [unfolded wall_ok_def]
  have t0: "unat (msec w + ms) = unat (msec w) + unat ms"
    using ok ms by (simp add: unat_plus_u16)
  then have c: "1000 \<le> msec w + ms" using ms by (simp add: word_le_nat_alt)
  have lt: "\<not> 60 \<le> (ucast (sec w) :: u16)" "\<not> 60 \<le> (ucast (minute w) :: u16)"
    "\<not> 24 \<le> (ucast (hour w) :: u16)"
    using ok by (simp_all add: word_le_nat_alt)
  have eq: "due_time w 65535 ms = w\<lparr>msec := msec w + ms - 1000, freerunning_sec := 65535\<rparr>"
    using c lt by (cases w) (simp add: due_time_def Let_def)
  have "unat (msec w + ms - 1000) = unat (msec w) + unat ms - 1000"
    using c t0 by (simp add: unat_minus_le)
  then have "msec w + ms - 1000 \<le> msec w" using ms by (simp add: word_le_nat_alt)
  then show ?thesis by (simp add: eq time_reached_def)
qed

theorem timer1_register_overflow_witness:
  "time_reached (walltimer sample_timer) (due_time (walltimer sample_timer) 65535 1)"
  by (rule conjunct2 [OF timer1_register_overflow]) (simp_all add: wall_ok_def sample_timer_def)

end
