(* ===== verification/Pff_Core.thy ===== *)
theory Pff_Core
  imports Pff_Code_Pages
begin

text \<open>
  The private functions of \<^verbatim>\<open>src/src/utils/petit_fat_fs/pff.c\<close>, in the order of the source. The disk
  functions of \<^verbatim>\<open>diskio.h\<close> and the configuration of \<^verbatim>\<open>pff.h\<close> are the fields of the record
  \<open>pff_env\<close>, passed to every function; the state of the disk is of any type \<open>'d\<close>. A function that
  reads through the global pointer \<^verbatim>\<open>FatFs\<close> takes the object it points to as \<open>fs\<close>. The type
  \<^verbatim>\<open>CLUST\<close>, 16 or 32 bits by configuration, is a 32 bit word truncated by \<open>CLUST\<close> where the C code
  stores or computes in that type.
\<close>

section \<open>Types and configuration\<close>

datatype DRESULT = RES_OK | RES_ERROR | RES_NOTRDY | RES_PARERR

datatype FRESULT =
  FR_OK | FR_DISK_ERR | FR_NOT_READY | FR_NO_FILE | FR_NO_PATH | FR_NOT_OPENED | FR_NOT_ENABLED |
  FR_NO_FILESYSTEM

text \<open>
  \<open>disk_readp mem sector offset count\<close> returns the bytes it delivers, to memory when \<open>mem\<close> holds and
  to the outgoing stream when the destination is null. \<open>disk_writep\<close> is given the bytes it sends,
  or \<open>None\<close> for the null pointer that starts (sector number) or finalises (0) a write.
\<close>

record 'd pff_env =
  FS_FAT12_cfg :: bool
  FS_FAT32_cfg :: bool
  code_page_cfg :: code_page
  disk_initialize :: "'d \<Rightarrow> u8 \<times> 'd"
  disk_readp :: "bool \<Rightarrow> u32 \<Rightarrow> u16 \<Rightarrow> u16 \<Rightarrow> 'd \<Rightarrow> DRESULT \<times> u8 list \<times> 'd"
  disk_writep :: "u8 list option \<Rightarrow> u32 \<Rightarrow> 'd \<Rightarrow> DRESULT \<times> 'd"

record FATFS =
  fs_type :: u8
  flag :: u8
  csize :: u8
  n_rootdir :: u16
  n_fatent :: u32
  fatbase :: u32
  dirbase :: u32
  database :: u32
  fptr :: u32
  fsize :: u32
  org_clust :: u32
  curr_clust :: u32
  dsect :: u32

record DIR =
  dir_index :: u16
  fn :: "u8 list"
  sclust :: u32
  clust :: u32
  sect :: u32

record FILINFO =
  fi_fsize :: u32
  fdate :: u16
  ftime :: u16
  fattrib :: u8
  fname :: "u8 list"

abbreviation (input) FS_FAT12 :: u8 where "FS_FAT12 \<equiv> 1"
abbreviation (input) FS_FAT16 :: u8 where "FS_FAT16 \<equiv> 2"
abbreviation (input) FS_FAT32 :: u8 where "FS_FAT32 \<equiv> 3"
abbreviation (input) FA_OPENED :: u8 where "FA_OPENED \<equiv> 0x01"
abbreviation (input) FA__WIP :: u8 where "FA__WIP \<equiv> 0x40"
abbreviation (input) AM_VOL :: u8 where "AM_VOL \<equiv> 0x08"
abbreviation (input) AM_DIR :: u8 where "AM_DIR \<equiv> 0x10"
abbreviation (input) AM_MASK :: u8 where "AM_MASK \<equiv> 0x3F"
abbreviation (input) STA_NOINIT :: u8 where "STA_NOINIT \<equiv> 0x01"
abbreviation (input) DIR_Attr :: nat where "DIR_Attr \<equiv> 11"
abbreviation (input) DIR_FstClusHI :: nat where "DIR_FstClusHI \<equiv> 20"
abbreviation (input) DIR_WrtTime :: nat where "DIR_WrtTime \<equiv> 22"
abbreviation (input) DIR_WrtDate :: nat where "DIR_WrtDate \<equiv> 24"
abbreviation (input) DIR_FstClusLO :: nat where "DIR_FstClusLO \<equiv> 26"
abbreviation (input) DIR_FileSize :: nat where "DIR_FileSize \<equiv> 28"

definition CLUST :: "'d pff_env \<Rightarrow> u32 \<Rightarrow> u32" where
  "CLUST E x = (if FS_FAT32_cfg E then x else ucast (ucast x :: u16))"

definition LD_WORD :: "u8 list \<Rightarrow> nat \<Rightarrow> u16" where
  "LD_WORD p k = push_bit 8 (ucast (p ! (k + 1))) OR ucast (p ! k)"

definition LD_DWORD :: "u8 list \<Rightarrow> nat \<Rightarrow> u32" where
  "LD_DWORD p k = push_bit 24 (ucast (p ! (k + 3))) OR push_bit 16 (ucast (p ! (k + 2))) OR
     ucast (push_bit 8 (ucast (p ! (k + 1))) :: u16) OR ucast (p ! k)"

definition LD_CLUST :: "'d pff_env \<Rightarrow> u8 list \<Rightarrow> u32" where
  "LD_CLUST E dir =
     (if FS_FAT32_cfg E
      then push_bit 16 (ucast (LD_WORD dir DIR_FstClusHI)) OR ucast (LD_WORD dir DIR_FstClusLO)
      else ucast (LD_WORD dir DIR_FstClusLO))"

section \<open>Memory\<close>

fun mem_set :: "u8 list \<Rightarrow> u8 \<Rightarrow> nat \<Rightarrow> u8 list" where
  "mem_set dst val 0 = dst"
| "mem_set [] val (Suc cnt) = []"
| "mem_set (_ # dst) val (Suc cnt) = val # mem_set dst val cnt"

fun mem_cmp :: "u8 list \<Rightarrow> u8 list \<Rightarrow> nat \<Rightarrow> int" where
  "mem_cmp dst src 0 = 0"
| "mem_cmp (d # dst) (s # src) (Suc cnt) =
     (let r = sint d - sint s in if r = 0 then mem_cmp dst src cnt else r)"
| "mem_cmp _ _ (Suc cnt) = 0"

section \<open>FAT access\<close>

definition get_fat :: "'d pff_env \<Rightarrow> FATFS \<Rightarrow> u32 \<Rightarrow> 'd \<Rightarrow> u32 \<times> 'd" where
  "get_fat E fs clst d =
     (if clst < 2 \<or> n_fatent fs \<le> clst then (1, d)
      else if fs_type fs = FS_FAT12 \<and> FS_FAT12_cfg E then
        (let bc0 = ucast clst :: u16; bc1 = bc0 + bc0 div 2;
             ofs = bc1 mod 512; bc = bc1 div 512;
             link = (\<lambda>wc :: u16. ucast (if clst AND 1 \<noteq> 0 then drop_bit 4 wc else wc AND 0xFFF) :: u32)
         in if ofs \<noteq> 511 then
              (case disk_readp E True (fatbase fs + ucast bc) ofs 2 d of
                 (dr, buf, d1) \<Rightarrow> if dr \<noteq> RES_OK then (1, d1) else (link (LD_WORD buf 0), d1))
            else
              (case disk_readp E True (fatbase fs + ucast bc) 511 1 d of
                 (dr, buf, d1) \<Rightarrow>
                   if dr \<noteq> RES_OK then (1, d1)
                   else (case disk_readp E True (fatbase fs + ucast bc + 1) 0 1 d1 of
                           (dr, buf1, d2) \<Rightarrow>
                             if dr \<noteq> RES_OK then (1, d2) else (link (LD_WORD (buf @ buf1) 0), d2))))
      else if fs_type fs = FS_FAT16 then
        (case disk_readp E True (fatbase fs + clst div 256) (((ucast clst) mod 256) * 2) 2 d of
           (dr, buf, d1) \<Rightarrow> if dr \<noteq> RES_OK then (1, d1) else (ucast (LD_WORD buf 0), d1))
      else if fs_type fs = FS_FAT32 \<and> FS_FAT32_cfg E then
        (case disk_readp E True (fatbase fs + clst div 128) (((ucast clst) mod 128) * 4) 4 d of
           (dr, buf, d1) \<Rightarrow>
             if dr \<noteq> RES_OK then (1, d1) else (LD_DWORD buf 0 AND 0x0FFFFFFF, d1))
      else (1, d))"

definition clust2sect :: "'d pff_env \<Rightarrow> FATFS \<Rightarrow> u32 \<Rightarrow> u32" where
  "clust2sect E fs clst =
     (let clst = CLUST E (clst - 2) in
      if CLUST E (n_fatent fs - 2) \<le> clst then 0 else clst * ucast (csize fs) + database fs)"

section \<open>Directory walk\<close>

definition dir_rewind :: "'d pff_env \<Rightarrow> FATFS \<Rightarrow> DIR \<Rightarrow> FRESULT \<times> DIR" where
  "dir_rewind E fs dj =
     (let dj = dj\<lparr>dir_index := 0\<rparr>; clst = sclust dj in
      if clst = 1 \<or> n_fatent fs \<le> clst then (FR_DISK_ERR, dj)
      else
        let clst = (if FS_FAT32_cfg E \<and> clst = 0 \<and> fs_type fs = FS_FAT32
                    then CLUST E (dirbase fs) else clst)
        in (FR_OK, dj\<lparr>clust := clst,
                       sect := (if clst \<noteq> 0 then clust2sect E fs clst else dirbase fs)\<rparr>))"

definition dir_next :: "'d pff_env \<Rightarrow> FATFS \<Rightarrow> DIR \<Rightarrow> 'd \<Rightarrow> FRESULT \<times> DIR \<times> 'd" where
  "dir_next E fs dj d =
     (let i = dir_index dj + 1 in
      if i = 0 \<or> sect dj = 0 then (FR_NO_FILE, dj, d)
      else if i mod 16 = 0 then
        let dj = dj\<lparr>sect := sect dj + 1\<rparr> in
        if clust dj = 0 then
          (if n_rootdir fs \<le> i then (FR_NO_FILE, dj, d) else (FR_OK, dj\<lparr>dir_index := i\<rparr>, d))
        else if (i div 16) AND (ucast (csize fs) - 1) = 0 then
          (case get_fat E fs (clust dj) d of (clst, d1) \<Rightarrow>
             if clst \<le> 1 then (FR_DISK_ERR, dj, d1)
             else if n_fatent fs \<le> clst then (FR_NO_FILE, dj, d1)
             else (FR_OK, dj\<lparr>clust := clst, sect := clust2sect E fs clst, dir_index := i\<rparr>, d1))
        else (FR_OK, dj\<lparr>dir_index := i\<rparr>, d)
      else (FR_OK, dj\<lparr>dir_index := i\<rparr>, d))"

text \<open>The directory walks end because the 16 bit index grows with every successful step.\<close>

lemma dir_next_index:
  assumes "dir_next E fs dj d = (FR_OK, dj', d')"
  shows "dir_index dj' = dir_index dj + 1" "dir_index dj + 1 \<noteq> 0"
  using assms by (auto simp: dir_next_def Let_def split: if_splits prod.splits)

lemma dir_next_measure:
  assumes "dir_next E fs dj d = (FR_OK, dj', d')"
  shows "65536 - unat (dir_index dj') < 65536 - unat (dir_index dj)"
proof -
  have "unat (dir_index dj) \<noteq> 65535"
    using dir_next_index(2) [OF assms] by (auto simp: word_unat_eq_iff unat_plus_u16)
  then have "unat (dir_index dj) < 65535" using unat_less_u16 [of "dir_index dj"] by linarith
  then show ?thesis by (simp add: dir_next_index(1) [OF assms] unat_inc_u16)
qed

abbreviation (input) read_entry :: "'d pff_env \<Rightarrow> DIR \<Rightarrow> 'd \<Rightarrow> DRESULT \<times> u8 list \<times> 'd" where
  "read_entry E dj d \<equiv> disk_readp E True (sect dj) ((dir_index dj mod 16) * 32) 32 d"

function dir_find_loop ::
    "'d pff_env \<Rightarrow> FATFS \<Rightarrow> DIR \<Rightarrow> u8 list \<Rightarrow> 'd \<Rightarrow> FRESULT \<times> DIR \<times> u8 list \<times> 'd" where
  "dir_find_loop E fs dj dir d =
     (case read_entry E dj d of (dr, dir1, d1) \<Rightarrow>
        if dr \<noteq> RES_OK then (FR_DISK_ERR, dj, dir, d1)
        else if dir1 ! 0 = 0 then (FR_NO_FILE, dj, dir1, d1)
        else if dir1 ! DIR_Attr AND AM_VOL = 0 \<and> mem_cmp dir1 (fn dj) 11 = 0
        then (FR_OK, dj, dir1, d1)
        else (case dir_next E fs dj d1 of (res, dj', d2) \<Rightarrow>
                if res = FR_OK then dir_find_loop E fs dj' dir1 d2 else (res, dj', dir1, d2)))"
  by pat_completeness auto
termination
  by (relation "measure (\<lambda>(E, fs, dj, dir, d). 65536 - unat (dir_index dj))")
    (auto dest!: dir_next_measure [OF sym])

declare dir_find_loop.simps [simp del]

definition dir_find ::
    "'d pff_env \<Rightarrow> FATFS \<Rightarrow> DIR \<Rightarrow> u8 list \<Rightarrow> 'd \<Rightarrow> FRESULT \<times> DIR \<times> u8 list \<times> 'd" where
  "dir_find E fs dj dir d =
     (case dir_rewind E fs dj of (res, dj) \<Rightarrow>
        if res \<noteq> FR_OK then (res, dj, dir, d) else dir_find_loop E fs dj dir d)"

function dir_read_loop ::
    "'d pff_env \<Rightarrow> FATFS \<Rightarrow> FRESULT \<Rightarrow> DIR \<Rightarrow> u8 list \<Rightarrow> 'd \<Rightarrow> FRESULT \<times> DIR \<times> u8 list \<times> 'd" where
  "dir_read_loop E fs res dj dir d =
     (if sect dj = 0 then (res, dj, dir, d)
      else case read_entry E dj d of (dr, dir1, d1) \<Rightarrow>
        if dr \<noteq> RES_OK then (FR_DISK_ERR, dj, dir, d1)
        else
          let c = dir1 ! 0; a = dir1 ! DIR_Attr AND AM_MASK in
          if c = 0 then (FR_NO_FILE, dj, dir1, d1)
          else if c \<noteq> 0xE5 \<and> c \<noteq> 0x2E \<and> a AND AM_VOL = 0 then (FR_OK, dj, dir1, d1)
          else (case dir_next E fs dj d1 of (res', dj', d2) \<Rightarrow>
                  if res' \<noteq> FR_OK then (res', dj', dir1, d2)
                  else dir_read_loop E fs res' dj' dir1 d2))"
  by pat_completeness auto
termination
  by (relation "measure (\<lambda>(E, fs, res, dj, dir, d). 65536 - unat (dir_index dj))")
    (auto dest!: dir_next_measure [OF sym])

declare dir_read_loop.simps [simp del]

definition dir_read ::
    "'d pff_env \<Rightarrow> FATFS \<Rightarrow> DIR \<Rightarrow> u8 list \<Rightarrow> 'd \<Rightarrow> FRESULT \<times> DIR \<times> u8 list \<times> 'd" where
  "dir_read E fs dj dir d =
     (case dir_read_loop E fs FR_NO_FILE dj dir d of (res, dj, dir, d) \<Rightarrow>
        (res, if res \<noteq> FR_OK then dj\<lparr>sect := 0\<rparr> else dj, dir, d))"

section \<open>Names\<close>

text \<open>
  A path is the list of its bytes, which a null byte follows; reading past that null byte is
  undefined and the value \<open>None\<close>.
\<close>

definition path_at :: "u8 list \<Rightarrow> nat \<Rightarrow> u8 option" where
  "path_at p k = (if k < length p then Some (p ! k) else if k = length p then Some 0 else None)"

text \<open>
  The loop of \<^verbatim>\<open>create_name\<close>: position \<open>si\<close> in the path, position \<open>i\<close> in the name, limit \<open>ni\<close> of
  the part of the name being filled; it returns the byte it stopped at, the position after it and
  the name.
\<close>

function create_name_loop ::
    "code_page \<Rightarrow> u8 list \<Rightarrow> nat \<Rightarrow> nat \<Rightarrow> nat \<Rightarrow> u8 list \<Rightarrow> (u8 \<times> nat \<times> u8 list) option" where
  "create_name_loop cp p si i ni sfn =
     (case path_at p si of
        None \<Rightarrow> None
      | Some c \<Rightarrow>
          if c \<le> 0x20 \<or> c = 0x2F then Some (c, si + 1, sfn)
          else if c = 0x2E \<or> ni \<le> i then
            (if ni \<noteq> 8 \<or> c \<noteq> 0x2E then Some (c, si + 1, sfn)
             else create_name_loop cp p (si + 1) 8 11 sfn)
          else
            let c = excvt cp c in
            if IsDBCS1 cp c \<and> i < ni - 1 then
              (case path_at p (si + 1) of
                 None \<Rightarrow> None
               | Some b \<Rightarrow> create_name_loop cp p (si + 2) (i + 2) ni (sfn[i := c, i + 1 := b]))
            else create_name_loop cp p (si + 1) (i + 1) ni (sfn[i := toupper c]))"
  by pat_completeness auto
termination
  by (relation "measure (\<lambda>(cp, p, si, i, ni, sfn). length p + 1 - si)")
    (auto simp: path_at_def split: if_splits)

declare create_name_loop.simps [simp del]

definition create_name ::
    "'d pff_env \<Rightarrow> DIR \<Rightarrow> u8 list \<Rightarrow> (FRESULT \<times> DIR \<times> u8 list) option" where
  "create_name E dj path =
     (let sfn = mem_set (fn dj) 0x20 11 in
      case create_name_loop (code_page_cfg E) path 0 0 8 sfn of
        None \<Rightarrow> None
      | Some (c, si, sfn) \<Rightarrow>
          Some (FR_OK, dj\<lparr>fn := sfn[11 := (if c \<le> 0x20 then 1 else 0)]\<rparr>, drop si path))"

definition get_fileinfo :: "DIR \<Rightarrow> u8 list \<Rightarrow> FILINFO \<Rightarrow> FILINFO" where
  "get_fileinfo dj dir fno =
     (let name = (if sect dj = 0 then [] else
            map (\<lambda>c. if c = 0x05 then 0xE5 else c) (takeWhile (\<lambda>c. c \<noteq> 0x20) (take 8 dir)) @
            (if dir ! 8 \<noteq> 0x20 then 0x2E # takeWhile (\<lambda>c. c \<noteq> 0x20) (take 3 (drop 8 dir)) else []));
          fno = (if sect dj = 0 then fno else
            fno\<lparr>fattrib := dir ! DIR_Attr, fi_fsize := LD_DWORD dir DIR_FileSize,
                fdate := LD_WORD dir DIR_WrtDate, ftime := LD_WORD dir DIR_WrtTime\<rparr>)
      in fno\<lparr>fname := name @ 0 # drop (length name + 1) (fname fno)\<rparr>)"

section \<open>Following a path\<close>

lemma create_name_loop_len:
  "create_name_loop cp p si i ni sfn = Some (c, si', sfn') \<Longrightarrow>
   length sfn' = length sfn \<and> si < si' \<and> (0x20 < c \<longrightarrow> si' \<le> length p)"
proof (induction "length p + 1 - si" arbitrary: si i ni sfn rule: less_induct)
  case less
  show ?case using less.prems
    by (subst (asm) create_name_loop.simps)
      (auto simp: Let_def path_at_def split: if_splits dest!: less.hyps [rotated])
qed

lemma mem_set_len [simp]: "length (mem_set dst val cnt) = length dst"
  by (induction dst val cnt rule: mem_set.induct) auto

lemma create_name_fn:
  assumes "create_name E dj path = Some (res, dj', path')" "length (fn dj) = 12"
  shows "length (fn dj') = 12" "res = FR_OK" "fn dj' ! 11 = 0 \<Longrightarrow> length path' < length path"
  using assms
  by (auto simp: create_name_def Let_def split: option.splits if_splits dest!: create_name_loop_len)

partial_function (option) follow_loop ::
    "'d pff_env \<Rightarrow> FATFS \<Rightarrow> DIR \<Rightarrow> u8 list \<Rightarrow> u8 list \<Rightarrow> 'd \<Rightarrow> (FRESULT \<times> DIR \<times> u8 list \<times> 'd) option" where
  "follow_loop E fs dj dir path d =
     (case create_name E dj path of
        None \<Rightarrow> None
      | Some (res, dj, path) \<Rightarrow>
          if res \<noteq> FR_OK then Some (res, dj, dir, d)
          else (case dir_find E fs dj dir d of (res, dj, dir, d) \<Rightarrow>
            if res \<noteq> FR_OK then
              Some (if res = FR_NO_FILE \<and> fn dj ! 11 = 0 then FR_NO_PATH else res, dj, dir, d)
            else if fn dj ! 11 \<noteq> 0 then Some (res, dj, dir, d)
            else if dir ! DIR_Attr AND AM_DIR = 0 then Some (FR_NO_PATH, dj, dir, d)
            else follow_loop E fs (dj\<lparr>sclust := LD_CLUST E dir\<rparr>) dir path d))"

definition follow_path ::
    "'d pff_env \<Rightarrow> FATFS \<Rightarrow> DIR \<Rightarrow> u8 list \<Rightarrow> u8 list \<Rightarrow> 'd \<Rightarrow> (FRESULT \<times> DIR \<times> u8 list \<times> 'd) option" where
  "follow_path E fs dj dir path d =
     (let path = dropWhile (\<lambda>c. c = 0x20) path;
          path = (case path of c # p \<Rightarrow> if c = 0x2F then p else path | [] \<Rightarrow> []);
          dj = dj\<lparr>sclust := 0\<rparr>
      in if (case path of c # _ \<Rightarrow> c \<le> 0x20 | [] \<Rightarrow> True) then
           (case dir_rewind E fs dj of (res, dj) \<Rightarrow> Some (res, dj, dir[0 := 0], d))
         else follow_loop E fs dj dir path d)"

definition check_fs :: "'d pff_env \<Rightarrow> u32 \<Rightarrow> 'd \<Rightarrow> u8 \<times> 'd" where
  "check_fs E sct d =
     (case disk_readp E True sct 510 2 d of (dr, buf, d) \<Rightarrow>
        if dr \<noteq> RES_OK then (3, d)
        else if LD_WORD buf 0 \<noteq> 0xAA55 then (2, d)
        else (case disk_readp E True sct 54 2 d of (dr, buf, d) \<Rightarrow>
          if dr = RES_OK \<and> LD_WORD buf 0 = 0x4146 then (0, d)
          else if \<not> FS_FAT32_cfg E then (1, d)
          else (case disk_readp E True sct 82 2 d of (dr, buf, d) \<Rightarrow>
            if dr = RES_OK \<and> LD_WORD buf 0 = 0x4146 then (0, d) else (1, d))))"

end
