(* ===== verification/Pff_Api.thy ===== *)
theory Pff_Api
  imports Pff_Core
begin

text \<open>
  The public functions of \<^verbatim>\<open>src/src/utils/petit_fat_fs/pff.c\<close>. The state is the global pointer
  \<^verbatim>\<open>FatFs\<close>, \<open>None\<close> when null and otherwise the object it points to, and the state of the disk.
  \<open>None\<close> as a result stands for undefined behaviour (a division by a zero cluster size, a read
  past the end of the path) or a loop that does not end.
\<close>

record 'd pff =
  FatFs :: "FATFS option"
  disk :: 'd

section \<open>Mounting\<close>

text \<open>
  The search for the boot sector: the result of the last \<^verbatim>\<open>check_fs\<close>, the sector it was made on.
\<close>

definition find_boot :: "'d pff_env \<Rightarrow> 'd \<Rightarrow> u8 \<times> u32 \<times> 'd" where
  "find_boot E d =
     (case check_fs E 0 d of (fmt, d) \<Rightarrow>
        if fmt \<noteq> 1 then (fmt, 0, d)
        else (case disk_readp E True 0 446 16 d of (dr, buf, d) \<Rightarrow>
          if dr \<noteq> RES_OK then (3, 0, d)
          else if buf ! 4 = 0 then (fmt, 0, d)
          else let bsect = LD_DWORD buf 8 in
               case check_fs E bsect d of (fmt, d) \<Rightarrow> (fmt, bsect, d)))"

text \<open>
  The values computed from the 36 bytes at offset 13 of the boot sector: the sectors of the FAT
  area, the sectors of the volume, and the number of the last cluster plus one.
\<close>

definition bpb_fsize :: "u8 list \<Rightarrow> u32" where
  "bpb_fsize buf =
     (let fsz = ucast (LD_WORD buf (22 - 13)) in if fsz = 0 then LD_DWORD buf (36 - 13) else fsz)
     * ucast (buf ! (16 - 13))"

definition bpb_tsect :: "u8 list \<Rightarrow> u32" where
  "bpb_tsect buf =
     (let tsect = ucast (LD_WORD buf (19 - 13)) in if tsect = 0 then LD_DWORD buf (32 - 13) else tsect)"

definition bpb_mclst :: "u8 list \<Rightarrow> u32" where
  "bpb_mclst buf =
     (bpb_tsect buf - ucast (LD_WORD buf (14 - 13)) - bpb_fsize buf - ucast (LD_WORD buf (17 - 13) div 16))
     div ucast (buf ! (13 - 13)) + 2"

text \<open>
  The file system object made from them: \<open>None\<close> for a division by zero, otherwise the result and
  the object (written up to the early return).
\<close>

definition load_bpb :: "'d pff_env \<Rightarrow> u32 \<Rightarrow> u8 list \<Rightarrow> FATFS \<Rightarrow> (FRESULT \<times> FATFS) option" where
  "load_bpb E bsect buf fs =
     (let fsz = bpb_fsize buf;
          fs = fs\<lparr>fatbase := bsect + ucast (LD_WORD buf (14 - 13)), csize := buf ! (13 - 13),
                  n_rootdir := LD_WORD buf (17 - 13)\<rparr>
      in if csize fs = 0 then None else
      let mclst = bpb_mclst buf;
          fs = fs\<lparr>n_fatent := CLUST E mclst\<rparr>
      in if mclst < 0xFF7 \<and> \<not> FS_FAT12_cfg E then Some (FR_NO_FILESYSTEM, fs)
      else if 0xFFF7 \<le> mclst \<and> \<not> FS_FAT32_cfg E then Some (FR_NO_FILESYSTEM, fs)
      else
      let fmt = (if 0xFFF7 \<le> mclst then FS_FAT32 else if mclst < 0xFF7 then FS_FAT12 else FS_FAT16)
      in Some (FR_OK, fs\<lparr>fs_type := fmt,
           dirbase := (if FS_FAT32_cfg E \<and> fmt = FS_FAT32 then LD_DWORD buf (44 - 13)
                       else fatbase fs + fsz),
           database := fatbase fs + fsz + ucast (n_rootdir fs div 16),
           flag := 0\<rparr>))"

text \<open>The caller's object is part of the result: it is written even when mounting fails.\<close>

definition pf_mount ::
    "'d pff_env \<Rightarrow> FATFS option \<Rightarrow> 'd pff \<Rightarrow> (FRESULT \<times> FATFS option \<times> 'd pff) option" where
  "pf_mount E fso s =
     (let s = s\<lparr>FatFs := None\<rparr> in
      case fso of
        None \<Rightarrow> Some (FR_OK, None, s)
      | Some fs \<Rightarrow>
          (case disk_initialize E (disk s) of (st, d) \<Rightarrow>
             if st AND STA_NOINIT \<noteq> 0 then Some (FR_NOT_READY, fso, s\<lparr>disk := d\<rparr>)
             else (case find_boot E d of (fmt, bsect, d) \<Rightarrow>
               if fmt = 3 then Some (FR_DISK_ERR, fso, s\<lparr>disk := d\<rparr>)
               else if fmt \<noteq> 0 then Some (FR_NO_FILESYSTEM, fso, s\<lparr>disk := d\<rparr>)
               else (case disk_readp E True bsect 13 36 d of (dr, buf, d) \<Rightarrow>
                 if dr \<noteq> RES_OK then Some (FR_DISK_ERR, fso, s\<lparr>disk := d\<rparr>)
                 else (case load_bpb E bsect buf fs of
                         None \<Rightarrow> None
                       | Some (res, fs) \<Rightarrow>
                           Some (res, Some fs,
                             s\<lparr>FatFs := (if res = FR_OK then Some fs else None), disk := d\<rparr>))))))"

section \<open>Opening\<close>

text \<open>The directory object and the entry buffer start uninitialised; every field is set before use.\<close>

definition fresh_dir :: DIR where
  "fresh_dir = \<lparr>dir_index = 0, fn = replicate 12 0, sclust = 0, clust = 0, sect = 0\<rparr>"

definition pf_open :: "'d pff_env \<Rightarrow> u8 list \<Rightarrow> 'd pff \<Rightarrow> (FRESULT \<times> 'd pff) option" where
  "pf_open E path s =
     (case FatFs s of
        None \<Rightarrow> Some (FR_NOT_ENABLED, s)
      | Some fs \<Rightarrow>
          let fs = fs\<lparr>flag := 0\<rparr> in
          (case follow_path E fs fresh_dir (replicate 32 0) path (disk s) of
             None \<Rightarrow> None
           | Some (res, dj, dir, d) \<Rightarrow>
               if res \<noteq> FR_OK then Some (res, s\<lparr>FatFs := Some fs, disk := d\<rparr>)
               else if dir ! 0 = 0 \<or> dir ! DIR_Attr AND AM_DIR \<noteq> 0
               then Some (FR_NO_FILE, s\<lparr>FatFs := Some fs, disk := d\<rparr>)
               else Some (FR_OK, s\<lparr>FatFs := Some (fs\<lparr>org_clust := LD_CLUST E dir,
                      fsize := LD_DWORD dir DIR_FileSize, fptr := 0, flag := FA_OPENED\<rparr>), disk := d\<rparr>)))"

section \<open>Reading\<close>

text \<open>
  The work on a sector boundary, common to reading and writing: \<open>False\<close> is the jump to the abort
  label.
\<close>

definition next_cluster :: "'d pff_env \<Rightarrow> FATFS \<Rightarrow> 'd \<Rightarrow> bool \<times> FATFS \<times> 'd" where
  "next_cluster E fs d =
     (case (if fptr fs = 0 then (org_clust fs, d) else get_fat E fs (curr_clust fs) d) of
        (clst, d) \<Rightarrow> if clst \<le> 1 then (False, fs, d) else (True, fs\<lparr>curr_clust := clst\<rparr>, d))"

definition next_sector :: "'d pff_env \<Rightarrow> FATFS \<Rightarrow> 'd \<Rightarrow> bool \<times> FATFS \<times> 'd" where
  "next_sector E fs d =
     (let cs = ucast (fptr fs div 512 AND (ucast (csize fs) - 1)) :: u8 in
      case (if cs = 0 then next_cluster E fs d else (True, fs, d)) of
        (ok, fs, d) \<Rightarrow>
          if \<not> ok then (False, fs, d)
          else let sct = clust2sect E fs (curr_clust fs) in
               if sct = 0 then (False, fs, d) else (True, fs\<lparr>dsect := sct + ucast cs\<rparr>, d))"

definition chunk :: "FATFS \<Rightarrow> u16 \<Rightarrow> u16" where
  "chunk fs n = (let rcnt = ucast (512 - fptr fs mod 512) in if n < rcnt then n else rcnt)"

lemma chunk_bounds:
  assumes "n \<noteq> 0"
  shows "0 < unat (chunk fs n)" "unat (chunk fs n) \<le> unat n"
    "unat (fptr fs mod 512) + unat (chunk fs n) \<le> 512"
proof -
  have m: "unat (fptr fs mod 512) < 512" by (simp add: unat_mod_distrib)
  have "unat (512 - fptr fs mod 512) = 512 - unat (fptr fs mod 512)"
    using m by (subst unat_minus_le) (simp_all add: word_le_nat_alt)
  then have r: "unat (ucast (512 - fptr fs mod 512) :: u16) = 512 - unat (fptr fs mod 512)"
    using m by (simp add: unat_ucast_32_16)
  have n: "0 < unat n" using assms by (simp add: word_unat_eq_iff)
  show "0 < unat (chunk fs n)" "unat (chunk fs n) \<le> unat n"
    "unat (fptr fs mod 512) + unat (chunk fs n) \<le> 512"
    using m r n by (auto simp: chunk_def Let_def word_less_nat_alt)
qed

lemma chunk_measure: "n \<noteq> 0 \<Longrightarrow> unat (n - chunk fs n) < unat n"
  using chunk_bounds [of n fs] by (simp add: unat_minus_le word_le_nat_alt)

function pf_read_loop ::
    "'d pff_env \<Rightarrow> bool \<Rightarrow> FATFS \<Rightarrow> u16 \<Rightarrow> u16 \<Rightarrow> u8 list \<Rightarrow> 'd \<Rightarrow> FRESULT \<times> FATFS \<times> u16 \<times> u8 list \<times> 'd" where
  "pf_read_loop E mem fs btr br out d =
     (if btr = 0 then (FR_OK, fs, br, out, d)
      else case (if fptr fs mod 512 = 0 then next_sector E fs d else (True, fs, d)) of
        (ok, fs1, d1) \<Rightarrow>
          if \<not> ok then (FR_DISK_ERR, fs1\<lparr>flag := 0\<rparr>, br, out, d1)
          else
            let rcnt = chunk fs1 btr in
            case disk_readp E mem (dsect fs1) (ucast (fptr fs1 mod 512)) rcnt d1 of
              (dr, bytes, d2) \<Rightarrow>
                if dr \<noteq> RES_OK then (FR_DISK_ERR, fs1\<lparr>flag := 0\<rparr>, br, out, d2)
                else pf_read_loop E mem (fs1\<lparr>fptr := fptr fs1 + ucast rcnt\<rparr>) (btr - rcnt)
                       (br + rcnt) (out @ bytes) d2)"
  by pat_completeness auto
termination
  by (relation "measure (\<lambda>(E, mem, fs, btr, br, out, d). unat btr)") (auto simp: chunk_measure)

declare pf_read_loop.simps [simp del]

text \<open>The result, \<^verbatim>\<open>*br\<close>, the bytes delivered to the buffer (or the stream) and the state.\<close>

definition pf_read :: "'d pff_env \<Rightarrow> bool \<Rightarrow> u16 \<Rightarrow> 'd pff \<Rightarrow> FRESULT \<times> u16 \<times> u8 list \<times> 'd pff" where
  "pf_read E mem btr s =
     (case FatFs s of
        None \<Rightarrow> (FR_NOT_ENABLED, 0, [], s)
      | Some fs \<Rightarrow>
          if flag fs AND FA_OPENED = 0 then (FR_NOT_OPENED, 0, [], s)
          else
            let remain = fsize fs - fptr fs;
                btr = (if remain < ucast btr then ucast remain else btr)
            in case pf_read_loop E mem fs btr 0 [] (disk s) of
                 (res, fs, br, out, d) \<Rightarrow> (res, br, out, s\<lparr>FatFs := Some fs, disk := d\<rparr>))"

section \<open>Writing\<close>

text \<open>The caller's buffer is the list \<open>p\<close> of at least \<open>btw\<close> bytes.\<close>

definition write_chunk :: "FATFS \<Rightarrow> u16 \<Rightarrow> u16" where
  "write_chunk fs n = (let wcnt = 512 - ucast (fptr fs) mod 512 in if n < wcnt then n else wcnt)"

lemma ucast_mod_512: "(ucast (x :: u32) :: u16) mod 512 = ucast (x mod 512)"
  by (simp add: word_unat_eq_iff unat_mod_distrib unat_ucast_32_16 mod_mod_cancel)

lemma write_chunk_eq: "write_chunk fs n = chunk fs n"
proof -
  have m: "unat (fptr fs mod 512) < 512" by (simp add: unat_mod_distrib)
  have "unat (512 - fptr fs mod 512) = 512 - unat (fptr fs mod 512)"
    using m by (subst unat_minus_le) (simp_all add: word_le_nat_alt)
  then have "unat (512 - ucast (fptr fs) mod 512 :: u16) = unat (ucast (512 - fptr fs mod 512) :: u16)"
    unfolding ucast_mod_512 using m
    by (subst unat_minus_le) (simp_all add: word_le_nat_alt unat_ucast_32_16)
  then have "512 - ucast (fptr fs) mod 512 = (ucast (512 - fptr fs mod 512) :: u16)"
    by (simp only: word_unat_eq_iff)
  then show ?thesis by (simp add: write_chunk_def chunk_def)
qed

function pf_write_loop ::
    "'d pff_env \<Rightarrow> FATFS \<Rightarrow> u16 \<Rightarrow> u16 \<Rightarrow> u8 list \<Rightarrow> 'd \<Rightarrow> FRESULT \<times> FATFS \<times> u16 \<times> 'd" where
  "pf_write_loop E fs btw bw p d =
     (if btw = 0 then (FR_OK, fs, bw, d)
      else case (if ucast (fptr fs) mod 512 = (0 :: u16) then
                   (case next_sector E fs d of (ok, fs, d) \<Rightarrow>
                      if \<not> ok then (False, fs, d)
                      else (case disk_writep E None (dsect fs) d of (dr, d) \<Rightarrow>
                              if dr \<noteq> RES_OK then (False, fs, d)
                              else (True, fs\<lparr>flag := flag fs OR FA__WIP\<rparr>, d)))
                 else (True, fs, d)) of
        (ok, fs1, d1) \<Rightarrow>
          if \<not> ok then (FR_DISK_ERR, fs1\<lparr>flag := 0\<rparr>, bw, d1)
          else
            let wcnt = write_chunk fs1 btw in
            case disk_writep E (Some (take (unat wcnt) p)) (ucast wcnt) d1 of (dr, d2) \<Rightarrow>
              if dr \<noteq> RES_OK then (FR_DISK_ERR, fs1\<lparr>flag := 0\<rparr>, bw, d2)
              else
                let fs2 = fs1\<lparr>fptr := fptr fs1 + ucast wcnt\<rparr> in
                if ucast (fptr fs2) mod 512 = (0 :: u16) then
                  (case disk_writep E None 0 d2 of (dr, d3) \<Rightarrow>
                     if dr \<noteq> RES_OK then (FR_DISK_ERR, fs2\<lparr>flag := 0\<rparr>, bw + wcnt, d3)
                     else pf_write_loop E (fs2\<lparr>flag := flag fs2 AND NOT FA__WIP\<rparr>) (btw - wcnt)
                            (bw + wcnt) (drop (unat wcnt) p) d3)
                else pf_write_loop E fs2 (btw - wcnt) (bw + wcnt) (drop (unat wcnt) p) d2)"
  by pat_completeness auto
termination
  by (relation "measure (\<lambda>(E, fs, btw, bw, p, d). unat btw)")
    (auto simp: write_chunk_eq chunk_measure)

declare pf_write_loop.simps [simp del]

definition pf_write :: "'d pff_env \<Rightarrow> u8 list \<Rightarrow> u16 \<Rightarrow> 'd pff \<Rightarrow> FRESULT \<times> u16 \<times> 'd pff" where
  "pf_write E buff btw s =
     (case FatFs s of
        None \<Rightarrow> (FR_NOT_ENABLED, 0, s)
      | Some fs \<Rightarrow>
          if flag fs AND FA_OPENED = 0 then (FR_NOT_OPENED, 0, s)
          else if btw = 0 then
            (case (if flag fs AND FA__WIP \<noteq> 0 then disk_writep E None 0 (disk s) else (RES_OK, disk s)) of
               (dr, d) \<Rightarrow>
                 if dr \<noteq> RES_OK then (FR_DISK_ERR, 0, s\<lparr>FatFs := Some (fs\<lparr>flag := 0\<rparr>), disk := d\<rparr>)
                 else (FR_OK, 0, s\<lparr>FatFs := Some (fs\<lparr>flag := flag fs AND NOT FA__WIP\<rparr>), disk := d\<rparr>))
          else
            let fs = (if flag fs AND FA__WIP = 0 then fs\<lparr>fptr := fptr fs AND 0xFFFFFE00\<rparr> else fs);
                remain = fsize fs - fptr fs;
                btw = (if remain < ucast btw then ucast remain else btw)
            in case pf_write_loop E fs btw 0 buff (disk s) of
                 (res, fs, bw, d) \<Rightarrow> (res, bw, s\<lparr>FatFs := Some fs, disk := d\<rparr>))"

section \<open>Seeking\<close>

partial_function (option) lseek_loop ::
    "'d pff_env \<Rightarrow> FATFS \<Rightarrow> u32 \<Rightarrow> u32 \<Rightarrow> u32 \<Rightarrow> 'd \<Rightarrow> (bool \<times> FATFS \<times> u32 \<times> u32 \<times> 'd) option" where
  "lseek_loop E fs clst ofs bcs d =
     (if bcs < ofs then
        (case get_fat E fs clst d of (clst1, d1) \<Rightarrow>
           if clst1 \<le> 1 \<or> n_fatent fs \<le> clst1 then Some (False, fs, clst1, ofs, d1)
           else lseek_loop E (fs\<lparr>curr_clust := clst1, fptr := fptr fs + bcs\<rparr>) clst1 (ofs - bcs) bcs d1)
      else Some (True, fs, clst, ofs, d))"

definition lseek_start :: "u32 \<Rightarrow> u32 \<Rightarrow> u32 \<Rightarrow> FATFS \<Rightarrow> FATFS \<times> u32 \<times> u32" where
  "lseek_start ifptr bcs ofs fs =
     (if ifptr > 0 \<and> (ifptr - 1) div bcs \<le> (ofs - 1) div bcs
      then let fp = (ifptr - 1) AND NOT (bcs - 1) in (fs\<lparr>fptr := fp\<rparr>, ofs - fp, curr_clust fs)
      else (fs\<lparr>curr_clust := org_clust fs\<rparr>, ofs, org_clust fs))"

definition pf_lseek :: "'d pff_env \<Rightarrow> u32 \<Rightarrow> 'd pff \<Rightarrow> (FRESULT \<times> 'd pff) option" where
  "pf_lseek E ofs s =
     (case FatFs s of
        None \<Rightarrow> Some (FR_NOT_ENABLED, s)
      | Some fs \<Rightarrow>
          if flag fs AND FA_OPENED = 0 then Some (FR_NOT_OPENED, s)
          else
            let ofs = (if fsize fs < ofs then fsize fs else ofs);
                ifptr = fptr fs;
                fs = fs\<lparr>fptr := 0\<rparr>
            in if ofs = 0 then Some (FR_OK, s\<lparr>FatFs := Some fs\<rparr>) else
            let bcs = ucast (csize fs) * 512 :: u32 in
            if ifptr > 0 \<and> bcs = 0 then None else
            let (fs, ofs, clst) = lseek_start ifptr bcs ofs fs
            in (case lseek_loop E fs clst ofs bcs (disk s) of
                  None \<Rightarrow> None
                | Some (ok, fs, clst, ofs, d) \<Rightarrow>
                    if \<not> ok then Some (FR_DISK_ERR, s\<lparr>FatFs := Some (fs\<lparr>flag := 0\<rparr>), disk := d\<rparr>)
                    else
                      let fs = fs\<lparr>fptr := fptr fs + ofs\<rparr>; sct = clust2sect E fs clst in
                      if sct = 0
                      then Some (FR_DISK_ERR, s\<lparr>FatFs := Some (fs\<lparr>flag := 0\<rparr>), disk := d\<rparr>)
                      else Some (FR_OK, s\<lparr>FatFs := Some (fs\<lparr>dsect :=
                             sct + (fptr fs div 512 AND (ucast (csize fs) - 1))\<rparr>), disk := d\<rparr>)))"

section \<open>Directories\<close>

definition pf_opendir :: "'d pff_env \<Rightarrow> DIR \<Rightarrow> u8 list \<Rightarrow> 'd pff \<Rightarrow> (FRESULT \<times> DIR \<times> 'd pff) option" where
  "pf_opendir E dj path s =
     (case FatFs s of
        None \<Rightarrow> Some (FR_NOT_ENABLED, dj, s)
      | Some fs \<Rightarrow>
          (case follow_path E fs (dj\<lparr>fn := replicate 12 0\<rparr>) (replicate 32 0) path (disk s) of
             None \<Rightarrow> None
           | Some (res, dj, dir, d) \<Rightarrow>
               let (res, dj) =
                     (if res = FR_OK then
                        let (res, dj) =
                              (if dir ! 0 \<noteq> 0 then
                                 (if dir ! DIR_Attr AND AM_DIR \<noteq> 0
                                  then (FR_OK, dj\<lparr>sclust := LD_CLUST E dir\<rparr>) else (FR_NO_PATH, dj))
                               else (FR_OK, dj))
                        in if res = FR_OK then dir_rewind E fs dj else (res, dj)
                      else (res, dj))
               in Some (if res = FR_NO_FILE then FR_NO_PATH else res, dj, s\<lparr>disk := d\<rparr>)))"

definition pf_readdir ::
    "'d pff_env \<Rightarrow> DIR \<Rightarrow> FILINFO option \<Rightarrow> 'd pff \<Rightarrow> FRESULT \<times> DIR \<times> FILINFO option \<times> 'd pff" where
  "pf_readdir E dj fno s =
     (case FatFs s of
        None \<Rightarrow> (FR_NOT_ENABLED, dj, fno, s)
      | Some fs \<Rightarrow>
          let dj = dj\<lparr>fn := replicate 12 0\<rparr> in
          (case fno of
             None \<Rightarrow> (case dir_rewind E fs dj of (res, dj) \<Rightarrow> (res, dj, None, s))
           | Some fi \<Rightarrow>
               (case dir_read E fs dj (replicate 32 0) (disk s) of (res, dj, dir, d) \<Rightarrow>
                  let (res, dj) = (if res = FR_NO_FILE then (FR_OK, dj\<lparr>sect := 0\<rparr>) else (res, dj)) in
                  if res \<noteq> FR_OK then (res, dj, Some fi, s\<lparr>disk := d\<rparr>)
                  else
                    let fi = get_fileinfo dj dir fi in
                    case dir_next E fs dj d of (res, dj, d) \<Rightarrow>
                      (if res = FR_NO_FILE then (FR_OK, dj\<lparr>sect := 0\<rparr>, Some fi, s\<lparr>disk := d\<rparr>)
                       else (res, dj, Some fi, s\<lparr>disk := d\<rparr>)))))"

end
