(* ===== verification/Pff_Fat.thy ===== *)
theory Pff_Fat
  imports Pff_Api
begin

text \<open>
  The FAT as an array: reference definitions of the entry of a cluster in a FAT12, FAT16 or FAT32
  table, the contract \<open>disk_reader\<close> of the disk functions that \<^verbatim>\<open>pff.c\<close> calls, and the proof that
  \<^verbatim>\<open>get_fat\<close> returns that entry on every disk that keeps the contract.
\<close>

section \<open>Little-endian loads\<close>


lemma bit_ucast_u8_ge: "bit (ucast (x :: u8) :: 'a::len word) n \<Longrightarrow> n < 8"
  using bit_imp_le_length [of x n] by (auto simp: bit_simps)

lemma unat_push_bit_small:
  "unat x * 2 ^ k < 2 ^ LENGTH('a) \<Longrightarrow> unat (push_bit k (x :: 'a::len word)) = unat x * 2 ^ k"
  by (simp only: unsigned_push_bit_eq) (simp add: push_bit_eq_mult take_bit_nat_eq_self)

lemma unat_LD_WORD: "unat (LD_WORD p k) = unat (p ! k) + 256 * unat (p ! (k + 1))"
proof -
  have "LD_WORD p k = push_bit 8 (ucast (p ! (k + 1))) + ucast (p ! k)"
    unfolding LD_WORD_def by (rule disjunctive_add [symmetric]) (auto simp: bit_push_bit_iff dest: bit_ucast_u8_ge)
  moreover have "unat (push_bit 8 (ucast (p ! (k + 1))) :: u16) = 256 * unat (p ! (k + 1))"
    using unat_less_u8 [of "p ! (k + 1)"] by (subst unat_push_bit_small) simp_all
  ultimately show ?thesis
    using unat_less_u8 [of "p ! (k + 1)"] unat_less_u8 [of "p ! k"] by (simp add: unat_plus_u16)
qed

lemma unat_LD_DWORD:
  "unat (LD_DWORD p k) = unat (p ! k) + 256 * unat (p ! (k + 1)) + 65536 * unat (p ! (k + 2))
     + 16777216 * unat (p ! (k + 3))"
proof -
  let ?b = "\<lambda>i. unat (p ! (k + i))"
  have b: "?b i < 256" for i by (rule unat_less_u8)
  have s1: "unat (push_bit 8 (ucast (p ! (k + 1))) :: u16) = 256 * ?b 1"
    using b [of 1] by (subst unat_push_bit_small) simp_all
  have s2: "unat (push_bit 16 (ucast (p ! (k + 2))) :: u32) = 65536 * ?b 2"
    using b [of 2] by (subst unat_push_bit_small) simp_all
  have s3: "unat (push_bit 24 (ucast (p ! (k + 3))) :: u32) = 16777216 * ?b 3"
    using b [of 3] by (subst unat_push_bit_small) simp_all
  define x3 x2 x1 x0 :: u32 where x: "x3 = push_bit 24 (ucast (p ! (k + 3)))"
    "x2 = push_bit 16 (ucast (p ! (k + 2)))"
    "x1 = ucast (push_bit 8 (ucast (p ! (k + 1))) :: u16)" "x0 = ucast (p ! k)"
  have r: "bit x3 n \<Longrightarrow> 24 \<le> n" "bit x2 n \<Longrightarrow> 16 \<le> n \<and> n < 24" "bit x1 n \<Longrightarrow> 8 \<le> n \<and> n < 16"
    "bit x0 n \<Longrightarrow> n < 8" for n
    unfolding x by (auto simp: bit_simps dest: bit_imp_le_length)
  have d: "x1 OR x0 = x1 + x0" "x2 OR (x1 + x0) = x2 + (x1 + x0)"
    "x3 OR (x2 + (x1 + x0)) = x3 + (x2 + (x1 + x0))"
    subgoal 1 by (rule disjunctive_add [symmetric]) (use r in fastforce)
    subgoal 2 unfolding 1 [symmetric]
      by (rule disjunctive_add [symmetric]) (use r in \<open>fastforce simp: bit_or_iff\<close>)
    unfolding 2 [symmetric] unfolding 1 [symmetric]
    by (rule disjunctive_add [symmetric]) (use r in \<open>fastforce simp: bit_or_iff\<close>)
  have "LD_DWORD p k = x3 + (x2 + (x1 + x0))"
    unfolding LD_DWORD_def x [symmetric] by (simp add: or.assoc d)
  moreover have "unat x0 = ?b 0" "unat x1 = 256 * ?b 1" "unat x2 = 65536 * ?b 2"
    "unat x3 = 16777216 * ?b 3"
    unfolding x using s1 s2 s3 by simp_all
  ultimately show ?thesis
    using b [of 0] b [of 1] b [of 2] b [of 3] by (simp add: unat_plus_u32)
qed
text \<open>
  The reference view of a FAT: the bytes of consecutive sectors as one array, and the entry of a
  cluster in it.
\<close>

definition flat_byte :: "(u32 \<Rightarrow> nat \<Rightarrow> u8) \<Rightarrow> u32 \<Rightarrow> nat \<Rightarrow> nat" where
  "flat_byte img base k = unat (img (base + of_nat (k div 512)) (k mod 512))"

definition fat_entry :: "(u32 \<Rightarrow> nat \<Rightarrow> u8) \<Rightarrow> FATFS \<Rightarrow> nat \<Rightarrow> nat" where
  "fat_entry img fs c =
     (let b = flat_byte img (fatbase fs) in
      if fs_type fs = FS_FAT12 then
        (let k = 3 * c div 2 in
         if odd c then b k div 16 + 16 * b (k + 1) else b k + 256 * (b (k + 1) mod 16))
      else if fs_type fs = FS_FAT16 then b (2 * c) + 256 * b (2 * c + 1)
      else (b (4 * c) + 256 * b (4 * c + 1) + 65536 * b (4 * c + 2) + 16777216 * b (4 * c + 3))
             mod 268435456)"

text \<open>The sectors that hold the entry of a cluster.\<close>

definition entry_sectors :: "FATFS \<Rightarrow> nat \<Rightarrow> u32 list" where
  "entry_sectors fs c =
     map (\<lambda>k. fatbase fs + of_nat (k div 512))
       (if fs_type fs = FS_FAT12 then [3 * c div 2, 3 * c div 2 + 1]
        else if fs_type fs = FS_FAT16 then [2 * c] else [4 * c])"

text \<open>A sector is reliable when no read of it fails.\<close>

definition reliable :: "'d pff_env \<Rightarrow> ('d \<Rightarrow> bool) \<Rightarrow> u32 \<Rightarrow> bool" where
  "reliable E ok s \<longleftrightarrow>
     (\<forall>d ofs cnt. ok d \<and> 0 < unat cnt \<and> unat ofs + unat cnt \<le> 512 \<longrightarrow>
        fst (disk_readp E True s ofs cnt d) = RES_OK)"

lemma reliableD:
  "\<lbrakk>reliable E ok s; disk_readp E True s ofs cnt d = (dr, bs, d'); ok d; 0 < unat cnt;
    unat ofs + unat cnt \<le> 512\<rbrakk> \<Longrightarrow> dr = RES_OK"
  unfolding reliable_def by (metis fst_conv)

definition fat_ok :: "'d pff_env \<Rightarrow> FATFS \<Rightarrow> bool" where
  "fat_ok E fs \<longleftrightarrow>
     (fs_type fs = FS_FAT12 \<and> FS_FAT12_cfg E \<and> n_fatent fs \<le> 0xFF7) \<or>
     (fs_type fs = FS_FAT16 \<and> n_fatent fs \<le> 0xFFF7) \<or>
     (fs_type fs = FS_FAT32 \<and> FS_FAT32_cfg E \<and> n_fatent fs \<le> 0x0FFFFFF7)"

lemma fat12_link:
  fixes clst :: u32 and wc :: u16
  assumes "unat wc = lo + 256 * hi" "lo < 256"
  shows "unat (ucast (if clst AND 1 \<noteq> 0 then drop_bit 4 wc else wc AND 0xFFF) :: u32) =
     (if odd (unat clst) then lo div 16 + 16 * hi else lo + 256 * (hi mod 16))"
proof -
  have "(clst AND 1 \<noteq> 0) = odd (unat clst)"
    by (simp add: and_one_eq odd_iff_mod_2_eq_one word_unat_eq_iff unat_mod_distrib)
  moreover have "unat (drop_bit 4 wc) = lo div 16 + 16 * hi"
    using assms by (simp add: drop_bit_eq_div unat_div_distrib)
  moreover have "wc AND 0xFFF = wc AND mask 12" by (simp add: mask_eq_exp_minus_1)
  then have "unat (wc AND 0xFFF) = lo + 256 * (hi mod 16)"
    using assms mod_mult2_eq [of "lo + 256 * hi" 256 16]
    by (simp add: unat_and_mask)
  ultimately show ?thesis by simp
qed

locale disk_reader =
  fixes E :: "'d pff_env" and ok :: "'d \<Rightarrow> bool" and image :: "'d \<Rightarrow> u32 \<Rightarrow> nat \<Rightarrow> u8"
  assumes readp: "\<lbrakk>ok d; 0 < unat cnt; unat ofs + unat cnt \<le> 512;
      disk_readp E True s ofs cnt d = (dr, bs, d')\<rbrakk> \<Longrightarrow>
    ok d' \<and> image d' = image d \<and>
    (dr = RES_OK \<longrightarrow> bs = map (image d s) [unat ofs ..< unat ofs + unat cnt])"
begin

lemma readp_1:
  assumes "ok d" "unat ofs + 1 \<le> 512" "disk_readp E True s ofs 1 d = (RES_OK, bs, d')"
  shows "bs = [image d s (unat ofs)]"
  using readp [of d 1 ofs s RES_OK bs d'] assms by simp

lemma readp_2:
  assumes "ok d" "unat ofs + 2 \<le> 512" "disk_readp E True s ofs 2 d = (RES_OK, bs, d')"
  shows "bs = [image d s (unat ofs), image d s (unat ofs + 1)]"
  using readp [of d 2 ofs s RES_OK bs d'] assms by (simp add: upt_rec)

lemma readp_4:
  assumes "ok d" "unat ofs + 4 \<le> 512" "disk_readp E True s ofs 4 d = (RES_OK, bs, d')"
  shows "bs = map (\<lambda>i. image d s (unat ofs + i)) [0, 1, 2, 3]"
  using readp [of d 4 ofs s RES_OK bs d'] assms by (simp add: upt_rec numeral_3_eq_3)

lemma readp_keeps:
  assumes "ok d" "0 < unat cnt" "unat ofs + unat cnt \<le> 512"
    "disk_readp E True s ofs cnt d = (dr, bs, d')"
  shows "ok d'" "image d' = image d"
  using readp [OF assms] by auto

lemma get_fat12:
  assumes d: "ok d" and c: "2 \<le> clst" "clst < n_fatent fs" "n_fatent fs \<le> 0xFF7"
    and ty: "fs_type fs = FS_FAT12" "FS_FAT12_cfg E"
    and g: "get_fat E fs clst d = (r, d')"
  shows "ok d' \<and> image d' = image d \<and> 
    (r \<noteq> 1 \<or> list_all (reliable E ok) (entry_sectors fs (unat clst)) \<longrightarrow>
       unat r = fat_entry (image d) fs (unat clst))"
proof -
  define k where "k = 3 * unat clst div 2"
  have cl: "unat clst < 4087" using c by (simp add: word_less_nat_alt word_le_nat_alt)
  define bc :: u16 where "bc = ucast clst + ucast clst div 2"
  have bc: "unat bc = k"
    using cl by (simp add: bc_def k_def unat_plus_u16 unat_div_distrib unat_ucast_32_16)
  have ofs: "unat (bc mod 512) = k mod 512" and sec: "unat (bc div 512) = k div 512"
    by (simp_all add: bc unat_mod_distrib unat_div_distrib)
  have base: "fatbase fs + ucast (bc div 512) = fatbase fs + of_nat (k div 512)"
    by (simp flip: sec)
  define link :: "u16 \<Rightarrow> u32" where
    "link wc = ucast (if clst AND 1 \<noteq> 0 then drop_bit 4 wc else wc AND 0xFFF)" for wc
  have nc: "\<not> clst < 2" "\<not> n_fatent fs \<le> clst" using c by auto
  have g': "(r, d') =
      (if bc mod 512 \<noteq> 511 then
         (case disk_readp E True (fatbase fs + ucast (bc div 512)) (bc mod 512) 2 d of
            (dr, buf, d1) \<Rightarrow> if dr \<noteq> RES_OK then (1, d1) else (link (LD_WORD buf 0), d1))
       else
         (case disk_readp E True (fatbase fs + ucast (bc div 512)) 511 1 d of
            (dr, buf, d1) \<Rightarrow>
              if dr \<noteq> RES_OK then (1, d1)
              else (case disk_readp E True (fatbase fs + ucast (bc div 512) + 1) 0 1 d1 of
                      (dr, buf1, d2) \<Rightarrow>
                        if dr \<noteq> RES_OK then (1, d2) else (link (LD_WORD (buf @ buf1) 0), d2))))"
    unfolding g [symmetric] get_fat_def Let_def bc_def link_def using nc ty by simp
  have es: "entry_sectors fs (unat clst) =
      [fatbase fs + of_nat (k div 512), fatbase fs + of_nat ((k + 1) div 512)]"
    by (simp add: entry_sectors_def ty k_def)
  have fe: "fat_entry (image d) fs (unat clst) =
      (let lo = unat (image d (fatbase fs + of_nat (k div 512)) (k mod 512));
           hi = unat (image d (fatbase fs + of_nat ((k + 1) div 512)) ((k + 1) mod 512))
       in if odd (unat clst) then lo div 16 + 16 * hi else lo + 256 * (hi mod 16))"
    by (simp add: fat_entry_def flat_byte_def ty Let_def k_def)
  show ?thesis
  proof (cases "bc mod 512 = 511")
      case False
    then have k1: "(k + 1) mod 512 = k mod 512 + 1" "(k + 1) div 512 = k div 512" "k mod 512 + 2 \<le> 512"
      using ofs by (auto simp: word_unat_eq_iff mod_Suc div_Suc)
    obtain dr buf d1 where rd: "disk_readp E True (fatbase fs + ucast (bc div 512)) (bc mod 512) 2 d = (dr, buf, d1)"
      by (metis prod_cases3)
    have keep: "ok d1" "image d1 = image d" using readp_keeps [OF d _ _ rd] ofs k1(3) by simp_all
    show ?thesis
    proof (cases "dr = RES_OK")
      case True
      have buf: "buf = [image d (fatbase fs + of_nat (k div 512)) (k mod 512),
          image d (fatbase fs + of_nat (k div 512)) (k mod 512 + 1)]"
        using readp_2 [OF d _ rd [unfolded True]] ofs k1(3) base by simp
      have "unat (link (LD_WORD buf 0)) = fat_entry (image d) fs (unat clst)"
        unfolding fe link_def fat12_link [OF unat_LD_WORD unat_less_u8] by (simp add: buf k1 [simplified])
      then show ?thesis using g' False True rd keep by simp
    next
      case False
      then have "\<not> reliable E ok (fatbase fs + of_nat (k div 512))"
        using reliableD [of E ok, OF _ rd d] ofs k1(3) base by auto
      then show ?thesis using g' False \<open>bc mod 512 \<noteq> 511\<close> rd keep es by simp
    qed
  next
    case True
    then have k1: "k mod 512 = 511" "(k + 1) mod 512 = 0" "(k + 1) div 512 = k div 512 + 1"
      using ofs by (auto simp: mod_Suc div_Suc)
    let ?s = "fatbase fs + ucast (bc div 512)"
    obtain dr buf d1 where rd: "disk_readp E True ?s 511 1 d = (dr, buf, d1)"
      by (metis prod_cases3)
    have keep: "ok d1" "image d1 = image d" using readp_keeps [OF d _ _ rd] by simp_all
    show ?thesis
    proof (cases "dr = RES_OK")
      case False
      then have "\<not> reliable E ok (fatbase fs + of_nat (k div 512))"
        using reliableD [of E ok, OF _ rd d] base by auto
      then show ?thesis using g' False True rd keep es by simp
    next
      case dr: True
      obtain dr2 buf2 d2 where rd2: "disk_readp E True (?s + 1) 0 1 d1 = (dr2, buf2, d2)"
        by (metis prod_cases3)
      have keep2: "ok d2" "image d2 = image d" using readp_keeps [OF keep(1) _ _ rd2] keep by simp_all
      have "unat (link (LD_WORD (buf @ buf2) 0)) = fat_entry (image d) fs (unat clst)" if "dr2 = RES_OK"
      proof -
        have "buf = [image d (fatbase fs + of_nat (k div 512)) 511]"
          using readp_1 [OF d _ rd [unfolded dr]] base by simp
        moreover have "buf2 = [image d (fatbase fs + of_nat (k div 512) + 1) 0]"
          using readp_1 [OF keep(1) _ rd2 [unfolded that]] base keep by simp
        ultimately show ?thesis
          unfolding fe link_def fat12_link [OF unat_LD_WORD unat_less_u8]
          by (simp add: k1 [simplified] ac_simps)
      qed
      moreover have "\<not> reliable E ok (fatbase fs + of_nat ((k + 1) div 512))" if "dr2 \<noteq> RES_OK"
        using reliableD [of E ok, OF _ rd2 keep(1)] base that by (auto simp: k1(3) [simplified] ac_simps)
      ultimately show ?thesis using g' True rd rd2 dr keep2 es by (cases "dr2 = RES_OK") simp_all
    qed
  qed
qed

lemma get_fat16:
  assumes d: "ok d" and c: "2 \<le> clst" "clst < n_fatent fs" "n_fatent fs \<le> 0xFFF7"
    and ty: "fs_type fs = FS_FAT16"
    and g: "get_fat E fs clst d = (r, d')"
  shows "ok d' \<and> image d' = image d \<and> 
    (r \<noteq> 1 \<or> list_all (reliable E ok) (entry_sectors fs (unat clst)) \<longrightarrow>
       unat r = fat_entry (image d) fs (unat clst))"
proof -
  define ofs :: u16 where "ofs = (ucast clst) mod 256 * 2"
  have cl: "unat clst < 65536" using c by (simp add: word_less_nat_alt word_le_nat_alt)
  have m: "unat clst mod 256 < 256" by simp
  have ofs: "unat ofs = 2 * unat clst mod 512"
    using cl m mult_mod_right [of 2 "unat clst" 256] unfolding ofs_def
    by (simp add: unat_times_u16 unat_mod_distrib unat_ucast_32_16)
  have lt: "unat ofs + 2 \<le> 512" using m mult_mod_right [of 2 "unat clst" 256] unfolding ofs by simp
  have sec: "clst div 256 = of_nat (2 * unat clst div 512)"
    using div_mult_mult1 [of 2 "unat clst" 256] unat_less_u32 [of clst]
    by (simp add: word_unat_eq_iff unat_div_distrib unat_of_nat)
  have k1: "(2 * unat clst + 1) mod 512 = 2 * unat clst mod 512 + 1"
    "(2 * unat clst + 1) div 512 = 2 * unat clst div 512"
    using lt unfolding ofs by (auto simp: mod_Suc div_Suc)
  obtain dr buf d1 where rd: "disk_readp E True (fatbase fs + clst div 256) ofs 2 d = (dr, buf, d1)"
    by (metis prod_cases3)
  have keep: "ok d1" "image d1 = image d" using readp_keeps [OF d _ _ rd] lt by simp_all
  have nc: "\<not> clst < 2" "\<not> n_fatent fs \<le> clst" using c by auto
  have g': "(r, d') = (if dr \<noteq> RES_OK then (1, d1) else (ucast (LD_WORD buf 0), d1))"
    using rd unfolding g [symmetric] get_fat_def ofs_def by (simp add: nc ty)
  have "unat (ucast (LD_WORD buf 0) :: u32) = fat_entry (image d) fs (unat clst)" if "dr = RES_OK"
    using readp_2 [OF d lt rd [unfolded that]]
    by (simp add: unat_LD_WORD fat_entry_def flat_byte_def ty sec ofs k1 [simplified])
  moreover have "\<not> list_all (reliable E ok) (entry_sectors fs (unat clst))" if "dr \<noteq> RES_OK"
    using reliableD [of E ok, OF _ rd d] lt that by (auto simp: entry_sectors_def ty sec)
  ultimately show ?thesis using g' keep by (cases "dr = RES_OK") simp_all
qed

lemma get_fat32:
  assumes d: "ok d" and c: "2 \<le> clst" "clst < n_fatent fs" "n_fatent fs \<le> 0x0FFFFFF7"
    and ty: "fs_type fs = FS_FAT32" "FS_FAT32_cfg E"
    and g: "get_fat E fs clst d = (r, d')"
  shows "ok d' \<and> image d' = image d \<and> 
    (r \<noteq> 1 \<or> list_all (reliable E ok) (entry_sectors fs (unat clst)) \<longrightarrow>
       unat r = fat_entry (image d) fs (unat clst))"
proof -
  define ofs :: u16 where "ofs = (ucast clst) mod 128 * 4"
  let ?k = "4 * unat clst"
  have m: "unat clst mod 128 < 128" by simp
  have ofs: "unat ofs = ?k mod 512"
    using m mult_mod_right [of 4 "unat clst" 128] unfolding ofs_def
    by (simp add: unat_times_u16 unat_mod_distrib unat_ucast_32_16 mod_mod_cancel)
  have lt: "unat ofs + 4 \<le> 512" using m mult_mod_right [of 4 "unat clst" 128] unfolding ofs by simp
  have sec: "clst div 128 = of_nat (?k div 512)"
    using div_mult_mult1 [of 4 "unat clst" 128] unat_less_u32 [of clst]
    by (simp add: word_unat_eq_iff unat_div_distrib unat_of_nat)
  have k1: "(?k + i) mod 512 = ?k mod 512 + i" "(?k + i) div 512 = ?k div 512" if "i < 4" for i
    using lt that mod_add_eq [of ?k 512 i] div_add1_eq [of ?k i 512] unfolding ofs by simp_all
  obtain dr buf d1 where rd: "disk_readp E True (fatbase fs + clst div 128) ofs 4 d = (dr, buf, d1)"
    by (metis prod_cases3)
  have keep: "ok d1" "image d1 = image d" using readp_keeps [OF d _ _ rd] lt by simp_all
  have nc: "\<not> clst < 2" "\<not> n_fatent fs \<le> clst" using c by auto
  have g': "(r, d') = (if dr \<noteq> RES_OK then (1, d1) else (LD_DWORD buf 0 AND 0x0FFFFFFF, d1))"
    using rd unfolding g [symmetric] get_fat_def ofs_def by (simp add: nc ty)
  have mask: "(0x0FFFFFFF :: u32) = mask 28" by (simp add: mask_eq_exp_minus_1)
  have "unat (LD_DWORD buf 0 AND 0x0FFFFFFF) = fat_entry (image d) fs (unat clst)" if "dr = RES_OK"
    using readp_4 [OF d lt rd [unfolded that]]
    by (simp add: mask unat_and_mask unat_LD_DWORD fat_entry_def flat_byte_def ty sec ofs
        k1 [of 1, simplified] k1 [of 2, simplified] k1 [of 3, simplified])
  moreover have "\<not> list_all (reliable E ok) (entry_sectors fs (unat clst))" if "dr \<noteq> RES_OK"
    using reliableD [of E ok, OF _ rd d] lt that by (auto simp: entry_sectors_def ty sec)
  ultimately show ?thesis using g' keep by (cases "dr = RES_OK") simp_all
qed

lemma get_fat_entry:
  assumes d: "ok d" and fs: "fat_ok E fs" and g: "get_fat E fs clst d = (r, d')"
  shows "ok d'" "image d' = image d"
    "r \<noteq> 1 \<Longrightarrow> 2 \<le> clst \<and> clst < n_fatent fs \<and> unat r = fat_entry (image d) fs (unat clst)"
    "\<lbrakk>2 \<le> clst; clst < n_fatent fs; list_all (reliable E ok) (entry_sectors fs (unat clst))\<rbrakk> \<Longrightarrow>
     unat r = fat_entry (image d) fs (unat clst)"
proof -
  have in_range: "ok d' \<and> image d' = image d \<and>
    (r \<noteq> 1 \<or> list_all (reliable E ok) (entry_sectors fs (unat clst)) \<longrightarrow>
       unat r = fat_entry (image d) fs (unat clst))" if "2 \<le> clst" "clst < n_fatent fs"
    using that fs get_fat12 [OF d] get_fat16 [OF d] get_fat32 [OF d] g unfolding fat_ok_def by metis
  have out: "r = 1 \<and> d' = d" if "\<not> (2 \<le> clst \<and> clst < n_fatent fs)"
    using that g by (auto simp: get_fat_def not_le not_less split: if_splits)
  show "ok d'" "image d' = image d"
    "r \<noteq> 1 \<Longrightarrow> 2 \<le> clst \<and> clst < n_fatent fs \<and> unat r = fat_entry (image d) fs (unat clst)"
    "\<lbrakk>2 \<le> clst; clst < n_fatent fs; list_all (reliable E ok) (entry_sectors fs (unat clst))\<rbrakk> \<Longrightarrow>
     unat r = fat_entry (image d) fs (unat clst)"
    using in_range out d by blast+
qed
end
end
