(* ===== verification/Pff_File.thy ===== *)
theory Pff_File
  imports Pff_Fat
begin

text \<open>
  Files of a FAT volume as byte lists. A file is given by the list of its clusters, each the FAT
  entry of the one before; \<open>file_inv\<close> ties the position fields of the file system object to
  that list. On every disk that keeps the contract \<open>disk_reader\<close>, \<^verbatim>\<open>pf_read\<close> delivers the bytes of
  the file at the file pointer and \<^verbatim>\<open>pf_lseek\<close> moves the pointer.
\<close>

section \<open>Files as byte lists\<close>

definition cluster_bytes :: "FATFS \<Rightarrow> nat" where
  "cluster_bytes fs = 512 * unat (csize fs)"

definition cluster_sector :: "FATFS \<Rightarrow> nat \<Rightarrow> nat \<Rightarrow> u32" where
  "cluster_sector fs c j = of_nat (unat (database fs) + (c - 2) * unat (csize fs) + j)"

definition file_byte :: "(u32 \<Rightarrow> nat \<Rightarrow> u8) \<Rightarrow> FATFS \<Rightarrow> nat list \<Rightarrow> nat \<Rightarrow> u8" where
  "file_byte img fs cs k =
     img (cluster_sector fs (cs ! (k div cluster_bytes fs)) (k mod cluster_bytes fs div 512)) (k mod 512)"

definition volume_ok :: "'d pff_env \<Rightarrow> FATFS \<Rightarrow> bool" where
  "volume_ok E fs \<longleftrightarrow>
     fat_ok E fs \<and> 2 \<le> n_fatent fs \<and> csize fs \<in> {1, 2, 4, 8, 16, 32, 64, 128} \<and> 0 < database fs \<and>
     unat (database fs) + (unat (n_fatent fs) - 2) * unat (csize fs) < 4294967296"

definition file_chain :: "(u32 \<Rightarrow> nat \<Rightarrow> u8) \<Rightarrow> FATFS \<Rightarrow> nat list \<Rightarrow> bool" where
  "file_chain img fs cs \<longleftrightarrow>
     unat (fsize fs) \<le> length cs * cluster_bytes fs \<and>
     (\<forall>i < length cs. 2 \<le> cs ! i \<and> cs ! i < unat (n_fatent fs) \<and>
        cs ! i = (if i = 0 then unat (org_clust fs) else fat_entry img fs (cs ! (i - 1))))"

definition file_pos :: "FATFS \<Rightarrow> nat list \<Rightarrow> bool" where
  "file_pos fs cs \<longleftrightarrow>
     fptr fs \<le> fsize fs \<and>
     (0 < fptr fs \<longrightarrow> unat (curr_clust fs) = cs ! ((unat (fptr fs) - 1) div cluster_bytes fs)) \<and>
     (fptr fs mod 512 \<noteq> 0 \<longrightarrow>
        dsect fs = cluster_sector fs (cs ! (unat (fptr fs) div cluster_bytes fs))
                     (unat (fptr fs) mod cluster_bytes fs div 512))"

definition file_inv :: "'d pff_env \<Rightarrow> (u32 \<Rightarrow> nat \<Rightarrow> u8) \<Rightarrow> FATFS \<Rightarrow> nat list \<Rightarrow> bool" where
  "file_inv E img fs cs \<longleftrightarrow> volume_ok E fs \<and> file_chain img fs cs \<and> file_pos fs cs"

definition volume_reliable :: "'d pff_env \<Rightarrow> ('d \<Rightarrow> bool) \<Rightarrow> FATFS \<Rightarrow> bool" where
  "volume_reliable E ok fs \<longleftrightarrow>
     (\<forall>c. 2 \<le> c \<and> c < unat (n_fatent fs) \<longrightarrow>
        list_all (reliable E ok) (entry_sectors fs c) \<and>
        (\<forall>j < unat (csize fs). reliable E ok (cluster_sector fs c j)))"

text \<open>The volume and the chain of a file do not depend on the file position.\<close>

lemma position_frame [simp]:
  "cluster_bytes (fs\<lparr>fptr := p\<rparr>) = cluster_bytes fs" "cluster_sector (fs\<lparr>fptr := p\<rparr>) = cluster_sector fs"
  "cluster_bytes (fs\<lparr>curr_clust := c\<rparr>) = cluster_bytes fs"
  "cluster_sector (fs\<lparr>curr_clust := c\<rparr>) = cluster_sector fs"
  "cluster_bytes (fs\<lparr>dsect := ds\<rparr>) = cluster_bytes fs" "cluster_sector (fs\<lparr>dsect := ds\<rparr>) = cluster_sector fs"
  "volume_ok E (fs\<lparr>fptr := p\<rparr>) = volume_ok E fs" "volume_ok E (fs\<lparr>curr_clust := c\<rparr>) = volume_ok E fs"
  "volume_ok E (fs\<lparr>dsect := ds\<rparr>) = volume_ok E fs" "volume_ok E (fs\<lparr>flag := x\<rparr>) = volume_ok E fs"
  "fat_entry img (fs\<lparr>fptr := p\<rparr>) = fat_entry img fs" "fat_entry img (fs\<lparr>curr_clust := c\<rparr>) = fat_entry img fs"
  "fat_entry img (fs\<lparr>dsect := ds\<rparr>) = fat_entry img fs"
  "file_byte img (fs\<lparr>fptr := p\<rparr>) = file_byte img fs" "file_byte img (fs\<lparr>curr_clust := c\<rparr>) = file_byte img fs"
  "file_byte img (fs\<lparr>dsect := ds\<rparr>) = file_byte img fs"
  by (simp_all add: fun_eq_iff cluster_bytes_def cluster_sector_def volume_ok_def fat_ok_def fat_entry_def Let_def
      file_byte_def)

lemma clust2sect_frame [simp]:
  "clust2sect E (fs\<lparr>fptr := p\<rparr>) = clust2sect E fs" "clust2sect E (fs\<lparr>curr_clust := c\<rparr>) = clust2sect E fs"
  by (simp_all add: fun_eq_iff clust2sect_def Let_def)

lemma volume_reliable_frame [simp]:
  "volume_reliable E ok (fs\<lparr>fptr := p\<rparr>) = volume_reliable E ok fs"
  "volume_reliable E ok (fs\<lparr>curr_clust := c\<rparr>) = volume_reliable E ok fs"
  "volume_reliable E ok (fs\<lparr>dsect := ds\<rparr>) = volume_reliable E ok fs"
  by (simp_all add: volume_reliable_def entry_sectors_def)

lemma file_chain_frame [simp]:
  "file_chain img (fs\<lparr>fptr := p\<rparr>) cs = file_chain img fs cs"
  "file_chain img (fs\<lparr>curr_clust := c\<rparr>) cs = file_chain img fs cs"
  "file_chain img (fs\<lparr>dsect := ds\<rparr>) cs = file_chain img fs cs"
  by (simp_all add: file_chain_def)

lemma position_self:
  "\<exists>c ds. fs = fs\<lparr>curr_clust := c, dsect := ds\<rparr>" "\<exists>p c ds. fs = fs\<lparr>fptr := p, curr_clust := c, dsect := ds\<rparr>"
proof -
  have "fs = fs\<lparr>curr_clust := curr_clust fs, dsect := dsect fs\<rparr>"
    "fs = fs\<lparr>fptr := fptr fs, curr_clust := curr_clust fs, dsect := dsect fs\<rparr>" by simp_all
  then show "\<exists>c ds. fs = fs\<lparr>curr_clust := c, dsect := ds\<rparr>"
    "\<exists>p c ds. fs = fs\<lparr>fptr := p, curr_clust := c, dsect := ds\<rparr>" by blast+
qed

lemma file_chain_range:
  assumes "file_chain img fs cs" "i < length cs"
  shows "2 \<le> cs ! i" "cs ! i < unat (n_fatent fs)"
  using assms unfolding file_chain_def by blast+

lemma csize_pow2:
  assumes "volume_ok E fs" obtains e where "e < 8" "unat (csize fs) = 2 ^ e"
proof -
  have "\<exists>e<8. unat (csize fs) = 2 ^ e"
    using assms by (auto simp: volume_ok_def intro: exI [of _ 0] exI [of _ 1] exI [of _ 2]
        exI [of _ 3] exI [of _ 4] exI [of _ 5] exI [of _ 6] exI [of _ 7])
  then show ?thesis using that by blast
qed

lemma clust2sect_sector:
  assumes v: "volume_ok E fs" and c: "2 \<le> unat c" "unat c < unat (n_fatent fs)"
  shows "clust2sect E fs c = cluster_sector fs (unat c) 0" "clust2sect E fs c \<noteq> 0"
    "j < unat (csize fs) \<Longrightarrow> clust2sect E fs c + of_nat j = cluster_sector fs (unat c) j"
proof -
  have cl: "CLUST E x = x" if "unat x < unat (n_fatent fs)" for x
    using v that by (auto simp: volume_ok_def fat_ok_def CLUST_def word_unat_eq_iff unat_ucast_32_16 word_le_nat_alt)
  have s: "unat (c - 2) = unat c - 2" "unat (n_fatent fs - 2) = unat (n_fatent fs) - 2"
    using c by (simp_all add: unat_minus_le word_le_nat_alt)
  have "\<not> unat (n_fatent fs) - 2 \<le> unat c - 2" using c by linarith
  then have "clust2sect E fs c = (c - 2) * ucast (csize fs) + database fs"
    using c s by (simp add: clust2sect_def Let_def cl word_le_nat_alt)
  also have "\<dots> = cluster_sector fs (unat c) 0"
    using s by (simp add: cluster_sector_def ac_simps flip: s(1))
  finally show *: "clust2sect E fs c = cluster_sector fs (unat c) 0" .
  have "(unat c - 2) * unat (csize fs) \<le> (unat (n_fatent fs) - 2) * unat (csize fs)"
    using c by (intro mult_right_mono) auto
  moreover have "unat (database fs) + (unat (n_fatent fs) - 2) * unat (csize fs) < 4294967296"
    using v by (simp add: volume_ok_def)
  ultimately have "unat (database fs) + (unat c - 2) * unat (csize fs) < 4294967296" by linarith
  then have "unat (cluster_sector fs (unat c) 0) = unat (database fs) + (unat c - 2) * unat (csize fs)"
    unfolding cluster_sector_def unat_of_nat by simp
  moreover have "0 < unat (database fs)" using v by (simp add: volume_ok_def word_less_nat_alt)
  ultimately show "clust2sect E fs c \<noteq> 0" unfolding * by (auto simp only: unsigned_0)
  show "clust2sect E fs c + of_nat j = cluster_sector fs (unat c) j"
    unfolding * by (simp add: cluster_sector_def)
qed

lemma sector_in_cluster:
  assumes v: "volume_ok E fs"
  shows "unat (ucast (fptr fs div 512 AND (ucast (csize fs) - 1)) :: u8) =
     unat (fptr fs) mod cluster_bytes fs div 512"
    and "unat (fptr fs) mod cluster_bytes fs div 512 < unat (csize fs)"
proof -
  obtain e where e: "e < 8" "unat (csize fs) = 2 ^ e" using csize_pow2 [OF v] by blast
  have "(ucast (csize fs) :: u32) = of_nat (unat (csize fs))" by simp
  also have "\<dots> = 2 ^ e" unfolding e by simp
  finally have "(ucast (csize fs) :: u32) = 2 ^ e" .
  then have m: "ucast (csize fs) - 1 = (mask e :: u32)" by (simp add: mask_eq_exp_minus_1)
  have eq: "unat (fptr fs) mod cluster_bytes fs div 512 = unat (fptr fs) div 512 mod 2 ^ e"
    using mod_mult2_eq [of "unat (fptr fs)" 512 "2 ^ e"] by (simp add: cluster_bytes_def e)
  have "(2 :: nat) ^ e \<le> 128" using power_increasing [of e 7 "2 :: nat"] e by simp
  moreover have "unat (fptr fs) div 512 mod 2 ^ e < 2 ^ e" by simp
  ultimately have lt: "unat (fptr fs) div 512 mod 2 ^ e < 256" by linarith
  show "unat (ucast (fptr fs div 512 AND (ucast (csize fs) - 1)) :: u8) =
     unat (fptr fs) mod cluster_bytes fs div 512"
    using lt e unfolding m eq by (simp add: unat_ucast_32_8 unat_and_mask unat_div_distrib)
  show "unat (fptr fs) mod cluster_bytes fs div 512 < unat (csize fs)"
    unfolding eq e by simp
qed

lemma prev_index:
  fixes p b :: nat assumes "0 < p" "0 < b"
  shows "(p - 1) div b = (if p mod b = 0 then p div b - 1 else p div b)"
    and "p mod b = 0 \<Longrightarrow> 0 < p div b"
proof -
  show "(p - 1) div b = (if p mod b = 0 then p div b - 1 else p div b)"
    using assms div_Suc [of "p - 1" b] by auto
  show "p mod b = 0 \<Longrightarrow> 0 < p div b" using assms by (auto simp: div_greater_zero_iff mod_eq_0_iff_dvd dvd_imp_le)
qed

lemma file_index:
  assumes inv: "file_inv E img fs cs" and lt: "fptr fs < fsize fs"
  shows "unat (fptr fs) div cluster_bytes fs < length cs" "0 < cluster_bytes fs"
proof -
  show bcs: "0 < cluster_bytes fs" using inv by (auto simp: file_inv_def volume_ok_def cluster_bytes_def)
  have "unat (fptr fs) < length cs * cluster_bytes fs"
    using lt inv by (auto simp: file_inv_def file_chain_def word_less_nat_alt)
  then show "unat (fptr fs) div cluster_bytes fs < length cs" using bcs by (simp add: less_mult_imp_div_less)
qed

lemma same_sector:
  fixes p i :: nat assumes "p mod 512 + i < 512"
  shows "(p + i) mod 512 = p mod 512 + i" "(p + i) div 512 = p div 512"
    "(p + i) div (512 * c) = p div (512 * c)" "(p + i) mod (512 * c) div 512 = p mod (512 * c) div 512"
proof -
  show m: "(p + i) mod 512 = p mod 512 + i" using assms mod_add_eq [of p 512 i] by simp
  show d: "(p + i) div 512 = p div 512" using assms div_add1_eq [of p i 512] by simp
  show "(p + i) div (512 * c) = p div (512 * c)" by (simp add: div_mult2_eq d)
  show "(p + i) mod (512 * c) div 512 = p mod (512 * c) div 512"
    using assms by (cases "c = 0") (simp_all add: mod_mult2_eq m d)
qed

definition positioned :: "FATFS \<Rightarrow> nat list \<Rightarrow> bool" where
  "positioned fs cs \<longleftrightarrow>
     (let p = unat (fptr fs); c = cs ! (p div cluster_bytes fs) in
      unat (curr_clust fs) = c \<and> dsect fs = cluster_sector fs c (p mod cluster_bytes fs div 512))"

lemma file_slice:
  assumes "positioned fs cs" "unat (fptr fs) mod 512 + n \<le> 512"
  shows "map (img (dsect fs)) [unat (fptr fs) mod 512 ..< unat (fptr fs) mod 512 + n] =
         map (file_byte img fs cs) [unat (fptr fs) ..< unat (fptr fs) + n]"
  using assms
  by (intro nth_equalityI)
    (auto simp: positioned_def file_byte_def Let_def cluster_bytes_def same_sector)

lemma file_pos_advance:
  assumes p: "positioned fs cs" and n: "0 < unat n" "unat (fptr fs) mod 512 + unat n \<le> 512"
    "unat (fptr fs) + unat n \<le> unat (fsize fs)"
  shows "unat (fptr fs + ucast (n :: u16)) = unat (fptr fs) + unat n"
    "file_pos (fs\<lparr>fptr := fptr fs + ucast n\<rparr>) cs"
proof -
  let ?p = "unat (fptr fs)"
  show u: "unat (fptr fs + ucast n) = ?p + unat n"
    using n(3) unat_less_u32 [of "fsize fs"] by (simp add: unat_plus_u32)
  have last: "(?p + unat n - 1) div cluster_bytes fs = ?p div cluster_bytes fs"
    using same_sector(3) [of ?p "unat n - 1"] n by (simp add: cluster_bytes_def)
  have rest: "?p mod 512 + unat n < 512" if "(fptr fs + ucast n) mod 512 \<noteq> 0"
  proof (rule ccontr)
    assume "\<not> ?p mod 512 + unat n < 512"
    then have "(?p + unat n) mod 512 = 0" using n(2) by (simp add: mod_add_left_eq [symmetric])
    then show False using that by (simp add: word_unat_eq_iff unat_mod_distrib u)
  qed
  show "file_pos (fs\<lparr>fptr := fptr fs + ucast n\<rparr>) cs"
    using p n u last same_sector [of ?p "unat n"] rest
    by (auto simp: file_pos_def positioned_def Let_def word_le_nat_alt cluster_bytes_def)
qed

lemma positioned_inside:
  assumes "file_inv E img fs cs" "fptr fs mod 512 \<noteq> 0" shows "positioned fs cs"
proof -
  have bcs: "0 < cluster_bytes fs" using assms by (auto simp: file_inv_def volume_ok_def cluster_bytes_def)
  have m: "unat (fptr fs) mod 512 \<noteq> 0" using assms(2) by (simp add: word_unat_eq_iff unat_mod_distrib)
  then have p: "0 < unat (fptr fs)" by (cases "unat (fptr fs) = 0") auto
  have "unat (fptr fs) mod cluster_bytes fs mod 512 = unat (fptr fs) mod 512"
    by (simp add: cluster_bytes_def mod_mod_cancel)
  then have "unat (fptr fs) mod cluster_bytes fs \<noteq> 0" using m by auto
  then show ?thesis using assms p prev_index(1) [OF p bcs]
    by (auto simp: file_inv_def file_pos_def positioned_def Let_def word_less_nat_alt)
qed

context disk_reader
begin

lemma next_cluster_ok:
  assumes d: "ok d" and v: "fat_ok E fs" and ch: "file_chain (image d) fs cs"
    and q: "q < length cs" and prev: "if fptr fs = 0 then q = 0 else 0 < q \<and> unat (curr_clust fs) = cs ! (q - 1)"
    and n: "next_cluster E fs d = (okf, fs1, d1)"
  shows "ok d1 \<and> image d1 = image d \<and> (\<exists>cc. fs1 = fs\<lparr>curr_clust := cc\<rparr> \<and> (okf \<longrightarrow> unat cc = cs ! q)) \<and>
    (volume_reliable E ok fs \<longrightarrow> okf)"
proof -
  have keep: "\<exists>cc. fs = fs\<lparr>curr_clust := cc\<rparr>" by (rule exI [of _ "curr_clust fs"]) simp
  obtain r d2 where g: "(if fptr fs = 0 then (org_clust fs, d) else get_fat E fs (curr_clust fs) d) = (r, d2)"
    by (rule prod.exhaust)
  have fs1: "(okf, fs1, d1) = (if r \<le> 1 then (False, fs, d2) else (True, fs\<lparr>curr_clust := r\<rparr>, d2))"
    unfolding n [symmetric] next_cluster_def g by simp
  have r: "ok d2 \<and> image d2 = image d \<and> (\<not> r \<le> 1 \<or> volume_reliable E ok fs \<longrightarrow> unat r = cs ! q)"
  proof (cases "fptr fs = 0")
    case True
    then have "cs ! q = unat (org_clust fs)" using ch q prev unfolding file_chain_def by auto
    then show ?thesis using g d True by auto
  next
    case False
    then have pq: "0 < q" "unat (curr_clust fs) = cs ! (q - 1)" "q - 1 < length cs" using prev q by auto
    have g': "get_fat E fs (curr_clust fs) d = (r, d2)" using g False by simp
    have cq: "cs ! q = fat_entry (image d) fs (cs ! (q - 1))" using ch q pq(1) unfolding file_chain_def by auto
    have range: "2 \<le> curr_clust fs" "curr_clust fs < n_fatent fs"
      using file_chain_range [OF ch pq(3)] pq(2) by (simp_all add: word_le_nat_alt word_less_nat_alt)
    have "list_all (reliable E ok) (entry_sectors fs (unat (curr_clust fs)))" if "volume_reliable E ok fs"
      using that file_chain_range [OF ch pq(3)] pq(2) by (simp add: volume_reliable_def)
    moreover have "r \<noteq> 1" if "\<not> r \<le> 1" using that by auto
    ultimately show ?thesis using get_fat_entry [OF d v g'] range pq(2) cq by auto
  qed
  have "\<not> r \<le> 1" if "volume_reliable E ok fs"
    using r that file_chain_range(1) [OF ch q] by (auto simp: word_le_nat_alt)
  then show ?thesis using fs1 r keep by (auto split: if_splits)
qed

lemma next_sector_ok:
  assumes d: "ok d" and inv: "file_inv E (image d) fs cs"
    and p: "fptr fs mod 512 = 0" "fptr fs < fsize fs"
    and n: "next_sector E fs d = (okf, fs1, d1)"
  defines "q \<equiv> unat (fptr fs) div cluster_bytes fs"
  defines "j \<equiv> unat (fptr fs) mod cluster_bytes fs div 512"
  shows "ok d1 \<and> image d1 = image d \<and>
    (\<exists>cc ds. fs1 = fs\<lparr>curr_clust := cc, dsect := ds\<rparr> \<and>
       (okf \<longrightarrow> unat cc = cs ! q \<and> ds = cluster_sector fs (cs ! q) j)) \<and>
    (volume_reliable E ok fs \<longrightarrow> okf)"
proof -
  have v: "volume_ok E fs" and ch: "file_chain (image d) fs cs" and ps: "file_pos fs cs"
    using inv by (auto simp: file_inv_def)
  have q: "q < length cs" and bcs: "0 < cluster_bytes fs"
    using file_index [OF inv p(2)] by (simp_all add: q_def)
  define c8 :: u8 where "c8 = ucast (fptr fs div 512 AND (ucast (csize fs) - 1))"
  have c8: "unat c8 = j" and j: "j < unat (csize fs)"
    using sector_in_cluster [OF v] by (simp_all add: c8_def j_def)
  have c0: "c8 = 0 \<longleftrightarrow> j = 0" using c8 by (auto simp: word_unat_eq_iff)
  have "unat (fptr fs) mod 512 = 0" using p(1) by (auto simp: word_unat_eq_iff unat_mod_distrib)
  then have "unat (fptr fs) mod cluster_bytes fs mod 512 = 0" by (simp add: cluster_bytes_def mod_mod_cancel)
  then have j0: "j = 0 \<longleftrightarrow> unat (fptr fs) mod cluster_bytes fs = 0" by (auto simp: j_def)
  obtain okg fs2 d2 where g: "(if c8 = 0 then next_cluster E fs d else (True, fs, d)) = (okg, fs2, d2)"
    by (rule prod_cases3)
  have fs2: "ok d2 \<and> image d2 = image d \<and> (\<exists>cc. fs2 = fs\<lparr>curr_clust := cc\<rparr> \<and> (okg \<longrightarrow> unat cc = cs ! q)) \<and>
      (volume_reliable E ok fs \<longrightarrow> okg)"
  proof (cases "c8 = 0")
    case True
    have "if fptr fs = 0 then q = 0 else 0 < q \<and> unat (curr_clust fs) = cs ! (q - 1)"
      using ps prev_index [of "unat (fptr fs)" "cluster_bytes fs"] bcs True c0 j0
      by (auto simp: file_pos_def q_def word_less_nat_alt unat_gt_0)
    moreover have "fat_ok E fs" using v by (simp add: volume_ok_def)
    ultimately show ?thesis using next_cluster_ok [OF d _ ch q, of okg fs2 d2] g True by simp
  next
    case False
    then have "0 < unat (fptr fs)" using c0 j0 by (cases "unat (fptr fs) = 0") auto
    then have "unat (curr_clust fs) = cs ! q"
      using ps prev_index [of "unat (fptr fs)" "cluster_bytes fs"] bcs False c0 j0
      by (auto simp: file_pos_def q_def word_less_nat_alt unat_gt_0)
    then show ?thesis using g False d by (auto intro: exI [of _ "curr_clust fs"])
  qed
  obtain cc where cc: "fs2 = fs\<lparr>curr_clust := cc\<rparr>" "okg \<longrightarrow> unat cc = cs ! q" using fs2 by blast
  have n': "(okf, fs1, d1) = (if \<not> okg then (False, fs2, d2)
      else if clust2sect E fs2 (curr_clust fs2) = 0 then (False, fs2, d2)
      else (True, fs2\<lparr>dsect := clust2sect E fs2 (curr_clust fs2) + ucast c8\<rparr>, d2))"
    unfolding n [symmetric] next_sector_def Let_def c8_def [symmetric] g by simp
  have "clust2sect E fs cc + ucast c8 = cluster_sector fs (cs ! q) j \<and> clust2sect E fs cc \<noteq> 0" if okg
  proof -
    have "2 \<le> unat cc" "unat cc < unat (n_fatent fs)" "unat cc = cs ! q"
      using that cc file_chain_range [OF ch q] by simp_all
    moreover have "(ucast c8 :: u32) = of_nat j" using c8 by (simp flip: c8)
    ultimately show ?thesis using clust2sect_sector(2,3) [OF v, of cc] j by simp
  qed
  note dsect = this
  have keep: "ok d1" "image d1 = image d" using n' fs2 by (auto split: if_splits)
  show ?thesis
  proof (cases "okg \<and> clust2sect E fs cc \<noteq> 0")
    case True
    then have "fs1 = fs\<lparr>curr_clust := cc, dsect := cluster_sector fs (cs ! q) j\<rparr>"
      using n' dsect by (simp add: cc(1))
    moreover have okf using n' True by (simp add: cc(1))
    ultimately show ?thesis using keep cc(2) True by blast
  next
    case False
    then have "\<not> okg" using dsect by blast
    then have "\<not> okf" "fs1 = fs\<lparr>curr_clust := cc\<rparr>" using n' by (auto simp: cc(1) split: if_splits)
    moreover have "fs\<lparr>curr_clust := cc\<rparr> = fs\<lparr>curr_clust := cc, dsect := dsect fs\<rparr>" by simp
    ultimately show ?thesis using keep fs2 \<open>\<not> okg\<close> by metis
  qed
qed


lemma enter_sector_ok:
  assumes d: "ok d" and inv: "file_inv E (image d) fs cs" and p: "fptr fs < fsize fs"
    and n: "(if fptr fs mod 512 = 0 then next_sector E fs d else (True, fs, d)) = (okf, fs1, d1)"
  shows "ok d1 \<and> image d1 = image d \<and>
    (\<exists>cc ds. fs1 = fs\<lparr>curr_clust := cc, dsect := ds\<rparr>) \<and> (okf \<longrightarrow> positioned fs1 cs) \<and>
    (volume_reliable E ok fs \<longrightarrow> okf)"
proof (cases "fptr fs mod 512 = 0")
  case True
  then show ?thesis using next_sector_ok [OF d inv True p] n by (auto simp: positioned_def Let_def)
next
  case False
  then show ?thesis using positioned_inside [OF inv False] n d by (auto simp: position_self)
qed

definition read_result :: "'d \<Rightarrow> nat list \<Rightarrow> FATFS \<Rightarrow> nat \<Rightarrow> u16 \<Rightarrow> u8 list \<Rightarrow>
    FRESULT \<times> FATFS \<times> u16 \<times> u8 list \<times> 'd \<Rightarrow> bool" where
  "read_result d cs fs n br out = (\<lambda>(res, fs', br', out', d').
     ok d' \<and> image d' = image d \<and> (volume_reliable E ok fs \<longrightarrow> res = FR_OK) \<and>
     (\<exists>k\<le>n. fptr fs' = fptr fs + of_nat k \<and> br' = br + of_nat k \<and>
        out' = out @ map (file_byte (image d) fs cs) [unat (fptr fs) ..< unat (fptr fs) + k] \<and>
        (if res = FR_OK then k = n \<and> file_inv E (image d) fs' cs \<and>
            (\<exists>p c ds. fs' = fs\<lparr>fptr := p, curr_clust := c, dsect := ds\<rparr>)
         else res = FR_DISK_ERR \<and> flag fs' = 0)))"

lemma positioned_reliable:
  assumes inv: "file_inv E img fs cs" and lt: "fptr fs < fsize fs"
    and pos: "positioned (fs\<lparr>curr_clust := cc, dsect := ds\<rparr>) cs" and rel: "volume_reliable E ok fs"
  shows "reliable E ok ds"
proof -
  have "file_chain img fs cs" "volume_ok E fs" using inv by (simp_all add: file_inv_def)
  then show ?thesis
    using rel pos file_chain_range [of img fs cs, OF _ file_index(1) [OF inv lt]] sector_in_cluster(2) [of E fs]
    by (auto simp: volume_reliable_def positioned_def Let_def)
qed

lemma read_result_step:
  assumes r: "read_result d2 cs fs2 (n - unat rcnt) (br + rcnt) (out @ bytes) R"
    and img: "image d2 = image d" and fs2: "fs2 = fs\<lparr>curr_clust := c, dsect := ds, fptr := fptr fs + ucast rcnt\<rparr>"
    and p: "unat (fptr fs2) = unat (fptr fs) + unat rcnt" "unat rcnt \<le> n"
    and bytes: "bytes = map (file_byte (image d) fs cs) [unat (fptr fs) ..< unat (fptr fs) + unat rcnt]"
  shows "read_result d cs fs n br out R"
proof -
  obtain res fs' br' out' d' where R: "R = (res, fs', br', out', d')" by (rule prod_cases5)
  obtain k where k: "k \<le> n - unat rcnt" "fptr fs' = fptr fs2 + of_nat k" "br' = br + rcnt + of_nat k"
    "out' = out @ bytes @ map (file_byte (image d) fs2 cs) [unat (fptr fs2) ..< unat (fptr fs2) + k]"
    "if res = FR_OK then k = n - unat rcnt \<and> file_inv E (image d) fs' cs \<and>
            (\<exists>p c ds. fs' = fs2\<lparr>fptr := p, curr_clust := c, dsect := ds\<rparr>)
         else res = FR_DISK_ERR \<and> flag fs' = 0" "ok d'" "image d' = image d"
    "volume_reliable E ok fs2 \<longrightarrow> res = FR_OK"
    using r unfolding read_result_def R img prod.case append_assoc by blast
  have "out' = out @ map (file_byte (image d) fs cs) [unat (fptr fs) ..< unat (fptr fs) + (unat rcnt + k)]"
    using upt_add_eq_append [of "unat (fptr fs)" "unat (fptr fs) + unat rcnt" k]
    unfolding k(4) bytes p(1) by (simp add: fs2 add.assoc)
  moreover have "fptr fs' = fptr fs + of_nat (unat rcnt + k)" "br' = br + of_nat (unat rcnt + k)"
    using k(2,3) by (simp_all add: fs2 add.assoc)
  moreover have "\<exists>p c ds. fs' = fs\<lparr>fptr := p, curr_clust := c, dsect := ds\<rparr>" if "res = FR_OK"
    using k(5) that by (auto simp: fs2)
  moreover have "volume_reliable E ok fs2 = volume_reliable E ok fs" by (simp add: fs2)
  ultimately show ?thesis using k p(2)
    by (auto simp: read_result_def R split: if_splits intro!: exI [of _ "unat rcnt + k"])
qed

lemma pf_read_loop_ok:
  assumes "ok d" "file_inv E (image d) fs cs" "unat (fptr fs) + unat btr \<le> unat (fsize fs)"
  shows "read_result d cs fs (unat btr) br out (pf_read_loop E True fs btr br out d)"
  using assms
proof (induction "unat btr" arbitrary: fs btr br out d rule: less_induct)
  case less
  note d = less.prems(1) and inv = less.prems(2) and fits = less.prems(3)
  show ?case
  proof (cases "btr = 0")
    case True
    then show ?thesis using d inv
      by (subst pf_read_loop.simps) (auto simp: read_result_def position_self)
  next
    case False
    then have b0: "0 < unat btr" by (simp add: word_unat_eq_iff)
    have lt: "fptr fs < fsize fs" using fits b0 by (simp add: word_less_nat_alt)
    obtain okf fs1 d1 where n: "(if fptr fs mod 512 = 0 then next_sector E fs d else (True, fs, d)) = (okf, fs1, d1)"
      by (rule prod_cases3)
    obtain cc ds where fs1: "fs1 = fs\<lparr>curr_clust := cc, dsect := ds\<rparr>"
      and d1: "ok d1" "image d1 = image d" and pos: "okf \<Longrightarrow> positioned fs1 cs"
      and rel: "volume_reliable E ok fs \<Longrightarrow> okf"
      using enter_sector_ok [OF d inv lt n] by blast
    show ?thesis
    proof (cases okf)
      case False
      then show ?thesis using n d1 fs1 rel \<open>btr \<noteq> 0\<close>
        by (subst pf_read_loop.simps) (auto simp: read_result_def intro!: exI [of _ 0])
    next
      case True
      define rcnt where "rcnt = chunk fs1 btr"
      note ch = chunk_bounds [OF \<open>btr \<noteq> 0\<close>, of fs1, folded rcnt_def]
      have m: "unat (fptr fs1 mod 512) = unat (fptr fs) mod 512" by (simp add: fs1 unat_mod_distrib)
      have m16: "unat (ucast (fptr fs1 mod 512) :: u16) = unat (fptr fs) mod 512"
        by (simp add: unat_ucast_32_16 m)
      obtain dr bytes d2 where rd: "disk_readp E True (dsect fs1) (ucast (fptr fs1 mod 512)) rcnt d1 = (dr, bytes, d2)"
        by (rule prod_cases3)
      have rdp: "ok d2 \<and> image d2 = image d \<and> (dr = RES_OK \<longrightarrow> bytes =
          map (image d (dsect fs1)) [unat (fptr fs) mod 512 ..< unat (fptr fs) mod 512 + unat rcnt])"
        using readp [OF d1(1) ch(1) _ rd] ch(3) d1(2) by (simp add: m m16)
      have step: "pf_read_loop E True fs btr br out d =
         (if dr \<noteq> RES_OK then (FR_DISK_ERR, fs1\<lparr>flag := 0\<rparr>, br, out, d2)
          else pf_read_loop E True (fs1\<lparr>fptr := fptr fs1 + ucast rcnt\<rparr>) (btr - rcnt) (br + rcnt) (out @ bytes) d2)"
        using \<open>btr \<noteq> 0\<close> True n rd by (subst pf_read_loop.simps) (simp add: rcnt_def [symmetric] Let_def)
      show ?thesis
      proof (cases "dr = RES_OK")
        case False
        have "positioned fs1 cs" using pos True by blast
        then have "\<not> volume_reliable E ok fs"
          using False positioned_reliable [OF inv lt, where cc = cc and ds = ds] reliableD [of E ok, OF _ rd d1(1) ch(1)] ch(3) m m16
          by (auto simp: fs1)
        then show ?thesis using False rdp fs1 unfolding step by (auto simp: read_result_def intro!: exI [of _ 0])
      next
        case ok: True
        let ?fs2 = "fs1\<lparr>fptr := fptr fs1 + ucast rcnt\<rparr>"
        have p1: "positioned fs1 cs" using pos True by blast
        have adv: "unat (fptr fs1 + ucast rcnt) = unat (fptr fs1) + unat rcnt" "file_pos ?fs2 cs"
          using file_pos_advance [OF p1 ch(1)] ch m fits by (simp_all add: fs1)
        have inv2: "file_inv E (image d2) ?fs2 cs"
          using inv adv(2) rdp by (simp add: file_inv_def fs1)
        have sub: "unat (btr - rcnt) = unat btr - unat rcnt"
          using ch(2) by (simp add: unat_minus_le word_le_nat_alt)
        have "read_result d2 cs ?fs2 (unat (btr - rcnt)) (br + rcnt) (out @ bytes)
            (pf_read_loop E True ?fs2 (btr - rcnt) (br + rcnt) (out @ bytes) d2)"
          using ch fits adv(1) sub rdp inv2 by (intro less.hyps) (simp_all add: fs1)
        moreover have "bytes = map (file_byte (image d) fs cs) [unat (fptr fs) ..< unat (fptr fs) + unat rcnt]"
          using file_slice [OF p1, of "unat rcnt" "image d"] ok rdp ch(3) m by (simp add: fs1)
        ultimately have "read_result d cs fs (unat btr) br out
            (pf_read_loop E True ?fs2 (btr - rcnt) (br + rcnt) (out @ bytes) d2)"
          unfolding sub using rdp ch(2) adv(1)
          by (elim read_result_step [where c = cc and ds = ds]) (simp_all add: fs1)
        then show ?thesis unfolding step using ok by simp
      qed
    qed
  qed
qed

end
end
