(* ===== verification/Pff_Io.thy ===== *)
theory Pff_Io
  imports Pff_File
begin

text \<open>
  \<^verbatim>\<open>pf_read\<close> and \<^verbatim>\<open>pf_lseek\<close> on a file given by its cluster list: what is read is the slice of
  the file's bytes at the file pointer, a seek ends at the requested offset (clipped to the file),
  and both keep the file invariant.
\<close>

section \<open>Reading\<close>

definition file_bytes :: "(u32 \<Rightarrow> nat \<Rightarrow> u8) \<Rightarrow> FATFS \<Rightarrow> nat list \<Rightarrow> u8 list" where
  "file_bytes img fs cs = map (file_byte img fs cs) [0 ..< unat (fsize fs)]"

lemma file_bytes_slice:
  assumes "p + k \<le> unat (fsize fs)"
  shows "take k (drop p (file_bytes img fs cs)) = map (file_byte img fs cs) [p ..< p + k]"
  using assms by (simp add: file_bytes_def drop_map take_map)

context disk_reader
begin

lemma pf_read_ok:
  assumes d: "ok (disk s)" and fs: "FatFs s = Some fs" "flag fs AND FA_OPENED \<noteq> 0"
    and inv: "file_inv E (image (disk s)) fs cs"
    and r: "pf_read E True btr s = (res, br, out, s')"
  shows "ok (disk s') \<and> image (disk s') = image (disk s) \<and>
    out = take (unat br) (drop (unat (fptr fs)) (file_bytes (image (disk s)) fs cs)) \<and>
    (\<exists>fs'. FatFs s' = Some fs' \<and> unat (fptr fs') = unat (fptr fs) + unat br \<and>
       (if res = FR_OK
        then unat br = min (unat btr) (unat (fsize fs) - unat (fptr fs)) \<and>
             file_inv E (image (disk s)) fs' cs \<and>
             (\<exists>p c ds. fs' = fs\<lparr>fptr := p, curr_clust := c, dsect := ds\<rparr>)
        else res = FR_DISK_ERR \<and> flag fs' = 0)) \<and>
    (volume_reliable E ok fs \<longrightarrow> res = FR_OK)"
proof -
  let ?img = "image (disk s)"
  have le: "unat (fptr fs) \<le> unat (fsize fs)"
    using inv by (simp add: file_inv_def file_pos_def word_le_nat_alt)
  define n where "n = (if fsize fs - fptr fs < ucast btr then ucast (fsize fs - fptr fs) else btr)"
  have rem: "unat (fsize fs - fptr fs) = unat (fsize fs) - unat (fptr fs)"
    using le by (simp add: unat_minus_le word_le_nat_alt)
  have n: "unat n = min (unat btr) (unat (fsize fs) - unat (fptr fs))"
    using rem unat_less_u16 [of btr] by (auto simp: n_def word_less_nat_alt unat_ucast_32_16 min_def)
  obtain fs' out' d' br' res' where l: "pf_read_loop E True fs n 0 [] (disk s) = (res', fs', br', out', d')"
    by (metis prod_cases5)
  have eqs: "res' = res" "br' = br" "out' = out" "s' = s\<lparr>FatFs := Some fs', disk := d'\<rparr>"
    using r fs l by (auto simp: pf_read_def n_def Let_def)
  have "unat (fptr fs) + unat n \<le> unat (fsize fs)" using n le by linarith
  from pf_read_loop_ok [OF d inv this, of 0 "[]"] l eqs
  obtain k where k: "k \<le> unat n" "fptr fs' = fptr fs + of_nat k" "br = of_nat k"
    "out = map (file_byte ?img fs cs) [unat (fptr fs) ..< unat (fptr fs) + k]"
    "if res = FR_OK then k = unat n \<and> file_inv E ?img fs' cs \<and>
        (\<exists>p c ds. fs' = fs\<lparr>fptr := p, curr_clust := c, dsect := ds\<rparr>)
     else res = FR_DISK_ERR \<and> flag fs' = 0" "ok d'" "image d' = ?img"
    "volume_reliable E ok fs \<longrightarrow> res = FR_OK"
    unfolding read_result_def by auto
  have kb: "unat br = k" using k(1,3) unat_less_u16 [of n] by (simp add: unat_of_nat)
  have fits: "unat (fptr fs) + k \<le> unat (fsize fs)" using k(1) n le by linarith
  have p: "unat (fptr fs') = unat (fptr fs) + k"
    using k(2) fits unat_less_u32 [of "fsize fs"] by (simp add: unat_plus_u32 unat_of_nat)
  have "out = take (unat br) (drop (unat (fptr fs)) (file_bytes ?img fs cs))"
    using file_bytes_slice [OF fits] k(4) kb by simp
  then show ?thesis using k(5-8) kb p n eqs(4) by (simp split: if_splits)
qed

end

section \<open>Seeking\<close>


lemma unat_and_not_mask:
  "unat (x AND NOT (mask n) :: u32) = unat x div 2 ^ n * 2 ^ n"
proof -
  have "(x AND mask n) + (x AND NOT (mask n)) = (x AND mask n) OR (x AND NOT (mask n))"
    by (rule disjunctive_add) (auto simp: bit_simps)
  also have "\<dots> = x" by (rule bit_word_eqI) (auto simp: bit_simps)
  finally have s: "(x AND mask n) + (x AND NOT (mask n)) = x" .
  have "x AND mask n \<le> x" by (simp add: word_and_le2)
  then have "unat (x AND NOT (mask n)) = unat x - unat (x AND mask n)"
    using s by (metis add_diff_cancel_left' unat_minus_le)
  also have "\<dots> = unat x - unat x mod 2 ^ n" by (simp add: unat_and_mask)
  also have "\<dots> = unat x div 2 ^ n * 2 ^ n" by (rule minus_mod_eq_div_mult)
  finally show ?thesis .
qed

lemma bcs_word:
  assumes v: "volume_ok E fs"
  shows "unat (ucast (csize fs) * 512 :: u32) = cluster_bytes fs"
    "unat (x AND NOT (ucast (csize fs) * 512 - 1)) = unat x div cluster_bytes fs * cluster_bytes fs"
    "unat (x AND (ucast (csize fs) - 1)) = unat (x :: u32) mod unat (csize fs)"
proof -
  obtain e where e: "e < 8" "unat (csize fs) = 2 ^ e" using csize_pow2 [OF v] by blast
  have c: "(ucast (csize fs) :: u32) = 2 ^ e"
  proof -
    have "(ucast (csize fs) :: u32) = of_nat (unat (csize fs))" by simp
    then show ?thesis unfolding e by simp
  qed
  have b: "(ucast (csize fs) * 512 :: u32) = 2 ^ (e + 9)" by (simp add: c power_add)
  have cb: "cluster_bytes fs = 2 ^ (e + 9)" by (simp add: cluster_bytes_def e power_add)
  show "unat (ucast (csize fs) * 512 :: u32) = cluster_bytes fs"
    using unat_less_u8 [of "csize fs"] by (simp add: unat_times_u32 cluster_bytes_def)
  have "ucast (csize fs) * 512 - 1 = (mask (e + 9) :: u32)" unfolding b by (simp add: mask_eq_exp_minus_1)
  then show "unat (x AND NOT (ucast (csize fs) * 512 - 1)) = unat x div cluster_bytes fs * cluster_bytes fs"
    unfolding cb by (simp add: unat_and_not_mask)
  have "ucast (csize fs) - 1 = (mask e :: u32)" unfolding c by (simp add: mask_eq_exp_minus_1)
  then show "unat (x AND (ucast (csize fs) - 1)) = unat x mod unat (csize fs)"
    using e by (simp add: unat_and_mask)
qed

context disk_reader
begin

definition seek_at :: "FATFS \<Rightarrow> nat list \<Rightarrow> nat \<Rightarrow> u32 \<Rightarrow> FATFS \<Rightarrow> bool" where
  "seek_at fs0 cs i clst fs \<longleftrightarrow>
     i < length cs \<and> unat clst = cs ! i \<and> curr_clust fs = clst \<and>
     unat (fptr fs) = i * cluster_bytes fs0 \<and> (\<exists>c p. fs = fs0\<lparr>curr_clust := c, fptr := p\<rparr>)"

lemma lseek_loop_ok:
  assumes "ok d" "volume_ok E fs0" "file_chain (image d) fs0 cs" "seek_at fs0 cs i clst fs"
    "0 < unat ofs" "unat (fptr fs) + unat ofs \<le> unat (fsize fs0)" "unat bcs = cluster_bytes fs0"
  shows "\<exists>okf fs' clst' ofs' d'. lseek_loop E fs clst ofs bcs d = Some (okf, fs', clst', ofs', d') \<and>
    ok d' \<and> image d' = image d \<and> (\<exists>c p. fs' = fs0\<lparr>curr_clust := c, fptr := p\<rparr>) \<and>
    (volume_reliable E ok fs0 \<longrightarrow> okf) \<and>
    (okf \<longrightarrow> (let t = unat (fptr fs) + unat ofs; i' = (t - 1) div cluster_bytes fs0 in
       seek_at fs0 cs i' clst' fs' \<and> unat (fptr fs') + unat ofs' = t))"
  using assms
proof (induction "unat ofs" arbitrary: fs clst ofs i d rule: less_induct)
  case less
  note d = less.prems(1) and v = less.prems(2) and ch = less.prems(3) and at = less.prems(4)
    and pos = less.prems(5) and fits = less.prems(6) and bcs = less.prems(7)
  have b0: "0 < cluster_bytes fs0" using v by (auto simp: volume_ok_def cluster_bytes_def)
  obtain c p where fs: "fs = fs0\<lparr>curr_clust := c, fptr := p\<rparr>" using at by (auto simp: seek_at_def)
  have i: "i < length cs" "unat clst = cs ! i" "unat (fptr fs) = i * cluster_bytes fs0"
    using at by (auto simp: seek_at_def)
  show ?case
  proof (cases "bcs < ofs")
    case False
    then have le: "unat ofs \<le> cluster_bytes fs0" using bcs by (simp add: word_less_nat_alt)
    then have "(unat (fptr fs) + unat ofs - 1) div cluster_bytes fs0 = i"
      unfolding i(3) using pos b0 div_mult_self3 [of "cluster_bytes fs0" i "unat ofs - 1"]
      by (simp add: div_less)
    then show ?thesis using False d at fs
      by (subst lseek_loop.simps) (auto simp: Let_def)
  next
    case True
    then have gt: "cluster_bytes fs0 < unat ofs" using bcs by (simp add: word_less_nat_alt)
    have "i * cluster_bytes fs0 + cluster_bytes fs0 < length cs * cluster_bytes fs0"
      using fits gt i(3) ch by (simp add: file_chain_def)
    then have i1: "Suc i < length cs" using b0
      by (metis add.commute mult_Suc mult_less_cancel2)
    obtain r d1 where g: "get_fat E fs clst d = (r, d1)" by fastforce
    have fo: "fat_ok E fs" using v fs by (simp add: volume_ok_def fat_ok_def)
    note gf = get_fat_entry [OF d fo g]
    have nxt: "cs ! Suc i = fat_entry (image d) fs0 (cs ! i)"
      using ch i1 unfolding file_chain_def by auto
    have fe: "fat_entry (image d) fs = fat_entry (image d) fs0" "entry_sectors fs = entry_sectors fs0"
      "n_fatent fs = n_fatent fs0"
      by (simp_all add: fs entry_sectors_def fun_eq_iff)
    have rng: "2 \<le> clst" "clst < n_fatent fs"
      using file_chain_range [OF ch i(1)] i(2) by (simp_all add: word_le_nat_alt word_less_nat_alt fe)
    show ?thesis
    proof (cases "r \<le> 1 \<or> n_fatent fs \<le> r")
      case bad: True
      have "\<not> volume_reliable E ok fs0"
      proof
        assume "volume_reliable E ok fs0"
        then have "list_all (reliable E ok) (entry_sectors fs (unat clst))"
          using file_chain_range [OF ch i(1)] i(2) by (simp add: volume_reliable_def fe)
        then have "unat r = cs ! Suc i" using gf(4) rng nxt i(2) by (simp add: fe)
        then show False using bad file_chain_range [OF ch i1] by (auto simp: word_le_nat_alt fe)
      qed
      then show ?thesis using True g bad gf(1,2) fs
        by (subst lseek_loop.simps) auto
    next
      case False
      then have "r \<noteq> 1" by auto
      then have r: "unat r = cs ! Suc i" using gf(3) nxt i(2) by (simp add: fe)
      let ?fs = "fs\<lparr>curr_clust := r, fptr := fptr fs + bcs\<rparr>"
      have p: "unat (fptr fs + bcs) = Suc i * cluster_bytes fs0"
        using fits gt bcs i(3) unat_less_u32 [of "fsize fs0"] by (simp add: unat_plus_u32)
      have o': "unat (ofs - bcs) = unat ofs - cluster_bytes fs0"
        using gt bcs by (simp add: unat_minus_le word_le_nat_alt)
      have at': "seek_at fs0 cs (Suc i) r ?fs"
        using i1 r p fs by (auto simp: seek_at_def)
      have "\<exists>okf fs' clst' ofs' d'. lseek_loop E ?fs r (ofs - bcs) bcs d1 = Some (okf, fs', clst', ofs', d') \<and>
        ok d' \<and> image d' = image d1 \<and> (\<exists>c p. fs' = fs0\<lparr>curr_clust := c, fptr := p\<rparr>) \<and>
        (volume_reliable E ok fs0 \<longrightarrow> okf) \<and>
        (okf \<longrightarrow> (let t = unat (fptr ?fs) + unat (ofs - bcs); i' = (t - 1) div cluster_bytes fs0 in
          seek_at fs0 cs i' clst' fs' \<and> unat (fptr fs') + unat ofs' = t))"
        using b0 gt fits i(3) p o' ch v gf(1,2) bcs at'
        by (intro less.hyps) simp_all
      moreover have "unat (fptr ?fs) + unat (ofs - bcs) = unat (fptr fs) + unat ofs"
        using p o' gt i(3) by simp
      ultimately show ?thesis using True False g gf(2)
        by (subst lseek_loop.simps) simp
    qed
  qed
qed

lemma seek_final:
  assumes inv: "volume_ok E fs0" "file_chain img fs0 cs" and at: "seek_at fs0 cs i clst fs"
    and i: "i = (t - 1) div cluster_bytes fs0" and t: "0 < t" "t \<le> unat (fsize fs0)" "unat (fptr fs) + unat ofs = t"
    and fs': "fs' = fs\<lparr>fptr := fptr fs + ofs\<rparr>"
  shows "clust2sect E fs' clst \<noteq> 0" "unat (fptr fs') = t"
    "file_inv E img (fs'\<lparr>dsect := clust2sect E fs' clst + (fptr fs' div 512 AND (ucast (csize fs') - 1))\<rparr>) cs"
proof -
  obtain c p where fs: "fs = fs0\<lparr>curr_clust := c, fptr := p\<rparr>" using at by (auto simp: seek_at_def)
  have at': "i < length cs" "unat clst = cs ! i" "c = clst" using at by (auto simp: seek_at_def fs)
  have b0: "0 < cluster_bytes fs0" using inv by (auto simp: volume_ok_def cluster_bytes_def)
  have cl: "2 \<le> unat clst" "unat clst < unat (n_fatent fs0)"
    using file_chain_range [OF inv(2) at'(1)] at'(2) by simp_all
  show p: "unat (fptr fs') = t"
    using t unat_less_u32 [of "fsize fs0"] by (simp add: fs' unat_plus_u32)
  have c2s: "clust2sect E fs' clst = clust2sect E fs0 clst" by (simp add: fs' fs)
  show "clust2sect E fs' clst \<noteq> 0" using clust2sect_sector(2) [OF inv(1) cl] c2s by simp
  define j where "j = t div 512 mod unat (csize fs0)"
  have jlt: "j < unat (csize fs0)" using inv(1) by (auto simp: j_def volume_ok_def)
  have j: "fptr fs' div 512 AND (ucast (csize fs') - 1) = of_nat j"
  proof -
    have "unat (fptr fs' div 512 AND (ucast (csize fs') - 1)) = j"
      using bcs_word(3) [OF inv(1), of "fptr fs' div 512"] p
      by (simp add: fs' fs j_def unat_div_distrib)
    from arg_cong [OF this, of "of_nat :: nat \<Rightarrow> u32"] show ?thesis by simp
  qed
  have "file_pos (fs'\<lparr>dsect := clust2sect E fs' clst + of_nat j\<rparr>) cs"
  proof -
    have "clust2sect E fs' clst + of_nat j = cluster_sector fs0 (cs ! (t div cluster_bytes fs0))
        (t mod cluster_bytes fs0 div 512)" if "t mod 512 \<noteq> 0"
    proof -
      have "t mod cluster_bytes fs0 mod 512 = t mod 512" by (simp add: cluster_bytes_def mod_mod_cancel)
      then have "t mod cluster_bytes fs0 \<noteq> 0" using that by auto
      then have "i = t div cluster_bytes fs0" using prev_index(1) [OF t(1) b0] i by simp
      moreover have "t mod cluster_bytes fs0 div 512 = j"
        by (simp add: cluster_bytes_def mod_mult2_eq j_def)
      ultimately show ?thesis using clust2sect_sector(3) [OF inv(1) cl jlt] at'(2) c2s by simp
    qed
    moreover have "fptr fs' mod 512 \<noteq> 0 \<Longrightarrow> t mod 512 \<noteq> 0"
      using p by (auto simp: word_unat_eq_iff unat_mod_distrib)
    moreover have "fptr fs' \<le> fsize fs0" using p t(2) by (simp add: word_le_nat_alt)
    ultimately show ?thesis using p at' i by (simp add: file_pos_def fs' fs)
  qed
  then show "file_inv E img (fs'\<lparr>dsect := clust2sect E fs' clst + (fptr fs' div 512 AND (ucast (csize fs') - 1))\<rparr>) cs"
    unfolding j using inv by (simp add: file_inv_def fs' fs)
qed

lemma seek_start:
  assumes inv: "file_inv E img fs cs" and o': "0 < unat o'" "unat o' \<le> unat (fsize fs)"
    and bcs: "bcs = ucast (csize fs) * 512"
    and st: "lseek_start (fptr fs) bcs o' (fs\<lparr>fptr := 0\<rparr>) = (fs1, o1, c1)"
  shows "\<exists>i. seek_at fs cs i c1 fs1 \<and> 0 < unat o1 \<and> unat (fptr fs1) + unat o1 = unat o'"
proof -
  have v: "volume_ok E fs" and ch: "file_chain img fs cs" and ps: "file_pos fs cs"
    using inv by (simp_all add: file_inv_def)
  let ?B = "cluster_bytes fs" and ?p = "unat (fptr fs)"
  have b0: "0 < ?B" using v by (auto simp: volume_ok_def cluster_bytes_def)
  have B: "unat bcs = ?B" unfolding bcs by (rule bcs_word(1) [OF v])
  have len: "unat (fsize fs) \<le> length cs * ?B" using ch by (simp add: file_chain_def)
  have dec: "unat (x - 1) = unat x - 1" if "0 < unat x" for x :: u32
    using that by (simp add: unat_minus_le word_le_nat_alt)
  show ?thesis
  proof (cases "fptr fs > 0 \<and> (fptr fs - 1) div bcs \<le> (o' - 1) div bcs")
    case True
    then have p: "0 < ?p" by (simp add: word_less_nat_alt)
    define i where "i = (?p - 1) div ?B"
    define fp where "fp = (fptr fs - 1) AND NOT (bcs - 1)"
    have fp: "unat fp = i * ?B"
      using bcs_word(2) [OF v, of "fptr fs - 1"] p by (simp add: fp_def bcs i_def dec)
    have "i \<le> (unat o' - 1) div ?B"
      using True p o' by (simp add: i_def word_le_nat_alt unat_div_distrib B dec)
    then have "i * ?B \<le> unat o' - 1" using b0 by (meson div_times_less_eq_dividend le_trans mult_le_mono1)
    then have lt: "unat fp < unat o'" using fp o' by linarith
    have "?p - 1 < length cs * ?B" using ps p len by (auto simp: file_pos_def word_le_nat_alt)
    then have "i < length cs" by (simp add: i_def less_mult_imp_div_less)
    moreover have "unat (curr_clust fs) = cs ! i" using ps p by (simp add: file_pos_def i_def word_less_nat_alt)
    moreover have "fs1 = fs\<lparr>fptr := fp\<rparr>" "o1 = o' - fp" "c1 = curr_clust fs"
      using st True by (auto simp: lseek_start_def fp_def Let_def)
    moreover have "\<exists>c p. fs\<lparr>fptr := fp\<rparr> = fs\<lparr>curr_clust := c, fptr := p\<rparr>"
      by (rule exI [of _ "curr_clust fs"], rule exI [of _ fp]) simp
    ultimately show ?thesis using fp lt
      by (intro exI [of _ i]) (simp add: seek_at_def unat_minus_le word_le_nat_alt)
  next
    case False
    have "0 < length cs" using o' len by (cases cs) auto
    moreover have "cs ! 0 = unat (org_clust fs)" using ch calculation unfolding file_chain_def by auto
    moreover have "fs1 = fs\<lparr>fptr := 0, curr_clust := org_clust fs\<rparr>" "o1 = o'" "c1 = org_clust fs"
      using st False by (auto simp: lseek_start_def)
    moreover have "\<exists>c p. fs\<lparr>fptr := 0, curr_clust := org_clust fs\<rparr> = fs\<lparr>curr_clust := c, fptr := p\<rparr>"
      by (rule exI [of _ "org_clust fs"], rule exI [of _ 0]) simp
    ultimately show ?thesis using o' by (intro exI [of _ 0]) (simp add: seek_at_def)
  qed
qed

lemma pf_lseek_ok:
  assumes d: "ok (disk s)" and fs: "FatFs s = Some fs" "flag fs AND FA_OPENED \<noteq> 0"
    and inv: "file_inv E (image (disk s)) fs cs"
  shows "\<exists>res s' fs'. pf_lseek E ofs s = Some (res, s') \<and> ok (disk s') \<and> image (disk s') = image (disk s) \<and>
    FatFs s' = Some fs' \<and> (volume_reliable E ok fs \<longrightarrow> res = FR_OK) \<and>
    (if res = FR_OK
     then unat (fptr fs') = min (unat ofs) (unat (fsize fs)) \<and> file_inv E (image (disk s)) fs' cs \<and>
          (\<exists>p c ds. fs' = fs\<lparr>fptr := p, curr_clust := c, dsect := ds\<rparr>)
     else res = FR_DISK_ERR \<and> flag fs' = 0)"
proof -
  let ?img = "image (disk s)"
  have v: "volume_ok E fs" and ch: "file_chain ?img fs cs" and ps: "file_pos fs cs"
    using inv by (simp_all add: file_inv_def)
  have b0: "0 < cluster_bytes fs" using v by (auto simp: volume_ok_def cluster_bytes_def)
  define o' where "o' = (if fsize fs < ofs then fsize fs else ofs)"
  have o': "unat o' = min (unat ofs) (unat (fsize fs))"
    by (auto simp: o'_def word_less_nat_alt min_def)
  show ?thesis
  proof (cases "o' = 0")
    case True
    have "file_inv E ?img (fs\<lparr>fptr := 0\<rparr>) cs" using inv by (simp add: file_inv_def file_pos_def)
    moreover have "\<exists>p c ds. fs\<lparr>fptr := 0\<rparr> = fs\<lparr>fptr := p, curr_clust := c, dsect := ds\<rparr>"
      by (rule exI [of _ 0], rule exI [of _ "curr_clust fs"], rule exI [of _ "dsect fs"]) simp
    ultimately show ?thesis using True fs d o'
      by (simp add: pf_lseek_def o'_def [symmetric] Let_def)
  next
    case False
    then have pos: "0 < unat o'" by (simp add: word_unat_eq_iff)
    define bcs :: u32 where "bcs = ucast (csize fs) * 512"
    have bcs: "unat bcs = cluster_bytes fs" "bcs \<noteq> 0"
      using bcs_word(1) [OF v] b0 by (auto simp: bcs_def)
    obtain fs1 o1 c1 where st: "lseek_start (fptr fs) bcs o' (fs\<lparr>fptr := 0\<rparr>) = (fs1, o1, c1)"
      by (rule prod_cases3)
    have ole: "unat o' \<le> unat (fsize fs)" using o' by simp
    obtain i where at: "seek_at fs cs i c1 fs1" "0 < unat o1" "unat (fptr fs1) + unat o1 = unat o'"
      using seek_start [OF inv pos ole bcs_def st] by blast
    obtain okf fs2 c2 o2 d2 where l: "lseek_loop E fs1 c1 o1 bcs (disk s) = Some (okf, fs2, c2, o2, d2)"
      "ok d2" "image d2 = ?img" "\<exists>c p. fs2 = fs\<lparr>curr_clust := c, fptr := p\<rparr>" "volume_reliable E ok fs \<longrightarrow> okf"
      "okf \<longrightarrow> seek_at fs cs ((unat o' - 1) div cluster_bytes fs) c2 fs2 \<and> unat (fptr fs2) + unat o2 = unat o'"
      using lseek_loop_ok [OF d v ch at(1,2) _ bcs(1), unfolded at(3) Let_def, OF ole] by blast
    define fs3 where "fs3 = fs2\<lparr>fptr := fptr fs2 + o2\<rparr>"
    have run: "pf_lseek E ofs s = Some (if \<not> okf then (FR_DISK_ERR, s\<lparr>FatFs := Some (fs2\<lparr>flag := 0\<rparr>), disk := d2\<rparr>)
        else if clust2sect E fs3 c2 = 0 then (FR_DISK_ERR, s\<lparr>FatFs := Some (fs3\<lparr>flag := 0\<rparr>), disk := d2\<rparr>)
        else (FR_OK, s\<lparr>FatFs := Some (fs3\<lparr>dsect := clust2sect E fs3 c2 +
           (fptr fs3 div 512 AND (ucast (csize fs3) - 1))\<rparr>), disk := d2\<rparr>))"
      using fs False bcs(2) l(1) st
      by (simp add: pf_lseek_def o'_def [symmetric] bcs_def [symmetric] Let_def fs3_def)
    show ?thesis
    proof (cases okf)
      case False
      then show ?thesis using run l by simp
    next
      case True
      then have at2: "seek_at fs cs ((unat o' - 1) div cluster_bytes fs) c2 fs2" "unat (fptr fs2) + unat o2 = unat o'"
        using l(6) by auto
      note fin = seek_final [OF v ch at2(1) refl pos ole at2(2) fs3_def]
      have "\<exists>p c ds. fs3\<lparr>dsect := x\<rparr> = fs\<lparr>fptr := p, curr_clust := c, dsect := ds\<rparr>" for x
      proof -
        obtain c p where "fs2 = fs\<lparr>curr_clust := c, fptr := p\<rparr>" using l(4) by blast
        then have "fs3\<lparr>dsect := x\<rparr> = fs\<lparr>fptr := p + o2, curr_clust := c, dsect := x\<rparr>" by (simp add: fs3_def)
        then show ?thesis by blast
      qed
      then show ?thesis using run l True fin o' by simp
    qed
  qed
qed

end

end
