(* ===== verification/Sdcard.thy ===== *)
theory Sdcard
  imports Avr_Prelude
begin

text \<open>
  The SD card driver \<^verbatim>\<open>src/src/peripherals/sdcard/sdcard.c\<close>. The driver reaches the card through
  the four callbacks the host registers; the host, the SPI bus and the card together are a state of
  any type \<open>'c\<close>, and a callback is a function on it. A callback that is not given is \<open>None\<close>, and a
  call of it is undefined: the value \<open>None\<close> of the operation.
\<close>

section \<open>State\<close>

record 'c SD_CALLBACKS =
  cb_select :: "('c \<Rightarrow> 'c) option"
  cb_xchg :: "(u8 \<Rightarrow> 'c \<Rightarrow> u8 \<times> 'c) option"
  cb_deselect :: "('c \<Rightarrow> 'c) option"
  cb_power :: "(u8 \<Rightarrow> 'c \<Rightarrow> 'c) option"

record 'c sdcard =
  inited :: bool
  callbacks :: "'c SD_CALLBACKS"
  bus :: 'c

text \<open>The three callbacks every access needs, once they are known to be given.\<close>

record 'c sd_host =
  select :: "'c \<Rightarrow> 'c"
  xchg :: "u8 \<Rightarrow> 'c \<Rightarrow> u8 \<times> 'c"
  deselect :: "'c \<Rightarrow> 'c"

definition host_of :: "'c SD_CALLBACKS \<Rightarrow> 'c sd_host option" where
  "host_of cb =
     (case (cb_select cb, cb_xchg cb, cb_deselect cb) of
        (Some s, Some x, Some d) \<Rightarrow> Some \<lparr>select = s, xchg = x, deselect = d\<rparr>
      | _ \<Rightarrow> None)"

abbreviation (input) SDCARD_OK :: "'a::len word" where "SDCARD_OK \<equiv> 0"
abbreviation (input) SDCARD_NO_DETECT :: "'a::len word" where "SDCARD_NO_DETECT \<equiv> 1"
abbreviation (input) SDCARD_TIMEOUT :: "'a::len word" where "SDCARD_TIMEOUT \<equiv> 2"
abbreviation (input) SDCARD_RWFAIL :: "'a::len word" where "SDCARD_RWFAIL \<equiv> - 1"
abbreviation (input) SDCARD_NOT_INITED :: "'a::len word" where "SDCARD_NOT_INITED \<equiv> - 2"

text \<open>Exchanging a list of bytes; the bytes received are returned.\<close>

fun exchange :: "'c sd_host \<Rightarrow> u8 list \<Rightarrow> 'c \<Rightarrow> u8 list \<times> 'c" where
  "exchange h [] c = ([], c)"
| "exchange h (v # vs) c =
     (case xchg h v c of (r, c) \<Rightarrow> case exchange h vs c of (rs, c) \<Rightarrow> (r # rs, c))"

section \<open>Local routines\<close>

text \<open>They are only called with the callbacks given, the test of \<^verbatim>\<open>inited\<close> having been made.\<close>

definition command_frame :: "u8 \<Rightarrow> u16 \<Rightarrow> u16 \<Rightarrow> u8 list" where
  "command_frame command px py =
     [0xff, command OR 0x40, ucast (drop_bit 8 px), ucast (px AND 0xff),
      ucast (drop_bit 8 py), ucast (py AND 0xff), 0x95, 0xff]"

definition sd_send_command :: "'c sd_host \<Rightarrow> u8 \<Rightarrow> u16 \<Rightarrow> u16 \<Rightarrow> 'c \<Rightarrow> u8 \<times> 'c" where
  "sd_send_command h command px py c =
     (case exchange h (command_frame command px py) (select h c) of (_, c) \<Rightarrow> xchg h 0xff c)"

fun sd_response_loop :: "'c sd_host \<Rightarrow> u8 \<Rightarrow> nat \<Rightarrow> 'c \<Rightarrow> nat \<times> 'c" where
  "sd_response_loop h response 0 c = (0, c)"
| "sd_response_loop h response (Suc count) c =
     (case xchg h 0xff c of (b, c) \<Rightarrow>
        if b = response then (Suc count, c)
        else if count = 0 then (0, c)
        else sd_response_loop h response count c)"

definition sd_response :: "'c sd_host \<Rightarrow> u8 \<Rightarrow> 'c \<Rightarrow> u16 \<times> 'c" where
  "sd_response h response c =
     (case sd_response_loop h response 0xFFFF c of (count, c) \<Rightarrow>
        (if count = 0 then SDCARD_RWFAIL else SDCARD_OK, c))"

definition sd_clock_and_release :: "'c sd_host \<Rightarrow> 'c \<Rightarrow> 'c" where
  "sd_clock_and_release h c = snd (xchg h 0xff (deselect h c))"

text \<open>The polling loops: the counter is decremented before each exchange.\<close>

fun poll_loop :: "(u8 \<Rightarrow> bool) \<Rightarrow> 'c sd_host \<Rightarrow> nat \<Rightarrow> u8 \<Rightarrow> 'c \<Rightarrow> u8 \<times> 'c" where
  "poll_loop again h 0 b c = (b, c)"
| "poll_loop again h (Suc i) b c =
     (if again b \<and> i \<noteq> 0 then (case xchg h 0xff c of (b, c) \<Rightarrow> poll_loop again h i b c) else (b, c))"

definition sd_get :: "'c sd_host \<Rightarrow> 'c \<Rightarrow> u8 \<times> 'c" where
  "sd_get h c = poll_loop (\<lambda>b. b = 0xff) h 0xffff 0xff c"

definition sd_datatoken :: "'c sd_host \<Rightarrow> 'c \<Rightarrow> u8 \<times> 'c" where
  "sd_datatoken h c = poll_loop (\<lambda>b. b \<noteq> 0xfe) h 0x200 0xff c"

section \<open>Power up\<close>

text \<open>
  The two loops of \<^verbatim>\<open>sd_power\<close>: at most \<open>n\<close> rounds, stopped by the first answer that satisfies
  the break condition; the last answer is returned.
\<close>

fun go_idle :: "'c sd_host \<Rightarrow> nat \<Rightarrow> u8 \<Rightarrow> 'c \<Rightarrow> u8 \<times> 'c" where
  "go_idle h 0 response c = (response, c)"
| "go_idle h (Suc n) response c =
     (case sd_send_command h 0 0 0 c of (response, c) \<Rightarrow>
        case exchange h [0xff, 0xff] (deselect h c) of (_, c) \<Rightarrow>
          if response = 1 then (response, c) else go_idle h n response c)"

fun wait_active :: "'c sd_host \<Rightarrow> nat \<Rightarrow> u8 \<Rightarrow> 'c \<Rightarrow> u8 \<times> 'c" where
  "wait_active h 0 response c = (response, c)"
| "wait_active h (Suc n) response c =
     (case sd_send_command h 55 0 0 c of (_, c) \<Rightarrow>
        case xchg h 0xff (deselect h c) of (_, c) \<Rightarrow>
          case sd_send_command h 41 0 0 c of (response, c) \<Rightarrow>
            case xchg h 0xff (deselect h c) of (_, c) \<Rightarrow>
              if response \<noteq> 1 then (response, c) else wait_active h n response c)"

definition power_up :: "'c sd_host \<Rightarrow> 'c \<Rightarrow> u8 \<times> 'c" where
  "power_up h c =
     (case exchange h (replicate 10 0xff) (deselect h c) of (_, c) \<Rightarrow>
        case go_idle h 0xfe 0 c of (response, c) \<Rightarrow>
          if response \<noteq> 1 then (SDCARD_NO_DETECT, c)
          else (case wait_active h 0xfffe response c of (response, c) \<Rightarrow>
                  if response = 1 then (SDCARD_TIMEOUT, c) else (SDCARD_OK, c)))"

text \<open>
  When the callbacks are not all given, \<^verbatim>\<open>deselect\<close> or \<^verbatim>\<open>xchg\<close> is called through a null pointer.
  (The commands would not be sent either, as \<^verbatim>\<open>inited\<close> is then false.)
\<close>

definition sd_power :: "u8 \<Rightarrow> 'c sdcard \<Rightarrow> (u8 \<times> 'c sdcard) option" where
  "sd_power on s =
     (let c = (case cb_power (callbacks s) of Some p \<Rightarrow> p on (bus s) | None \<Rightarrow> bus s) in
      if on = 0 then Some (SDCARD_OK, s\<lparr>bus := c\<rparr>)
      else (case host_of (callbacks s) of
              None \<Rightarrow> None
            | Some h \<Rightarrow> case power_up h c of (r, c) \<Rightarrow> Some (r, s\<lparr>bus := c\<rparr>)))"

definition sd_register :: "'c SD_CALLBACKS \<Rightarrow> 'c sdcard \<Rightarrow> (u8 \<times> 'c sdcard) option" where
  "sd_register pcallbacks s =
     (let s = s\<lparr>callbacks := pcallbacks, inited := host_of pcallbacks \<noteq> None\<rparr> in
      if inited s then sd_power 1 s else Some (SDCARD_NOT_INITED, s))"

definition sd_configured :: "'c sdcard \<Rightarrow> u16" where
  "sd_configured s = (if inited s then SDCARD_OK else SDCARD_NOT_INITED)"

section \<open>Transfers\<close>

text \<open>
  The pattern of the transfers: nothing happens when the card is not registered, otherwise the
  body runs on the callbacks. The body's result comes with the data read.
\<close>

definition when_inited ::
    "('c sd_host \<Rightarrow> 'c \<Rightarrow> 'r::len word \<times> u8 list \<times> 'c) \<Rightarrow> 'c sdcard \<Rightarrow> ('r word \<times> u8 list \<times> 'c sdcard) option" where
  "when_inited body s =
     (if \<not> inited s then Some (SDCARD_NOT_INITED, [], s)
      else (case host_of (callbacks s) of
              None \<Rightarrow> None
            | Some h \<Rightarrow> case body h (bus s) of (r, bs, c) \<Rightarrow> Some (r, bs, s\<lparr>bus := c\<rparr>)))"

definition read_block :: "nat \<Rightarrow> 'c sd_host \<Rightarrow> 'c \<Rightarrow> u16 \<times> u8 list \<times> 'c" where
  "read_block n h c =
     (case sd_datatoken h c of (status, c) \<Rightarrow>
        if status \<noteq> 0xfe then (SDCARD_RWFAIL, [], sd_clock_and_release h c)
        else (case exchange h (replicate n 0xff) c of (bs, c) \<Rightarrow>
                case exchange h [0xff, 0xff] c of (_, c) \<Rightarrow>
                  (SDCARD_OK, bs, sd_clock_and_release h c)))"

definition sd_readcsd :: "'c sdcard \<Rightarrow> (u16 \<times> u8 list \<times> 'c sdcard) option" where
  "sd_readcsd =
     when_inited (\<lambda>h c. case sd_send_command h 9 0 0 c of (_, c) \<Rightarrow> read_block 16 h c)"

definition sd_readsector :: "u32 \<Rightarrow> 'c sdcard \<Rightarrow> (u16 \<times> u8 list \<times> 'c sdcard) option" where
  "sd_readsector lba =
     when_inited (\<lambda>h c.
       case sd_send_command h 17 (ucast (drop_bit 7 lba AND 0xffff)) (ucast (push_bit 9 lba AND 0xffff)) c of
         (_, c) \<Rightarrow> read_block 512 h c)"

text \<open>The loop that waits for the end of a write: the exchange comes first, then the counter.\<close>

fun busy_loop :: "'c sd_host \<Rightarrow> nat \<Rightarrow> 'c \<Rightarrow> 'c" where
  "busy_loop h 0 c = c"
| "busy_loop h (Suc i) c =
     (case xchg h 0xff c of (b, c) \<Rightarrow> if b = 0 \<and> i \<noteq> 0 then busy_loop h i c else c)"

definition sd_writesector :: "u32 \<Rightarrow> u8 list \<Rightarrow> 'c sdcard \<Rightarrow> (u16 \<times> u8 list \<times> 'c sdcard) option" where
  "sd_writesector lba buffer =
     when_inited (\<lambda>h c.
       case sd_send_command h 24 (ucast (drop_bit 7 lba AND 0xffff)) (ucast (push_bit 9 lba AND 0xffff)) c of
         (_, c) \<Rightarrow> case sd_response h 0 c of (r, c) \<Rightarrow>
           if r = SDCARD_RWFAIL then (SDCARD_RWFAIL, [], sd_clock_and_release h c)
           else (case exchange h (0xfe # take 512 buffer @ [0xff, 0xff]) c of (_, c) \<Rightarrow>
                   case xchg h 0xff c of (st, c) \<Rightarrow>
                     if st AND 0x0f \<noteq> 0x05 then (SDCARD_RWFAIL, [], c)
                     else (SDCARD_OK, [], sd_clock_and_release h (busy_loop h 0xffff c))))"

text \<open>At most 5000 exchanges, until the card answers 0xff.\<close>

fun ready_loop :: "'c sd_host \<Rightarrow> nat \<Rightarrow> 'c \<Rightarrow> u8 \<times> 'c" where
  "ready_loop h 0 c = (0, c)"
| "ready_loop h (Suc j) c =
     (case xchg h 0xff c of (i, c) \<Rightarrow> if i \<noteq> 0xff \<and> j \<noteq> 0 then ready_loop h j c else (i, c))"

definition sd_waitforready :: "'c sdcard \<Rightarrow> (u8 \<times> u8 list \<times> 'c sdcard) option" where
  "sd_waitforready =
     when_inited (\<lambda>h c.
       case xchg h 0xff (select h c) of (_, c) \<Rightarrow>
         case ready_loop h 5000 c of (i, c) \<Rightarrow>
           (if i = 0xff then SDCARD_OK else SDCARD_RWFAIL, [], sd_clock_and_release h c))"

end
