(* ===== verification/Sdcard_Card.thy ===== *)
theory Sdcard_Card
  imports Sdcard
begin

text \<open>
  What the SD card driver does with a card: the frames it sends, the contract of a card in SPI mode,
  the reads of a sector from every card that keeps it, and a simulated card that does.
\<close>

section \<open>The address of a sector\<close>

text \<open>The bytes of a 32 bit word, most significant first.\<close>

definition be_bytes :: "u32 \<Rightarrow> u8 list" where
  "be_bytes x = map (\<lambda>k. ucast (drop_bit (8 * k) x)) [3, 2, 1, 0]"

lemma frame_address:
  fixes lba :: u32
  defines "px \<equiv> ucast (drop_bit 7 lba AND 0xffff) :: u16"
  defines "py \<equiv> ucast (push_bit 9 lba AND 0xffff) :: u16"
  shows "[ucast (drop_bit 8 px), ucast (px AND 0xff), ucast (drop_bit 8 py), ucast (py AND 0xff)] =
    be_bytes (512 * lba)"
proof -
  have m: "(0xffff :: u32) = mask 16" "(0xff :: u16) = mask 8" by (simp_all add: mask_eq_exp_minus_1)
  have "512 * lba = push_bit 9 lba" by (simp add: push_bit_eq_mult)
  then show ?thesis
    unfolding px_def py_def be_bytes_def m by (auto simp: bit_eq_iff bit_simps)
qed

lemma frame_read:
  "command_frame 17 (ucast (drop_bit 7 lba AND 0xffff)) (ucast (push_bit 9 lba AND 0xffff)) =
   0xff # 0x51 # be_bytes (512 * lba) @ [0x95, 0xff]"
  using frame_address [of lba] by (simp add: command_frame_def)

lemma frame_write:
  "command_frame 24 (ucast (drop_bit 7 lba AND 0xffff)) (ucast (push_bit 9 lba AND 0xffff)) =
   0xff # 0x58 # be_bytes (512 * lba) @ [0x95, 0xff]"
  using frame_address [of lba] by (simp add: command_frame_def)

lemma exchange_append:
  "exchange h (vs @ ws) c =
     (case exchange h vs c of (r, c) \<Rightarrow> case exchange h ws c of (q, c) \<Rightarrow> (r @ q, c))"
  by (induction vs arbitrary: c) (auto split: prod.splits)

lemma exchange_length: "length (fst (exchange h vs c)) = length vs"
  by (induction vs arbitrary: c) (simp_all add: split_def)

lemma poll_until:
  assumes "exchange h (replicate n 0xff) c = (skipped, c1)" "list_all again skipped" "again b"
    "xchg h 0xff c1 = (b', c2)" "\<not> again b'" "n + 1 < i"
  shows "poll_loop again h i b c = (b', c2)"
  using assms
proof (induction n arbitrary: i b c skipped)
  case 0
  then obtain j where "i = Suc (Suc j)" by (metis add_0 less_imp_Suc_add One_nat_def add_Suc)
  then show ?case using 0 by simp
next
  case (Suc n)
  obtain j where i: "i = Suc j" "j \<noteq> 0" using Suc.prems(6) by (cases i) auto
  obtain r c' where x: "xchg h 0xff c = (r, c')" by fastforce
  obtain rs where rs: "exchange h (replicate n 0xff) c' = (rs, c1)" "skipped = r # rs"
    using Suc.prems(1) x by (auto split: prod.splits)
  show ?case using Suc.IH [OF rs(1), of r j] Suc.prems(2-6) i x rs(2) by simp
qed

lemma poll_never:
  assumes "exchange h (replicate n 0xff) c = (skipped, c1)" "list_all again skipped" "again b"
  shows "\<exists>b'. again b' \<and> poll_loop again h (Suc n) b c = (b', c1)"
  using assms
proof (induction n arbitrary: b c skipped)
  case (Suc n)
  obtain r c' where x: "xchg h 0xff c = (r, c')" by fastforce
  obtain rs where rs: "exchange h (replicate n 0xff) c' = (rs, c1)" "skipped = r # rs"
    using Suc.prems(1) x by (auto split: prod.splits)
  show ?case using Suc.IH [OF rs(1), of r] Suc.prems(2,3) x rs(2) by simp
qed simp

section \<open>Cards\<close>

text \<open>
  What an SD card does in SPI mode when it is asked for a block (SD specification, single block
  read): some bytes that are not the start token, the token 0xfe, the bytes of the block and a
  checksum. \<open>ready\<close> holds of the bus states in which a command may be sent, \<open>mem\<close> is the content
  of the card by byte address. A card that fails never sends the token.
\<close>

definition after_command :: "'c sd_host \<Rightarrow> u8 \<Rightarrow> u32 \<Rightarrow> 'c \<Rightarrow> 'c" where
  "after_command h cmd addr c = snd (exchange h (0xff # cmd # be_bytes addr @ [0x95, 0xff, 0xff]) (select h c))"

definition card_answers :: "'c sd_host \<Rightarrow> ('c \<Rightarrow> bool) \<Rightarrow> (nat \<Rightarrow> u8) \<Rightarrow> u32 \<Rightarrow> 'c \<Rightarrow> bool" where
  "card_answers h ready mem addr c \<longleftrightarrow>
     (\<exists>n skipped c1 c2 crc c3.
        exchange h (replicate n 0xff) (after_command h 0x51 addr c) = (skipped, c1) \<and> n < 0x1ff \<and>
        list_all (\<lambda>b. b \<noteq> 0xfe) skipped \<and> xchg h 0xff c1 = (0xfe, c2) \<and>
        exchange h (replicate 514 0xff) c2 = (map (\<lambda>i. mem (unat addr + i)) [0 ..< 512] @ crc, c3) \<and>
        ready (sd_clock_and_release h c3))"

definition card_fails :: "'c sd_host \<Rightarrow> ('c \<Rightarrow> bool) \<Rightarrow> u32 \<Rightarrow> 'c \<Rightarrow> bool" where
  "card_fails h ready addr c \<longleftrightarrow>
     (\<exists>skipped c1. exchange h (replicate 0x1ff 0xff) (after_command h 0x51 addr c) = (skipped, c1) \<and>
        list_all (\<lambda>b. b \<noteq> 0xfe) skipped \<and> ready (sd_clock_and_release h c1))"

definition sd_conforming :: "'c sd_host \<Rightarrow> ('c \<Rightarrow> bool) \<Rightarrow> (nat \<Rightarrow> u8) \<Rightarrow> bool" where
  "sd_conforming h ready mem \<longleftrightarrow>
     (\<forall>c addr. ready c \<longrightarrow> card_answers h ready mem addr c \<or> card_fails h ready addr c)"

lemma send_read_command:
  "snd (sd_send_command h 17 (ucast (drop_bit 7 lba AND 0xffff)) (ucast (push_bit 9 lba AND 0xffff)) c) =
   after_command h 0x51 (512 * lba) c"
proof -
  have "0xff # 0x51 # be_bytes (512 * lba) @ [0x95, 0xff, 0xff] =
      (0xff # 0x51 # be_bytes (512 * lba) @ [0x95, 0xff]) @ [0xff]" by simp
  then show ?thesis
    unfolding sd_send_command_def after_command_def frame_read
    by (simp only: exchange_append) (simp add: split_def)
qed

lemma read_block_answer:
  assumes "card_answers h ready mem (512 * lba) c"
  shows "\<exists>c'. read_block 512 h (after_command h 0x51 (512 * lba) c) =
     (SDCARD_OK, map (\<lambda>i. mem (unat (512 * lba) + i)) [0 ..< 512], sd_clock_and_release h c') \<and>
     ready (sd_clock_and_release h c')"
proof -
  let ?bs = "map (\<lambda>i. mem (unat (512 * lba) + i)) [0 ..< 512]"
  obtain n skipped c1 c2 crc c3 where
    c: "exchange h (replicate n 0xff) (after_command h 0x51 (512 * lba) c) = (skipped, c1)" "n < 0x1ff"
      "list_all (\<lambda>b. b \<noteq> 0xfe) skipped" "xchg h 0xff c1 = (0xfe, c2)"
      "exchange h (replicate 514 0xff) c2 = (?bs @ crc, c3)" "ready (sd_clock_and_release h c3)"
    using assms unfolding card_answers_def by blast
  have tok: "sd_datatoken h (after_command h 0x51 (512 * lba) c) = (0xfe, c2)"
    unfolding sd_datatoken_def by (rule poll_until [OF c(1)]) (use c in simp_all)
  obtain r1 m where x1: "exchange h (replicate 512 0xff) c2 = (r1, m)" by fastforce
  obtain r2 m2 where x2: "exchange h [0xff, 0xff] m = (r2, m2)" by fastforce
  have "replicate 514 (0xff :: u8) = replicate 512 0xff @ [0xff, 0xff]"
    using replicate_add [of 512 2 "0xff :: u8"] by (simp add: numeral_2_eq_2)
  then have "(r1 @ r2, m2) = (?bs @ crc, c3)"
    using c(5) x1 x2 by (simp add: exchange_append)
  moreover have "length r1 = 512" using exchange_length [of h "replicate 512 0xff" c2] x1 by simp
  ultimately have "r1 = ?bs" "m2 = c3" by auto
  then show ?thesis using tok x1 x2 c(6) by (auto simp: read_block_def)
qed

lemma read_block_fail:
  assumes "card_fails h ready (512 * lba) c"
  shows "\<exists>c'. read_block 512 h (after_command h 0x51 (512 * lba) c) =
     (SDCARD_RWFAIL, [], sd_clock_and_release h c') \<and> ready (sd_clock_and_release h c')"
proof -
  obtain skipped c1 where
    c: "exchange h (replicate 0x1ff 0xff) (after_command h 0x51 (512 * lba) c) = (skipped, c1)"
      "list_all (\<lambda>b. b \<noteq> 0xfe) skipped" "ready (sd_clock_and_release h c1)"
    using assms unfolding card_fails_def by blast
  obtain b' where "b' \<noteq> 0xfe" "sd_datatoken h (after_command h 0x51 (512 * lba) c) = (b', c1)"
    using poll_never [of h "0x1ff" "after_command h 0x51 (512 * lba) c" skipped c1 "\<lambda>b. b \<noteq> 0xfe" "0xff"] c(1,2)
    unfolding sd_datatoken_def by auto
  then show ?thesis using c(3) by (auto simp: read_block_def)
qed

lemma sd_readsector_reads:
  assumes conf: "sd_conforming h ready mem" and s: "inited s" "host_of (callbacks s) = Some h" "ready (bus s)"
  shows "\<exists>r bs s'. sd_readsector lba s = Some (r, bs, s') \<and> (\<exists>c. s' = s\<lparr>bus := c\<rparr> \<and> ready c) \<and>
    (r = SDCARD_OK \<and> bs = map (\<lambda>i. mem (unat (512 * lba) + i)) [0 ..< 512] \<or> r = SDCARD_RWFAIL \<and> bs = []) \<and>
    (card_answers h ready mem (512 * lba) (bus s) \<longrightarrow> r = SDCARD_OK)"
proof -
  define c1 where "c1 = after_command h 0x51 (512 * lba) (bus s)"
  have run: "sd_readsector lba s = (case read_block 512 h c1 of (r, bs, c) \<Rightarrow> Some (r, bs, s\<lparr>bus := c\<rparr>))"
    using s by (simp add: sd_readsector_def when_inited_def split_def send_read_command c1_def)
  show ?thesis
  proof (cases "card_answers h ready mem (512 * lba) (bus s)")
    case True
    then show ?thesis using read_block_answer [OF True, folded c1_def] run by auto
  next
    case False
    then have f: "card_fails h ready (512 * lba) (bus s)" using conf s(3) by (auto simp: sd_conforming_def)
    show ?thesis using read_block_fail [OF f, folded c1_def] run False by auto
  qed
qed

section \<open>A simulated card\<close>

text \<open>
  A card that is always ready: it collects the six bytes of a command, answers with a status byte
  after one byte of delay, and to a block read with the token, the block and a checksum. It leaves
  the idle state after \<open>sim_polls\<close> rounds of ACMD41.
\<close>

record sim_card =
  sim_in :: "u8 list"
  sim_out :: "u8 list"
  sim_polls :: nat

fun be_nat :: "u8 list \<Rightarrow> nat" where
  "be_nat bs = foldl (\<lambda>n b. 256 * n + unat b) 0 bs"

definition sim_reply :: "(nat \<Rightarrow> u8) \<Rightarrow> u8 list \<Rightarrow> nat \<Rightarrow> u8 list" where
  "sim_reply mem cmd polls =
     (if hd cmd = 0x51 then
        [0xff, 0x00, 0xff, 0xfe] @ map (\<lambda>i. mem (be_nat (take 4 (tl cmd)) + i)) [0 ..< 512] @ [0, 0]
      else if hd cmd \<in> {0x40, 0x77} then [0xff, 0x01]
      else if hd cmd = 0x69 then [0xff, if polls = 0 then 0x00 else 0x01]
      else [0xff, 0x04])"

definition sim_xchg :: "(nat \<Rightarrow> u8) \<Rightarrow> u8 \<Rightarrow> sim_card \<Rightarrow> u8 \<times> sim_card" where
  "sim_xchg mem v c =
     (case sim_out c of
        b # bs \<Rightarrow> (b, c\<lparr>sim_out := bs\<rparr>)
      | [] \<Rightarrow>
          if sim_in c = [] \<and> v = 0xff then (0xff, c)
          else if length (sim_in c) < 5 then (0xff, c\<lparr>sim_in := sim_in c @ [v]\<rparr>)
          else (0xff, \<lparr>sim_in = [], sim_out = sim_reply mem (sim_in c @ [v]) (sim_polls c),
                       sim_polls = (if hd (sim_in c) = 0x69 then sim_polls c - 1 else sim_polls c)\<rparr>))"

definition sim_host :: "(nat \<Rightarrow> u8) \<Rightarrow> sim_card sd_host" where
  "sim_host mem = \<lparr>select = (\<lambda>c. c), xchg = sim_xchg mem, deselect = (\<lambda>c. c\<lparr>sim_in := [], sim_out := []\<rparr>)\<rparr>"

definition sim_ready :: "sim_card \<Rightarrow> bool" where
  "sim_ready c \<longleftrightarrow> sim_in c = [] \<and> sim_out c = []"

lemma be_nat_bytes: "be_nat (be_bytes x) = unat x"
proof -
  have k: "unat (ucast (drop_bit k x) :: u8) = unat x div 2 ^ k mod 256" for k
    by (simp only: unat_ucast_32_8 unat_drop_bit)
  define n where "n = unat x"
  have "n < 4294967296" unfolding n_def by (rule unat_less_u32)
  then have "n div 16777216 mod 256 = n div 16777216" by simp
  moreover note bytes4 [of n]
  ultimately have "n = n mod 256 + 256 * (n div 256 mod 256 + 256 * (n div 65536 mod 256 + 256 * (n div 16777216 mod 256)))"
    by simp
  then show ?thesis using k [of 24] k [of 16] k [of 8] k [of 0]
    by (simp add: be_bytes_def n_def [symmetric])
qed

lemma exchange_sim_out:
  "exchange (sim_host mem) (replicate (length q) v) (c\<lparr>sim_out := q @ r\<rparr>) = (q, c\<lparr>sim_out := r\<rparr>)"
  by (induction q) (simp_all add: sim_host_def sim_xchg_def)


lemma sim_command:
  assumes "sim_ready c" "length ops = 4" "cmd \<noteq> 0xff"
  shows "snd (exchange (sim_host mem) (0xff # cmd # ops @ [0x95]) c) =
    \<lparr>sim_in = [], sim_out = sim_reply mem (cmd # ops @ [0x95]) (sim_polls c),
     sim_polls = (if cmd = 0x69 then sim_polls c - 1 else sim_polls c)\<rparr>"
proof -
  obtain a b e f where ops: "ops = [a, b, e, f]" using assms(2) by (auto simp: length_Suc_conv numeral_eq_Suc)
  show ?thesis using assms by (cases c) (simp add: ops sim_ready_def sim_host_def sim_xchg_def)
qed

lemma sim_conforming: "sim_ready c \<Longrightarrow> card_answers (sim_host mem) sim_ready mem addr c"
proof -
  assume r: "sim_ready c"
  let ?h = "sim_host mem"
  let ?data = "map (\<lambda>i. mem (unat addr + i)) [0 ..< 512]"
  let ?q = "\<lambda>q. \<lparr>sim_in = [], sim_out = q, sim_polls = sim_polls c\<rparr>"
  have out: "exchange ?h (replicate (length q) 0xff) (?q (q @ r)) = (q, ?q r)" for q r
    using exchange_sim_out [where mem = mem and q = q and v = "0xff" and c = "?q []" and r = r] by simp
  have "0xff # 0x51 # be_bytes addr @ [0x95, 0xff, 0xff] = (0xff # 0x51 # be_bytes addr @ [0x95]) @ [0xff, 0xff]"
    by simp
  moreover have "snd (exchange ?h (0xff # 0x51 # be_bytes addr @ [0x95]) c) =
      ?q ([0xff, 0x00, 0xff, 0xfe] @ ?data @ [0, 0])"
    by (subst sim_command [OF r]) (simp_all add: be_bytes_def sim_reply_def be_nat_bytes [unfolded be_bytes_def, simplified])
  moreover have "exchange ?h [0xff, 0xff] (?q ([0xff, 0x00, 0xff, 0xfe] @ ?data @ [0, 0])) =
      ([0xff, 0x00], ?q ([0xff, 0xfe] @ ?data @ [0, 0]))"
    by (simp add: sim_host_def sim_xchg_def)
  ultimately have c1: "after_command ?h 0x51 addr c = ?q ([0xff, 0xfe] @ ?data @ [0, 0])"
    unfolding after_command_def by (simp only: exchange_append) (simp add: split_def sim_host_def)
  have "exchange ?h (replicate 1 0xff) (after_command ?h 0x51 addr c) = ([0xff], ?q (0xfe # ?data @ [0, 0]))"
    unfolding c1 using out [of "[0xff]" "0xfe # ?data @ [0, 0]"] by simp
  moreover have "xchg ?h 0xff (?q (0xfe # ?data @ [0, 0])) = (0xfe, ?q (?data @ [0, 0]))"
    by (simp add: sim_host_def sim_xchg_def)
  moreover have "exchange ?h (replicate 514 0xff) (?q (?data @ [0, 0])) = (?data @ [0, 0], ?q [])"
    using out [of "?data @ [0, 0]" "[]"] by simp
  moreover have "sim_ready (sd_clock_and_release ?h (?q []))"
    by (simp add: sd_clock_and_release_def sim_host_def sim_xchg_def sim_ready_def)
  ultimately show ?thesis unfolding card_answers_def
    by (intro exI [of _ 1] exI [of _ "[0xff]"] exI conjI) (assumption | simp)+
qed

section \<open>Powering up\<close>

definition sim_callbacks :: "(nat \<Rightarrow> u8) \<Rightarrow> sim_card SD_CALLBACKS" where
  "sim_callbacks mem = \<lparr>cb_select = Some (select (sim_host mem)), cb_xchg = Some (xchg (sim_host mem)),
     cb_deselect = Some (deselect (sim_host mem)), cb_power = None\<rparr>"

lemma host_of_sim [simp]: "host_of (sim_callbacks mem) = Some (sim_host mem)"
  by (simp add: host_of_def sim_callbacks_def)

lemma sim_send:
  assumes "sim_ready c" "cmd OR 0x40 \<noteq> 0xff"
    "sim_reply mem [cmd OR 0x40, 0, 0, 0, 0, 0x95] (sim_polls c) = [0xff, r]"
  shows "sd_send_command (sim_host mem) cmd 0 0 c =
    (r, \<lparr>sim_in = [], sim_out = [], sim_polls = (if cmd OR 0x40 = 0x69 then sim_polls c - 1 else sim_polls c)\<rparr>)"
proof -
  have f: "command_frame cmd 0 0 = (0xff # (cmd OR 0x40) # [0, 0, 0, 0] @ [0x95]) @ [0xff]"
    by (simp add: command_frame_def)
  obtain q c1 where x: "exchange (sim_host mem) (0xff # (cmd OR 0x40) # [0, 0, 0, 0] @ [0x95]) c = (q, c1)"
    by (rule prod.exhaust)
  have c1: "c1 = \<lparr>sim_in = [], sim_out = [0xff, r],
      sim_polls = (if cmd OR 0x40 = 0x69 then sim_polls c - 1 else sim_polls c)\<rparr>"
    using sim_command [OF assms(1), of "[0, 0, 0, 0]" "cmd OR 0x40" mem, unfolded x snd_conv] assms(2,3) by simp
  have "select (sim_host mem) c = c" by (simp add: sim_host_def)
  then show ?thesis
    unfolding sd_send_command_def f exchange_append by (simp only: x prod.case) (simp add: c1 sim_host_def sim_xchg_def)
qed

lemma sim_release [simp]:
  "deselect (sim_host mem) \<lparr>sim_in = [], sim_out = [], sim_polls = p\<rparr> = \<lparr>sim_in = [], sim_out = [], sim_polls = p\<rparr>"
  "xchg (sim_host mem) 0xff \<lparr>sim_in = [], sim_out = [], sim_polls = p\<rparr> =
     (0xff, \<lparr>sim_in = [], sim_out = [], sim_polls = p\<rparr>)"
  by (simp_all add: sim_host_def sim_xchg_def)

lemma sim_go_idle:
  "go_idle (sim_host mem) (Suc n) r \<lparr>sim_in = [], sim_out = [], sim_polls = p\<rparr> =
     (1, \<lparr>sim_in = [], sim_out = [], sim_polls = p\<rparr>)"
  by (simp add: sim_send [where r = 1] sim_reply_def sim_ready_def)

lemma sim_wait_active:
  "wait_active (sim_host mem) n 1 \<lparr>sim_in = [], sim_out = [], sim_polls = p\<rparr> =
     (if p < n then 0 else 1, \<lparr>sim_in = [], sim_out = [], sim_polls = p - n\<rparr>)"
proof (induction n arbitrary: p)
  case (Suc n)
  have "sd_send_command (sim_host mem) 55 0 0 \<lparr>sim_in = [], sim_out = [], sim_polls = p\<rparr> =
      (1, \<lparr>sim_in = [], sim_out = [], sim_polls = p\<rparr>)"
    "sd_send_command (sim_host mem) 41 0 0 \<lparr>sim_in = [], sim_out = [], sim_polls = p\<rparr> =
      (if p = 0 then 0 else 1, \<lparr>sim_in = [], sim_out = [], sim_polls = p - 1\<rparr>)"
    by (simp_all add: sim_send [where r = 1] sim_send [where r = "if p = 0 then 0 else 1"] sim_reply_def sim_ready_def)
  then show ?case using Suc.IH [of "p - 1"] by (cases p) simp_all
qed simp

lemma sim_power_up:
  "power_up (sim_host mem) \<lparr>sim_in = [], sim_out = [], sim_polls = p\<rparr> =
     (if p < 0xfffe then SDCARD_OK else SDCARD_TIMEOUT, \<lparr>sim_in = [], sim_out = [], sim_polls = p - 0xfffe\<rparr>)"
proof -
  have x: "exchange (sim_host mem) (replicate n 0xff) \<lparr>sim_in = [], sim_out = [], sim_polls = p\<rparr> =
    (replicate n 0xff, \<lparr>sim_in = [], sim_out = [], sim_polls = p\<rparr>)" for n
    by (induction n) simp_all
  have g: "go_idle (sim_host mem) 0xfe 0 \<lparr>sim_in = [], sim_out = [], sim_polls = p\<rparr> =
     (1, \<lparr>sim_in = [], sim_out = [], sim_polls = p\<rparr>)"
    using sim_go_idle [of mem "0xfd" 0 p] by simp
  show ?thesis unfolding power_up_def sim_release x g prod.case sim_wait_active by simp
qed

section \<open>Chip select\<close>

text \<open>The callbacks of a host that also records whether the card is selected.\<close>

definition cs_host :: "'c sd_host \<Rightarrow> (bool \<times> 'c) sd_host" where
  "cs_host h =
     \<lparr>select = (\<lambda>(_, c). (True, select h c)),
      xchg = (\<lambda>v (cs, c). case xchg h v c of (r, c') \<Rightarrow> (r, (cs, c'))),
      deselect = (\<lambda>(_, c). (False, deselect h c))\<rparr>"

lemma cs_xchg [simp]: "fst (snd (xchg (cs_host h) v c)) = fst c"
  by (simp add: cs_host_def split_def)

lemma cs_select [simp]: "fst (select (cs_host h) c)" "\<not> fst (deselect (cs_host h) c)"
  by (simp_all add: cs_host_def split_def)

lemma cs_exchange [simp]: "fst (snd (exchange (cs_host h) vs c)) = fst c"
  by (induction vs arbitrary: c) (simp_all add: split_def)

lemma cs_release [simp]: "\<not> fst (sd_clock_and_release (cs_host h) c)"
  by (simp add: sd_clock_and_release_def)

lemma cs_send [simp]: "fst (snd (sd_send_command (cs_host h) cmd px py c))"
  by (simp add: sd_send_command_def split_def)

lemma cs_response [simp]: "fst (snd (sd_response (cs_host h) r c)) = fst c"
proof -
  have "fst (snd (sd_response_loop (cs_host h) r n c)) = fst c" for n
    by (induction n arbitrary: c) (simp_all add: split_def)
  then show ?thesis by (simp add: sd_response_def split_def)
qed

lemma cs_read_block [simp]: "\<not> fst (snd (snd (read_block n (cs_host h) c)))"
  by (simp add: read_block_def split_def)

lemma reads_release_select:
  assumes "inited s" "host_of (callbacks s) = Some (cs_host h)"
  shows "\<exists>r bs s'. sd_readsector lba s = Some (r, bs, s') \<and> \<not> fst (bus s')"
    "\<exists>r bs s'. sd_readcsd s = Some (r, bs, s') \<and> \<not> fst (bus s')"
    "\<exists>r bs s'. sd_waitforready s = Some (r, bs, s') \<and> \<not> fst (bus s')"
  using assms
  by (simp_all add: sd_readsector_def sd_readcsd_def sd_waitforready_def when_inited_def split_def)

lemma write_outcome:
  assumes "inited s" "host_of (callbacks s) = Some (cs_host h)"
  shows "\<exists>r s'. sd_writesector lba buf s = Some (r, [], s') \<and>
    (r = SDCARD_OK \<and> \<not> fst (bus s') \<or> r = SDCARD_RWFAIL)"
    "\<lbrakk>sd_response (cs_host h) 0 (snd (sd_send_command (cs_host h) 24 (ucast (drop_bit 7 lba AND 0xffff))
          (ucast (push_bit 9 lba AND 0xffff)) (bus s))) = (SDCARD_OK, c);
      fst (xchg (cs_host h) 0xff (snd (exchange (cs_host h) (0xfe # take 512 buf @ [0xff, 0xff]) c))) AND 0x0f \<noteq> 0x05\<rbrakk> \<Longrightarrow>
     \<exists>s'. sd_writesector lba buf s = Some (SDCARD_RWFAIL, [], s') \<and> fst (bus s')"
proof -
  show "\<exists>r s'. sd_writesector lba buf s = Some (r, [], s') \<and>
    (r = SDCARD_OK \<and> \<not> fst (bus s') \<or> r = SDCARD_RWFAIL)"
    using assms by (simp add: sd_writesector_def when_inited_def split_def)
  assume r: "sd_response (cs_host h) 0 (snd (sd_send_command (cs_host h) 24 (ucast (drop_bit 7 lba AND 0xffff))
          (ucast (push_bit 9 lba AND 0xffff)) (bus s))) = (SDCARD_OK, c)"
    and rej: "fst (xchg (cs_host h) 0xff (snd (exchange (cs_host h) (0xfe # take 512 buf @ [0xff, 0xff]) c))) AND 0x0f \<noteq> 0x05"
  have c: "fst c" using arg_cong [OF r, of "\<lambda>x. fst (snd x)"] by (simp del: exchange.simps)
  show "\<exists>s'. sd_writesector lba buf s = Some (SDCARD_RWFAIL, [], s') \<and> fst (bus s')"
    using assms r rej c by (simp add: sd_writesector_def when_inited_def split_def del: exchange.simps)
qed

end
