(* ===== verification/Pff_Diskio.thy ===== *)
theory Pff_Diskio
  imports Pff_Io Sdcard_Card
begin

text \<open>
  The disk functions of \<^verbatim>\<open>src/src/utils/petit_fat_fs/pff_diskio_brain_dead.c\<close> on top of the SD card
  driver, and the configuration of \<^verbatim>\<open>pff.h\<close>. On every conforming card they keep the contract
  \<open>disk_reader\<close> that the file system relies on, so what was proved of the file system holds on the
  card.
\<close>

section \<open>The disk functions\<close>

definition disk_initialize_bd :: "'c sdcard \<Rightarrow> u8 \<times> 'c sdcard" where
  "disk_initialize_bd s = (0, s)"

text \<open>
  The sector is read whole and the part asked for copied to the destination. (The driver calls
  no null callback when it is initialised, see \<open>sd_registered\<close>; that case is given the value of
  an error.)
\<close>

definition disk_readp_bd :: "bool \<Rightarrow> u32 \<Rightarrow> u16 \<Rightarrow> u16 \<Rightarrow> 'c sdcard \<Rightarrow> DRESULT \<times> u8 list \<times> 'c sdcard" where
  "disk_readp_bd dest sector sofs count s =
     (case sd_readsector sector s of
        None \<Rightarrow> (RES_ERROR, [], s)
      | Some (r, block, s) \<Rightarrow>
          if r \<noteq> SDCARD_OK then (RES_ERROR, [], s)
          else (RES_OK, take (unat count) (drop (unat sofs) block), s))"

definition disk_writep_bd :: "u8 list option \<Rightarrow> u32 \<Rightarrow> 'c sdcard \<Rightarrow> DRESULT \<times> 'c sdcard" where
  "disk_writep_bd buff sc s = (RES_NOTRDY, s)"

text \<open>The configuration options of \<^verbatim>\<open>pff.h\<close>: FAT12 and FAT16, code page 1.\<close>

definition pff_config :: "'c sdcard pff_env" where
  "pff_config =
     \<lparr>FS_FAT12_cfg = True, FS_FAT32_cfg = False, code_page_cfg = cp_1,
      disk_initialize = disk_initialize_bd, disk_readp = disk_readp_bd, disk_writep = disk_writep_bd\<rparr>"

section \<open>The card as a disk\<close>

lemma sd_registered:
  assumes "sd_register cb s = Some (r, s')"
  shows "inited s' \<longleftrightarrow> host_of (callbacks s') \<noteq> None"
  using assms
  by (auto simp: sd_register_def sd_power_def Let_def split: if_splits option.splits prod.splits)

definition sd_ok :: "'c sd_host \<Rightarrow> ('c \<Rightarrow> bool) \<Rightarrow> 'c sdcard \<Rightarrow> bool" where
  "sd_ok h ready s \<longleftrightarrow> inited s \<and> host_of (callbacks s) = Some h \<and> ready (bus s)"

definition sd_image :: "(nat \<Rightarrow> u8) \<Rightarrow> 'c sdcard \<Rightarrow> u32 \<Rightarrow> nat \<Rightarrow> u8" where
  "sd_image mem s sector i = mem (unat (512 * sector) + i)"

lemma disk_readp_bd_reads:
  assumes conf: "sd_conforming h ready mem" and s: "sd_ok h ready s"
    and cnt: "unat sofs + unat count \<le> 512" and r: "disk_readp_bd dest sector sofs count s = (dr, bs, s')"
  shows "sd_ok h ready s' \<and> sd_image mem s' = sd_image mem s \<and>
    (dr = RES_OK \<longrightarrow> bs = map (sd_image mem s sector) [unat sofs ..< unat sofs + unat count]) \<and>
    (card_answers h ready mem (512 * sector) (bus s) \<longrightarrow> dr = RES_OK)"
proof -
  have ok: "inited s" "host_of (callbacks s) = Some h" "ready (bus s)" using s by (auto simp: sd_ok_def)
  obtain q block s1 c where q: "sd_readsector sector s = Some (q, block, s1)" "s1 = s\<lparr>bus := c\<rparr>" "ready c"
    "q = SDCARD_OK \<and> block = map (\<lambda>i. mem (unat (512 * sector) + i)) [0 ..< 512] \<or> q = SDCARD_RWFAIL \<and> block = []"
    "card_answers h ready mem (512 * sector) (bus s) \<longrightarrow> q = SDCARD_OK"
    using sd_readsector_reads [OF conf ok, of sector] by blast
  have "take (unat count) (drop (unat sofs) (map (\<lambda>i. mem (unat (512 * sector) + i)) [0 ..< 512])) =
      map (sd_image mem s sector) [unat sofs ..< unat sofs + unat count]"
    using cnt by (simp add: drop_map take_map sd_image_def [abs_def])
  then show ?thesis using r q ok
    by (auto simp: disk_readp_bd_def sd_ok_def sd_image_def [abs_def] split: if_splits)
qed

lemma brain_dead_disk_reader:
  assumes "sd_conforming h ready mem"
  shows "disk_reader pff_config (sd_ok h ready) (sd_image mem)"
  by unfold_locales (use disk_readp_bd_reads [OF assms] in \<open>auto simp: pff_config_def\<close>)

lemma brain_dead_reliable:
  assumes "sd_conforming h ready mem" "\<And>c. ready c \<Longrightarrow> card_answers h ready mem (512 * sector) c"
  shows "reliable pff_config (sd_ok h ready) sector"
  unfolding reliable_def
proof (intro allI impI)
  fix d :: "'a sdcard" and ofs cnt :: u16
  assume d: "sd_ok h ready d \<and> 0 < unat cnt \<and> unat ofs + unat cnt \<le> 512"
  obtain dr bs s' where r: "disk_readp_bd True sector ofs cnt d = (dr, bs, s')" by (rule prod_cases3)
  have "ready (bus d)" using d by (simp add: sd_ok_def)
  then show "fst (disk_readp pff_config True sector ofs cnt d) = RES_OK"
    using disk_readp_bd_reads [OF assms(1) _ _ r] d assms(2) r by (simp add: pff_config_def)
qed

lemma sim_sd_conforming: "sd_conforming (sim_host mem) sim_ready mem"
  by (simp add: sd_conforming_def sim_conforming)

interpretation sim: disk_reader pff_config "sd_ok (sim_host mem) sim_ready" "sd_image mem" for mem
  by (rule brain_dead_disk_reader [OF sim_sd_conforming])

lemma sim_reliable: "reliable pff_config (sd_ok (sim_host mem) sim_ready) sector"
  by (rule brain_dead_reliable [OF sim_sd_conforming]) (rule sim_conforming)

end
