(* ===== verification/Pff_Properties.thy ===== *)
theory Pff_Properties
  imports Pff_Diskio
begin

text \<open>
  The properties of the file system: reading and seeking in files, the FAT and the clusters, and
  the code pages. A small volume on the simulated card shows that their hypotheses can hold.
\<close>

section \<open>A sample volume\<close>

text \<open>
  A small FAT12 volume on the simulated card: FAT in sector 1, data from sector 3 on, one sector
  per cluster, and an open file of 700 bytes in the clusters 2 and 3.
\<close>

definition sample_mem :: "nat \<Rightarrow> u8" where
  "sample_mem a = (if a = 515 then 3 else if a = 516 then 0xF0 else of_nat a)"

definition sample_fs :: FATFS where
  "sample_fs = \<lparr>fs_type = FS_FAT12, flag = FA_OPENED, csize = 1, n_rootdir = 16, n_fatent = 10,
     fatbase = 1, dirbase = 2, database = 3, fptr = 0, fsize = 700, org_clust = 2, curr_clust = 0, dsect = 0\<rparr>"

definition sample_pff :: "sim_card sdcard pff" where
  "sample_pff = \<lparr>FatFs = Some sample_fs,
     disk = \<lparr>inited = True, callbacks = sim_callbacks sample_mem,
             bus = \<lparr>sim_in = [], sim_out = [], sim_polls = 0\<rparr>\<rparr>\<rparr>"

lemma sample_fat: "fat_entry (sd_image sample_mem s) sample_fs 2 = 3"
  by (simp add: fat_entry_def flat_byte_def sd_image_def sample_mem_def sample_fs_def)

lemma sample_inv: "file_inv pff_config (sd_image sample_mem s) sample_fs [2, 3]"
proof -
  have "volume_ok pff_config sample_fs"
    by (simp add: volume_ok_def fat_ok_def pff_config_def sample_fs_def)
  moreover have "file_chain (sd_image sample_mem s) sample_fs [2, 3]"
    using sample_fat [of s] by (auto simp: file_chain_def cluster_bytes_def less_Suc_eq) (simp_all add: sample_fs_def)
  ultimately show ?thesis by (simp add: file_inv_def file_pos_def sample_fs_def)
qed

lemma sample_ok: "sd_ok (sim_host sample_mem) sim_ready (disk sample_pff)"
  by (simp add: sd_ok_def sample_pff_def sim_ready_def)

lemma sample_reliable: "volume_reliable pff_config (sd_ok (sim_host mem) sim_ready) fs"
  by (auto simp: volume_reliable_def sim_reliable list_all_iff)

section \<open>Reading and seeking\<close>

text \<open>
  (C1) Reading an open file delivers its content: whatever the disk does, as long as it keeps the
  contract, the bytes delivered are the bytes of the cluster chain at the file pointer, as many as
  reported, and the file pointer moves by that much. A successful read delivers the smaller of
  the count asked for and the rest of the file and keeps the file invariant; the only other result
  is a disk error, after which the file is closed. On a volume without read errors it succeeds.
\<close>

theorem pf_read_delivers_file:
  assumes "disk_reader E ok img" "ok (disk s)" "FatFs s = Some fs" "flag fs AND FA_OPENED \<noteq> 0"
    "file_inv E (img (disk s)) fs cs" "pf_read E True btr s = (res, br, out, s')"
  shows "ok (disk s') \<and> img (disk s') = img (disk s) \<and>
    out = take (unat br) (drop (unat (fptr fs)) (file_bytes (img (disk s)) fs cs)) \<and>
    (\<exists>fs'. FatFs s' = Some fs' \<and> unat (fptr fs') = unat (fptr fs) + unat br \<and>
       (if res = FR_OK
        then unat br = min (unat btr) (unat (fsize fs) - unat (fptr fs)) \<and>
             file_inv E (img (disk s)) fs' cs \<and>
             (\<exists>p c ds. fs' = fs\<lparr>fptr := p, curr_clust := c, dsect := ds\<rparr>)
        else res = FR_DISK_ERR \<and> flag fs' = 0)) \<and>
    (volume_reliable E ok fs \<longrightarrow> res = FR_OK)"
  using assms by (rule disk_reader.pf_read_ok)

theorem pf_read_delivers_file_witness:
  "\<exists>s'. pf_read pff_config True 3 sample_pff = (FR_OK, 3, [0, 1, 2], s')"
proof -
  let ?img = "sd_image sample_mem (disk sample_pff)"
  obtain res br out s' where r: "pf_read pff_config True 3 sample_pff = (res, br, out, s')"
    by (rule prod_cases4)
  have fs: "FatFs sample_pff = Some sample_fs" "flag sample_fs AND FA_OPENED \<noteq> 0"
    by (simp_all add: sample_pff_def sample_fs_def)
  note t = pf_read_delivers_file [OF sim.disk_reader_axioms sample_ok fs sample_inv r]
  have ok: "res = FR_OK" using t sample_reliable by blast
  then have b: "unat br = 3" using t by (auto simp: sample_fs_def)
  then have "br = 3" by (simp add: word_unat_eq_iff)
  moreover have "file_byte ?img sample_fs [2, 3] 0 = 0" "file_byte ?img sample_fs [2, 3] 1 = 1"
    "file_byte ?img sample_fs [2, 3] 2 = 2"
    by (simp_all add: file_byte_def cluster_sector_def cluster_bytes_def sd_image_def sample_mem_def sample_fs_def)
  moreover have "out = map (file_byte ?img sample_fs [2, 3]) [0 ..< 3]"
    using t b file_bytes_slice [of 0 3 sample_fs ?img "[2, 3]"] by (simp add: sample_fs_def)
  ultimately show ?thesis using r ok by (simp add: upt_rec numeral_2_eq_2)
qed

text \<open>
  (C2) A seek ends at the offset asked for, clipped to the size of the file, and keeps the file
  invariant, so that the next read continues there; it always returns. The only other result is a
  disk error, after which the file is closed.
\<close>

theorem pf_lseek_moves_pointer:
  assumes "disk_reader E ok img" "ok (disk s)" "FatFs s = Some fs" "flag fs AND FA_OPENED \<noteq> 0"
    "file_inv E (img (disk s)) fs cs"
  shows "\<exists>res s' fs'. pf_lseek E ofs s = Some (res, s') \<and> ok (disk s') \<and> img (disk s') = img (disk s) \<and>
    FatFs s' = Some fs' \<and> (volume_reliable E ok fs \<longrightarrow> res = FR_OK) \<and>
    (if res = FR_OK
     then unat (fptr fs') = min (unat ofs) (unat (fsize fs)) \<and> file_inv E (img (disk s)) fs' cs \<and>
          (\<exists>p c ds. fs' = fs\<lparr>fptr := p, curr_clust := c, dsect := ds\<rparr>)
     else res = FR_DISK_ERR \<and> flag fs' = 0)"
  using assms by (rule disk_reader.pf_lseek_ok)

theorem pf_lseek_moves_pointer_witness:
  "\<exists>s' fs'. pf_lseek pff_config 600 sample_pff = Some (FR_OK, s') \<and> FatFs s' = Some fs' \<and> unat (fptr fs') = 600"
proof -
  have fs: "FatFs sample_pff = Some sample_fs" "flag sample_fs AND FA_OPENED \<noteq> 0"
    by (simp_all add: sample_pff_def sample_fs_def)
  obtain res s' fs' where t: "pf_lseek pff_config 600 sample_pff = Some (res, s')" "FatFs s' = Some fs'"
    "res = FR_OK" "unat (fptr fs') = min (unat (600 :: u32)) (unat (fsize sample_fs))"
    using pf_lseek_moves_pointer [OF sim.disk_reader_axioms sample_ok fs sample_inv, of 600] sample_reliable
    by (metis (mono_tags, lifting))
  then show ?thesis by (simp add: sample_fs_def)
qed

section \<open>The FAT and the clusters\<close>

text \<open>
  (C16) \<^verbatim>\<open>get_fat\<close> returns the entry of the cluster in the FAT seen as one array of 12, 16 or 32 bit
  entries, also where a 12 bit entry crosses a sector boundary; every value but 1 it returns is
  that entry, and on a disk without read errors so is 1.
\<close>

theorem get_fat_returns_entry:
  assumes "disk_reader E ok img" "ok d" "fat_ok E fs" "get_fat E fs clst d = (r, d')"
  shows "ok d' \<and> img d' = img d \<and>
    (r \<noteq> 1 \<longrightarrow> 2 \<le> clst \<and> clst < n_fatent fs \<and> unat r = fat_entry (img d) fs (unat clst)) \<and>
    (2 \<le> clst \<and> clst < n_fatent fs \<and> list_all (reliable E ok) (entry_sectors fs (unat clst)) \<longrightarrow>
     unat r = fat_entry (img d) fs (unat clst))"
  using disk_reader.get_fat_entry [OF assms] by blast

theorem get_fat_returns_entry_witness:
  "\<exists>d'. get_fat pff_config sample_fs 2 (disk sample_pff) = (3, d')"
proof -
  obtain r d' where g: "get_fat pff_config sample_fs 2 (disk sample_pff) = (r, d')" by (rule prod.exhaust)
  have "fat_ok pff_config sample_fs" by (simp add: fat_ok_def pff_config_def sample_fs_def)
  from get_fat_returns_entry [OF sim.disk_reader_axioms sample_ok this g]
  have "unat r = fat_entry (sd_image sample_mem (disk sample_pff)) sample_fs (unat (2 :: u32))"
    using sim_reliable [of sample_mem] by (simp add: list_all_iff) (simp add: sample_fs_def)
  then have "r = 3" using sample_fat by (simp add: word_unat_eq_iff)
  then show ?thesis using g by simp
qed

text \<open>
  (C26) Different clusters of a volume are different sectors: \<^verbatim>\<open>clust2sect\<close> gives every cluster a
  range of \<^verbatim>\<open>csize\<close> sectors inside the data area, and the ranges do not overlap.
\<close>

theorem clust2sect_disjoint:
  assumes "volume_ok E fs" "2 \<le> c" "c < n_fatent fs" "2 \<le> c'" "c' < n_fatent fs" "c \<noteq> c'"
    "i < unat (csize fs)" "j < unat (csize fs)"
  shows "unat (database fs) \<le> unat (clust2sect E fs c) + i \<and>
    unat (clust2sect E fs c) + i < unat (database fs) + (unat (n_fatent fs) - 2) * unat (csize fs) \<and>
    unat (clust2sect E fs c) + i \<noteq> unat (clust2sect E fs c') + j"
proof -
  let ?n = "unat (csize fs)"
  have range: "2 \<le> unat c" "unat c < unat (n_fatent fs)" "2 \<le> unat c'" "unat c' < unat (n_fatent fs)" "unat c \<noteq> unat c'"
    using assms by (auto simp: word_le_nat_alt word_less_nat_alt word_unat_eq_iff)
  have sect: "unat (clust2sect E fs x) = unat (database fs) + (unat x - 2) * ?n"
    if "2 \<le> unat x" "unat x < unat (n_fatent fs)" for x
  proof -
    have "(unat x - 2) * ?n \<le> (unat (n_fatent fs) - 2) * ?n" using that by (intro mult_right_mono) auto
    moreover have "unat (database fs) + (unat (n_fatent fs) - 2) * ?n < 4294967296"
      using assms(1) by (simp add: volume_ok_def)
    ultimately have "unat (database fs) + (unat x - 2) * ?n < 4294967296" by linarith
    then show ?thesis
      unfolding clust2sect_sector(1) [OF assms(1) that] cluster_sector_def unat_of_nat by simp
  qed
  have "Suc (unat c - 2) \<le> unat (n_fatent fs) - 2" using range by linarith
  then have "(unat c - 2) * ?n + ?n \<le> (unat (n_fatent fs) - 2) * ?n"
    using mult_le_mono1 [of "Suc (unat c - 2)" "unat (n_fatent fs) - 2" ?n] by simp
  moreover have "(unat c - 2) * ?n + i \<noteq> (unat c' - 2) * ?n + j"
  proof
    assume eq: "(unat c - 2) * ?n + i = (unat c' - 2) * ?n + j"
    have "((unat c - 2) * ?n + i) div ?n = unat c - 2" "((unat c' - 2) * ?n + j) div ?n = unat c' - 2"
      using assms(7,8) by simp_all
    then have "unat c - 2 = unat c' - 2" using eq by simp
    then show False using range by linarith
  qed
  ultimately show ?thesis using sect range assms(7) by simp
qed

theorem clust2sect_disjoint_witness:
  "unat (clust2sect (pff_config :: sim_card sdcard pff_env) sample_fs 2) + 0 \<noteq> unat (clust2sect (pff_config :: sim_card sdcard pff_env) sample_fs 3) + 0"
proof -
  have "volume_ok (pff_config :: sim_card sdcard pff_env) sample_fs" by (simp add: volume_ok_def fat_ok_def pff_config_def sample_fs_def)
  from clust2sect_disjoint [OF this, of 2 3 0 0] show ?thesis by (simp add: sample_fs_def)
qed

section \<open>Code pages\<close>

definition cvt_special :: "u8 list \<Rightarrow> u8 list" where
  "cvt_special t = filter (\<lambda>c. c \<le> 0x20 \<or> c = 0x2E \<or> c = 0x2F \<or> IsLower c) t"

definition tables :: "u8 list list" where
  "tables = List.map_filter (\<lambda>(n, cp). EXCVT cp) code_pages"



end
