(* ===== verification/Pff_Mount.thy ===== *)
theory Pff_Mount
  imports Pff_Diskio
begin

text \<open>
  Mounting: the fields of a FAT boot sector, and that \<^verbatim>\<open>pf_mount\<close> takes the geometry of the volume
  from them; a mount that fails leaves no volume mounted.
\<close>

section \<open>Boot sectors\<close>

text \<open>The fields of a FAT boot sector, by the names of the FAT specification.\<close>

definition le16 :: "(nat \<Rightarrow> u8) \<Rightarrow> nat \<Rightarrow> nat" where
  "le16 b k = unat (b k) + 256 * unat (b (k + 1))"

definition le32 :: "(nat \<Rightarrow> u8) \<Rightarrow> nat \<Rightarrow> nat" where
  "le32 b k = unat (b k) + 256 * unat (b (k + 1)) + 65536 * unat (b (k + 2)) + 16777216 * unat (b (k + 3))"

definition SecPerClus :: "(nat \<Rightarrow> u8) \<Rightarrow> nat" where "SecPerClus b = unat (b 13)"
definition RsvdSecCnt :: "(nat \<Rightarrow> u8) \<Rightarrow> nat" where "RsvdSecCnt b = le16 b 14"
definition RootEntCnt :: "(nat \<Rightarrow> u8) \<Rightarrow> nat" where "RootEntCnt b = le16 b 17"
definition TotSec :: "(nat \<Rightarrow> u8) \<Rightarrow> nat" where "TotSec b = (if le16 b 19 = 0 then le32 b 32 else le16 b 19)"
definition FatArea :: "(nat \<Rightarrow> u8) \<Rightarrow> nat" where
  "FatArea b = (if le16 b 22 = 0 then le32 b 36 else le16 b 22) * unat (b 16)"
definition SysArea :: "(nat \<Rightarrow> u8) \<Rightarrow> nat" where
  "SysArea b = RsvdSecCnt b + FatArea b + RootEntCnt b div 16"
definition ClusterCount :: "(nat \<Rightarrow> u8) \<Rightarrow> nat" where
  "ClusterCount b = (TotSec b - SysArea b) div SecPerClus b"

text \<open>A boot sector of a FAT12 or FAT16 volume whose areas fit into the volume.\<close>

definition boot_sector :: "(nat \<Rightarrow> u8) \<Rightarrow> bool" where
  "boot_sector b \<longleftrightarrow>
     le16 b 510 = 0xAA55 \<and> le16 b 54 = 0x4146 \<and> SecPerClus b \<noteq> 0 \<and> SysArea b \<le> TotSec b \<and>
     ClusterCount b < 0xFFF5"

lemma unat_LD_map:
  assumes "k + 1 < n" shows "unat (LD_WORD (map f [a ..< a + n]) k) = le16 (\<lambda>i. f (a + i)) k"
  using assms by (simp add: unat_LD_WORD le16_def)

lemma unat_LDD_map:
  assumes "k + 3 < n" shows "unat (LD_DWORD (map f [a ..< a + n]) k) = le32 (\<lambda>i. f (a + i)) k"
  using assms by (simp add: unat_LD_DWORD le32_def)

lemma le_shift: "le16 (\<lambda>i. f (a + i)) k = le16 f (a + k)" "le32 (\<lambda>i. f (a + i)) k = le32 f (a + k)"
  by (simp_all add: le16_def le32_def add.assoc)

lemma load_bpb_ok:
  fixes b :: "nat \<Rightarrow> u8"
  assumes b: "boot_sector b" and cfg: "FS_FAT12_cfg E"
    and buf: "buf = map b [13 ..< 49]"
  shows "\<exists>fs'. load_bpb E 0 buf fs = Some (FR_OK, fs') \<and>
    unat (csize fs') = SecPerClus b \<and> unat (n_rootdir fs') = RootEntCnt b \<and>
    unat (n_fatent fs') = ClusterCount b + 2 \<and> unat (fatbase fs') = RsvdSecCnt b \<and>
    unat (dirbase fs') = RsvdSecCnt b + FatArea b \<and> unat (database fs') = SysArea b \<and> flag fs' = 0 \<and>
    fs_type fs' = (if ClusterCount b < 0xFF5 then FS_FAT12 else FS_FAT16)"
proof -
  have w: "unat (LD_WORD buf k) = le16 b (13 + k)" if "k < 35" for k
    using that unat_LD_map [of k 36 b 13] by (simp add: buf le_shift)
  have dw: "unat (LD_DWORD buf k) = le32 b (13 + k)" if "k < 33" for k
    using that unat_LDD_map [of k 36 b 13] by (simp add: buf le_shift)
  have by8: "buf ! k = b (13 + k)" if "k < 36" for k
    unfolding buf by (rule nth_map_upt) (use that in simp)
  define rsvd :: u32 where "rsvd = ucast (LD_WORD buf 1)"
  define root where "root = LD_WORD buf 4"
  have ts: "unat (bpb_tsect buf) = TotSec b"
    by (auto simp: bpb_tsect_def Let_def TotSec_def w dw word_unat_eq_iff)
  have tot: "TotSec b < 4294967296" using unat_less_u32 [of "bpb_tsect buf"] ts by simp
  have rs: "unat rsvd = RsvdSecCnt b" by (simp add: rsvd_def w RsvdSecCnt_def)
  have ro: "unat root = RootEntCnt b" by (simp add: root_def w RootEntCnt_def)
  have fa: "unat (bpb_fsize buf) = FatArea b"
  proof -
    have "FatArea b < 4294967296" using b tot by (simp add: boot_sector_def SysArea_def)
    then show ?thesis
      by (auto simp: bpb_fsize_def Let_def FatArea_def w dw by8 word_unat_eq_iff unat_times_u32 split: if_splits)
  qed
  have sys: "SysArea b \<le> TotSec b" using b by (simp add: boot_sector_def)
  have "unat (bpb_tsect buf - rsvd - bpb_fsize buf - ucast (root div 16)) = TotSec b - SysArea b"
    using sys ts rs fa ro
    by (simp add: unat_minus_le word_le_nat_alt SysArea_def unat_div_distrib)
  then have q: "unat ((bpb_tsect buf - rsvd - bpb_fsize buf - ucast (root div 16)) div ucast (buf ! 0)) = ClusterCount b"
    by (simp add: unat_div_distrib by8 ClusterCount_def SecPerClus_def)
  define mclst where "mclst = bpb_mclst buf"
  have cc: "ClusterCount b < 0xFFF5" using b by (simp add: boot_sector_def)
  have m: "unat mclst = ClusterCount b + 2" using q cc by (simp add: mclst_def bpb_mclst_def rsvd_def root_def unat_plus_u32)
  have c0: "buf ! 0 \<noteq> 0" using b by8 [of 0] by (auto simp: boot_sector_def SecPerClus_def)
  have c1: "\<not> 0xFFF7 \<le> mclst" using m cc by (simp add: word_le_nat_alt)
  have c2: "mclst < 0xFF7 \<longleftrightarrow> ClusterCount b < 0xFF5" using m by (auto simp: word_less_nat_alt)
  define fs' where "fs' = fs\<lparr>fatbase := rsvd, csize := buf ! 0, n_rootdir := root, n_fatent := CLUST E mclst,
     fs_type := (if mclst < 0xFF7 then FS_FAT12 else FS_FAT16), dirbase := rsvd + bpb_fsize buf,
     database := rsvd + bpb_fsize buf + ucast (root div 16), flag := 0\<rparr>"
  have "load_bpb E 0 buf fs = Some (FR_OK, fs')"
    using c0 c1 cfg by (simp add: load_bpb_def Let_def fs'_def mclst_def rsvd_def root_def)
  moreover have "unat (CLUST E mclst) = ClusterCount b + 2"
    using m cc by (simp add: CLUST_def unat_ucast_32_16)
  ultimately show ?thesis
    using rs fa ro sys tot c2 by8 [of 0]
    by (auto simp: fs'_def SecPerClus_def SysArea_def unat_plus_u32 unat_div_distrib intro!: exI [of _ fs'])
qed

context disk_reader
begin

lemma reliable_read:
  assumes "ok d" "reliable E ok s" "0 < unat cnt" "unat ofs + unat cnt \<le> 512"
  obtains d' where "disk_readp E True s ofs cnt d = (RES_OK, map (image d s) [unat ofs ..< unat ofs + unat cnt], d')"
    "ok d'" "image d' = image d"
proof -
  obtain dr bs d' where r: "disk_readp E True s ofs cnt d = (dr, bs, d')" by (rule prod_cases3)
  have "dr = RES_OK" using reliableD [OF assms(2) r assms(1,3,4)] .
  then show ?thesis using readp [OF assms(1,3,4) r] r that by simp
qed

lemma find_boot_sfd:
  assumes d: "ok d" and rel: "reliable E ok 0" and b: "boot_sector (image d 0)"
  obtains d' where "find_boot E d = (0, 0, d')" "ok d'" "image d' = image d"
proof -
  obtain d1 where d1: "disk_readp E True 0 510 2 d = (RES_OK, map (image d 0) [510 ..< 512], d1)" "ok d1" "image d1 = image d"
    using reliable_read [OF d rel, of 2 510] by (auto simp del: upt.simps)
  obtain d2 where d2: "disk_readp E True 0 54 2 d1 = (RES_OK, map (image d 0) [54 ..< 56], d2)" "ok d2" "image d2 = image d"
    using reliable_read [OF d1(2) rel, of 2 54] d1(3) by (auto simp del: upt.simps)
  have "unat (LD_WORD (map (image d 0) [510 ..< 512]) 0) = 0xAA55" "unat (LD_WORD (map (image d 0) [54 ..< 56]) 0) = 0x4146"
    using b unat_LD_map [of 0 2 "image d 0" 510] unat_LD_map [of 0 2 "image d 0" 54]
    by (simp_all add: boot_sector_def le_shift)
  then have "LD_WORD (map (image d 0) [510 ..< 512]) 0 = 0xAA55" "LD_WORD (map (image d 0) [54 ..< 56]) 0 = 0x4146"
    by (simp_all add: word_unat_eq_iff)
  then have "check_fs E 0 d = (0, d2)"
    using d1(1) d2(1) by (simp add: check_fs_def)
  then show ?thesis using that d2 by (simp add: find_boot_def)
qed

lemma pf_mount_ok:
  fixes s :: "'d pff"
  assumes init: "disk_initialize E (disk s) = (st, d0)" "st AND STA_NOINIT = 0" "ok d0"
    and rel: "reliable E ok 0" and b: "boot_sector (image d0 0)" and cfg: "FS_FAT12_cfg E"
  shows "\<exists>fs' s'. pf_mount E (Some fs) s = Some (FR_OK, Some fs', s') \<and> FatFs s' = Some fs' \<and>
    ok (disk s') \<and> image (disk s') = image d0 \<and>
    unat (csize fs') = SecPerClus (image d0 0) \<and> unat (n_rootdir fs') = RootEntCnt (image d0 0) \<and>
    unat (n_fatent fs') = ClusterCount (image d0 0) + 2 \<and> unat (fatbase fs') = RsvdSecCnt (image d0 0) \<and>
    unat (dirbase fs') = RsvdSecCnt (image d0 0) + FatArea (image d0 0) \<and>
    unat (database fs') = SysArea (image d0 0) \<and> flag fs' = 0 \<and>
    fs_type fs' = (if ClusterCount (image d0 0) < 0xFF5 then FS_FAT12 else FS_FAT16)"
proof -
  obtain d1 where d1: "find_boot E d0 = (0, 0, d1)" "ok d1" "image d1 = image d0"
    by (rule find_boot_sfd [OF init(3) rel b])
  obtain d2 where d2: "disk_readp E True 0 13 36 d1 = (RES_OK, map (image d0 0) [13 ..< 49], d2)" "ok d2" "image d2 = image d0"
    using reliable_read [OF d1(2) rel, of 36 13] d1(3) by (auto simp del: upt.simps)
  obtain fs' where "load_bpb E 0 (map (image d0 0) [13 ..< 49]) fs = Some (FR_OK, fs')" and
    "unat (csize fs') = SecPerClus (image d0 0)" "unat (n_rootdir fs') = RootEntCnt (image d0 0)"
    "unat (n_fatent fs') = ClusterCount (image d0 0) + 2" "unat (fatbase fs') = RsvdSecCnt (image d0 0)"
    "unat (dirbase fs') = RsvdSecCnt (image d0 0) + FatArea (image d0 0)"
    "unat (database fs') = SysArea (image d0 0)" "flag fs' = 0"
    "fs_type fs' = (if ClusterCount (image d0 0) < 0xFF5 then FS_FAT12 else FS_FAT16)"
    using load_bpb_ok [OF b cfg refl, of fs] by blast
  moreover from this(1) have "pf_mount E (Some fs) s = Some (FR_OK, Some fs', s\<lparr>FatFs := Some fs', disk := d2\<rparr>)"
    using init d1 d2 by (simp add: pf_mount_def Let_def del: upt.simps)
  ultimately show ?thesis using d2(2,3) by (auto intro!: exI [of _ fs'])
qed

end

section \<open>Properties\<close>

lemma mounted_volume_ok:
  assumes b: "boot_sector b" and c: "SecPerClus b \<in> {1, 2, 4, 8, 16, 32, 64, 128}" and s: "0 < SysArea b"
    and cfg: "FS_FAT12_cfg E" and t: "TotSec b < 4294967296"
    and fs: "unat (csize fs) = SecPerClus b" "unat (n_fatent fs) = ClusterCount b + 2" "unat (database fs) = SysArea b"
      "fs_type fs = (if ClusterCount b < 0xFF5 then FS_FAT12 else FS_FAT16)"
  shows "volume_ok E fs"
proof -
  have "ClusterCount b < 0xFFF5" "SysArea b \<le> TotSec b" using b by (simp_all add: boot_sector_def)
  moreover have "ClusterCount b * SecPerClus b \<le> TotSec b - SysArea b" unfolding ClusterCount_def by simp
  moreover have "csize fs \<in> {1, 2, 4, 8, 16, 32, 64, 128}" using c fs(1) by (simp add: word_unat_eq_iff)
  ultimately show ?thesis
    using fs s cfg t by (auto simp: volume_ok_def fat_ok_def word_le_nat_alt word_less_nat_alt)
qed

lemma TotSec_bound: "TotSec b < 4294967296"
proof -
  have "unat (b k) < 256" for k by (rule unat_less_u8)
  from this [of 32] this [of 33] this [of 34] this [of 35] this [of 19] this [of 20]
  show ?thesis by (simp add: TotSec_def le16_def le32_def)
qed


text \<open>The boot sector of a volume of 100 sectors: one FAT of one sector, 16 entries in the root directory.\<close>

definition boot_mem :: "nat \<Rightarrow> u8" where
  "boot_mem a = (if a \<in> {13, 14, 16, 22} then 1 else if a = 17 then 16 else if a = 19 then 100 else
     if a = 54 then 0x46 else if a = 55 then 0x41 else if a = 510 then 0x55 else if a = 511 then 0xAA else 0)"

definition boot_pff :: "sim_card sdcard pff" where
  "boot_pff = \<lparr>FatFs = None, disk = \<lparr>inited = True, callbacks = sim_callbacks boot_mem,
     bus = \<lparr>sim_in = [], sim_out = [], sim_polls = 0\<rparr>\<rparr>\<rparr>"

definition blank_fs :: FATFS where
  "blank_fs = \<lparr>fs_type = 0, flag = 0, csize = 0, n_rootdir = 0, n_fatent = 0, fatbase = 0, dirbase = 0,
     database = 0, fptr = 0, fsize = 0, org_clust = 0, curr_clust = 0, dsect = 0\<rparr>"


text \<open>
  (C27) A mount that fails, or that is asked to unmount, leaves no volume mounted: every file
  operation after it returns \<^verbatim>\<open>FR_NOT_ENABLED\<close> and touches neither the disk nor the state.
\<close>

theorem failed_mount_disables:
  assumes "pf_mount E fso s = Some (res, fso', s')" "res \<noteq> FR_OK \<or> fso = None"
  shows "FatFs s' = None \<and> pf_open E path s' = Some (FR_NOT_ENABLED, s') \<and>
    pf_read E buff btr s' = (FR_NOT_ENABLED, 0, [], s') \<and> pf_lseek E ofs s' = Some (FR_NOT_ENABLED, s') \<and>
    pf_write E wbuff btw s' = (FR_NOT_ENABLED, 0, s')"
proof -
  have "FatFs s' = None"
    using assms by (auto simp: pf_mount_def Let_def split: option.splits prod.splits if_splits)
  then show ?thesis by (simp add: pf_open_def pf_read_def pf_lseek_def pf_write_def)
qed

theorem failed_mount_disables_witness:
  "\<exists>s'. pf_mount pff_config None boot_pff = Some (FR_OK, None, s') \<and> pf_lseek pff_config 5 s' = Some (FR_NOT_ENABLED, s')"
proof -
  have m: "pf_mount pff_config None boot_pff = Some (FR_OK, None, boot_pff)"
    by (simp add: pf_mount_def boot_pff_def)
  show ?thesis using failed_mount_disables [OF m] m by blast
qed

end
