(* ===== verification/Pff_Names.thy ===== *)
theory Pff_Names
  imports Pff_Diskio
begin

text \<open>
  Names in directories: what \<^verbatim>\<open>create_name\<close> makes of a path segment that is a name of up to eight
  characters and an extension of up to three, and that \<^verbatim>\<open>get_fileinfo\<close> turns the directory entry
  back into it.
\<close>

section \<open>Short names\<close>

text \<open>
  A character of a name, the field of a directory entry filled up with blanks, and the segment of
  a path that is a base name and an extension.
\<close>

definition name_char :: "u8 \<Rightarrow> bool" where
  "name_char c \<longleftrightarrow> 0x20 < c \<and> c \<noteq> 0x2E \<and> c \<noteq> 0x2F"

definition pad :: "nat \<Rightarrow> u8 list \<Rightarrow> u8 list" where
  "pad n xs = xs @ replicate (n - length xs) 0x20"

definition segment :: "u8 list \<Rightarrow> u8 list \<Rightarrow> u8 list" where
  "segment base ext = base @ (if ext = [] then [] else 0x2E # ext)"

definition short_name :: "u8 list \<Rightarrow> u8 list \<Rightarrow> bool" where
  "short_name base ext \<longleftrightarrow> length base \<le> 8 \<and> length ext \<le> 3 \<and> list_all name_char (base @ ext)"

definition overwrite :: "u8 list \<Rightarrow> nat \<Rightarrow> u8 list \<Rightarrow> u8 list" where
  "overwrite sfn i xs = take i sfn @ xs @ drop (i + length xs) sfn"

lemma overwrite_Cons:
  assumes "i + length (x # xs) \<le> length sfn"
  shows "overwrite (sfn[i := x]) (i + 1) xs = overwrite sfn i (x # xs)"
  using assms by (auto simp: overwrite_def take_Suc_conv_app_nth drop_update_cancel take_update_swap upd_conv_take_nth_drop add.commute)

lemma mem_set_eq: "n \<le> length dst \<Longrightarrow> mem_set dst v n = replicate n v @ drop n dst"
  by (induction dst v n rule: mem_set.induct) auto

lemma length_pad [simp]: "length xs \<le> n \<Longrightarrow> length (pad n xs) = n"
  by (simp add: pad_def)

lemma create_name_chars:
  "\<lbrakk>list_all name_char bs; i + length bs \<le> ni; ni \<le> length sfn; p = pre @ bs @ rest\<rbrakk> \<Longrightarrow>
   create_name_loop cp_1 p (length pre) i ni sfn =
   create_name_loop cp_1 p (length pre + length bs) (i + length bs) ni (overwrite sfn i (map toupper bs))"
proof (induction bs arbitrary: pre i sfn)
  case Nil
  then show ?case by (simp add: overwrite_def)
next
  case (Cons b bs)
  have b: "path_at p (length pre) = Some b" "\<not> b \<le> 0x20" "b \<noteq> 0x2E" "b \<noteq> 0x2F"
    using Cons.prems by (auto simp: path_at_def name_char_def)
  have cp: "excvt cp_1 b = b" "\<not> IsDBCS1 cp_1 b"
    by (simp_all add: excvt_def cp_1_def IsDBCS1_def in_ranges_def)
  have "create_name_loop cp_1 p (length pre) i ni sfn =
      create_name_loop cp_1 p (length (pre @ [b])) (i + 1) ni (sfn[i := toupper b])"
    using b cp Cons.prems by (subst create_name_loop.simps) simp
  also have "\<dots> = create_name_loop cp_1 p (length (pre @ [b]) + length bs) (i + 1 + length bs) ni
      (overwrite (sfn[i := toupper b]) (i + 1) (map toupper bs))"
    using Cons.prems by (intro Cons.IH) simp_all
  also have "\<dots> = create_name_loop cp_1 p (length pre + length (b # bs)) (i + length (b # bs)) ni
      (overwrite sfn i (map toupper (b # bs)))"
    using Cons.prems overwrite_Cons [of i "toupper b" "map toupper bs" sfn] by (simp add: add.assoc)
  finally show ?case .
qed

lemma create_name_stop:
  assumes "path_at p k = Some c" "c \<le> 0x20 \<or> c = 0x2F"
  shows "create_name_loop cp p k i ni sfn = Some (c, k + 1, sfn)"
  using assms by (subst create_name_loop.simps) auto

lemma create_name_dot:
  assumes "path_at p k = Some 0x2E"
  shows "create_name_loop cp p k i 8 sfn = create_name_loop cp p (k + 1) 8 11 sfn"
  using assms by (subst create_name_loop.simps) auto

lemma create_name_short:
  assumes cfg: "code_page_cfg E = cp_1" and n: "short_name base ext" and fn: "length (fn dj) = 12"
    and p: "path = segment base ext @ rest"
    and e: "rest = [] \<and> c = 0 \<or> (\<exists>r. rest = c # r \<and> (c \<le> 0x20 \<or> c = 0x2F))"
  shows "create_name E dj path = Some (FR_OK,
     dj\<lparr>fn := pad 8 (map toupper base) @ pad 3 (map toupper ext) @ [if c \<le> 0x20 then 1 else 0]\<rparr>, tl rest)"
proof -
  have len: "length base \<le> 8" "length ext \<le> 3" "list_all name_char base" "list_all name_char ext"
    using n by (auto simp: short_name_def)
  have "length (drop 11 (fn dj)) = 1" using fn by simp
  then obtain x where "drop 11 (fn dj) = [x]" by (metis length_0_conv length_Suc_conv One_nat_def)
  then have sfn: "mem_set (fn dj) 0x20 11 = replicate 11 0x20 @ [x]" using fn by (subst mem_set_eq) simp_all
  have stop: "path_at path (length (segment base ext)) = Some c" "c \<le> 0x20 \<or> c = 0x2F"
    using e by (auto simp: p path_at_def nth_append)
  define sfn1 where "sfn1 = overwrite (replicate 11 0x20 @ [x]) 0 (map toupper base)"
  have "replicate (11 - length base) (0x20 :: u8) = replicate (8 - length base) 0x20 @ replicate 3 0x20"
    using len by (simp flip: replicate_add)
  then have sfn1: "sfn1 = pad 8 (map toupper base) @ replicate 3 0x20 @ [x]"
    using len by (simp add: sfn1_def overwrite_def pad_def del: replicate.simps)
  have l1: "create_name_loop cp_1 path 0 0 8 (replicate 11 0x20 @ [x]) =
      create_name_loop cp_1 path (length base) (length base) 8 sfn1"
    using create_name_chars [OF len(3), of 0 8 "replicate 11 0x20 @ [x]" path "[]"] len p
    by (simp add: sfn1_def segment_def)
  have l2: "create_name_loop cp_1 path (length base) (length base) 8 sfn1 =
      Some (c, length (segment base ext) + 1, pad 8 (map toupper base) @ pad 3 (map toupper ext) @ [x])"
  proof (cases "ext = []")
    case True
    then show ?thesis using create_name_stop [OF stop] by (simp add: segment_def sfn1 pad_def)
  next
    case False
    have "path_at path (length base) = Some 0x2E" using False by (simp add: p segment_def path_at_def)
    from create_name_dot [OF this]
    have "create_name_loop cp_1 path (length base) (length base) 8 sfn1 =
        create_name_loop cp_1 path (length (base @ [0x2E])) 8 11 sfn1" by simp
    also have "\<dots> = create_name_loop cp_1 path (length (base @ [0x2E]) + length ext) (8 + length ext) 11
        (overwrite sfn1 8 (map toupper ext))"
      using len False p by (intro create_name_chars) (simp_all add: sfn1 pad_def segment_def)
    also have "overwrite sfn1 8 (map toupper ext) = pad 8 (map toupper base) @ pad 3 (map toupper ext) @ [x]"
      using len by (simp add: overwrite_def sfn1 pad_def [of 3] del: replicate.simps)
    finally show ?thesis using create_name_stop [OF stop] False by (simp add: segment_def)
  qed
  have upd: "(pad 8 (map toupper base) @ pad 3 (map toupper ext) @ [x])[11 := v] =
      pad 8 (map toupper base) @ pad 3 (map toupper ext) @ [v]" for v
    using len by (simp add: list_update_append)
  show ?thesis using l1 l2 cfg sfn e by (auto simp: create_name_def Let_def p upd)
qed

lemma name_char_toupper: "name_char c \<Longrightarrow> name_char (toupper c)"
proof -
  assume c: "name_char c"
  show ?thesis
  proof (cases "IsLower c")
    case True
    then have u: "0x61 \<le> unat c" "unat c \<le> 0x7A" by (simp_all add: IsLower_def word_le_nat_alt)
    then have "unat (c - 0x20) = unat c - 0x20" by (simp add: unat_minus_le word_le_nat_alt)
    then show ?thesis using True u by (auto simp add: toupper_def name_char_def word_less_nat_alt word_unat_eq_iff)
  qed (use c in \<open>simp add: toupper_def\<close>)
qed

lemma takeWhile_pad: "list_all name_char xs \<Longrightarrow> takeWhile (\<lambda>c. c \<noteq> 0x20) (pad n xs) = xs"
proof -
  assume "list_all name_char xs"
  then have "\<forall>c \<in> set xs. c \<noteq> 0x20" by (auto simp: list_all_iff name_char_def)
  then show ?thesis by (cases "n - length xs") (simp_all add: pad_def)
qed

lemma get_fileinfo_name:
  assumes b: "list_all name_char B" "length B \<le> 8" and x: "list_all name_char X" "length X \<le> 3"
    and dir: "take 11 dir = pad 8 B @ pad 3 X" "length dir = 32" and s: "sect dj \<noteq> 0"
  shows "fname (get_fileinfo dj dir fno) = segment B X @ 0 # drop (length (segment B X) + 1) (fname fno)"
proof -
  have t8: "take 8 dir = pad 8 B"
    using arg_cong [OF dir(1), of "take 8"] b by simp
  have t3: "take 3 (drop 8 dir) = pad 3 X"
    using arg_cong [OF dir(1), of "drop 8"] b by (simp add: drop_take)
  have d8: "dir ! 8 \<noteq> 0x20 \<longleftrightarrow> X \<noteq> []"
  proof -
    have "dir ! 8 = take 3 (drop 8 dir) ! 0" using dir(2) by simp
    then have "dir ! 8 = pad 3 X ! 0" by (simp only: t3)
    then show ?thesis using x by (cases X) (auto simp: pad_def name_char_def)
  qed
  have id: "map (\<lambda>c. if c = 0x05 then 0xE5 else c) B = B"
    using b(1) by (intro map_idI) (auto simp: list_all_iff name_char_def)
  show ?thesis
    using s by (simp add: get_fileinfo_def t8 t3 d8 takeWhile_pad b x id segment_def Let_def)
qed

section \<open>Properties\<close>

text \<open>
  (C4) A path segment that is a short name (up to eight characters, a dot and up to three more)
  is split off the path whole, and the upper case form of the name is what \<^verbatim>\<open>get_fileinfo\<close>
  reads back from a directory entry that holds the eleven bytes \<^verbatim>\<open>create_name\<close> made of it.
\<close>

theorem short_name_roundtrip:
  assumes cfg: "code_page_cfg E = cp_1" and n: "short_name base ext" and fn: "length (fn dj) = 12"
    and e: "rest = [] \<or> hd rest \<le> 0x20 \<or> hd rest = 0x2F"
  shows "\<exists>dj'. create_name E dj (segment base ext @ rest) = Some (FR_OK, dj', tl rest) \<and>
    (fn dj' ! 11 = 1 \<longleftrightarrow> rest = [] \<or> hd rest \<le> 0x20) \<and>
    (\<forall>dir d fno. length dir = 32 \<and> take 11 dir = take 11 (fn dj') \<and> sect d \<noteq> 0 \<longrightarrow>
       takeWhile (\<lambda>c. c \<noteq> 0) (fname (get_fileinfo d dir fno)) = segment (map toupper base) (map toupper ext))"
proof -
  define c where "c = (case rest of [] \<Rightarrow> 0 | c # _ \<Rightarrow> c)"
  let ?B = "map toupper base" and ?X = "map toupper ext"
  have up: "list_all name_char ?B" "length ?B \<le> 8" "list_all name_char ?X" "length ?X \<le> 3"
    using n by (auto simp: short_name_def list_all_iff name_char_toupper)
  have stop: "rest = [] \<and> c = 0 \<or> (\<exists>r. rest = c # r \<and> (c \<le> 0x20 \<or> c = 0x2F))"
    using e by (cases rest) (auto simp: c_def)
  define dj' where "dj' = dj\<lparr>fn := pad 8 ?B @ pad 3 ?X @ [if c \<le> 0x20 then 1 else 0]\<rparr>"
  have "create_name E dj (segment base ext @ rest) = Some (FR_OK, dj', tl rest)"
    unfolding dj'_def by (rule create_name_short [OF cfg n fn refl stop])
  moreover have "fn dj' ! 11 = 1 \<longleftrightarrow> rest = [] \<or> hd rest \<le> 0x20"
    using up by (cases rest) (simp_all add: dj'_def c_def nth_append)
  moreover have "takeWhile (\<lambda>c. c \<noteq> 0) (segment ?B ?X @ 0 # xs) = segment ?B ?X" for xs
    using up by (auto simp: segment_def list_all_iff name_char_def takeWhile_append)
  then have "takeWhile (\<lambda>c. c \<noteq> 0) (fname (get_fileinfo d dir fno)) = segment ?B ?X"
    if "length dir = 32" "take 11 dir = take 11 (fn dj')" "sect d \<noteq> 0" for dir d fno
    using that get_fileinfo_name [OF up, of dir d fno] up by (simp add: dj'_def)
  ultimately show ?thesis by blast
qed

theorem short_name_roundtrip_witness:
  "let dj = \<lparr>dir_index = 0, fn = replicate 12 0, sclust = 0, clust = 0, sect = 7\<rparr> in
   \<exists>dj'. create_name (pff_config :: unit sdcard pff_env) dj [0x61, 0x62, 0x2E, 0x63, 0x2F, 0x64] = Some (FR_OK, dj', [0x64]) \<and>
     fn dj' ! 11 \<noteq> 1 \<and>
     (\<forall>fno. takeWhile (\<lambda>c. c \<noteq> 0) (fname (get_fileinfo dj (take 11 (fn dj') @ replicate 21 0) fno)) =
        [0x41, 0x42, 0x2E, 0x43])"
proof -
  let ?dj = "\<lparr>dir_index = 0, fn = replicate 12 0, sclust = 0, clust = 0, sect = 7\<rparr>"
  have cfg: "code_page_cfg (pff_config :: unit sdcard pff_env) = cp_1" by (simp add: pff_config_def)
  have n: "short_name [0x61, 0x62] [0x63]" by (simp add: short_name_def name_char_def)
  have up: "map toupper [0x61, 0x62] = [0x41, 0x42]" "map toupper [0x63] = [0x43]"
    by (simp_all add: toupper_def IsLower_def)
  obtain dj' where t: "create_name (pff_config :: unit sdcard pff_env) ?dj [0x61, 0x62, 0x2E, 0x63, 0x2F, 0x64] = Some (FR_OK, dj', [0x64])"
    "fn dj' ! 11 \<noteq> 1"
    "\<forall>dir d fno. length dir = 32 \<and> take 11 dir = take 11 (fn dj') \<and> sect d \<noteq> 0 \<longrightarrow>
       takeWhile (\<lambda>c. c \<noteq> 0) (fname (get_fileinfo d dir fno)) = segment [0x41, 0x42] [0x43]"
    using short_name_roundtrip [OF cfg n, of ?dj "[0x2F, 0x64]", unfolded up] by (auto simp: segment_def)
  moreover have "length (fn dj') = 12"
    using create_name_fn [OF t(1)] by simp
  ultimately show ?thesis by (auto simp: segment_def Let_def)
qed

end
