(* ===== verification/Sdcard_Properties.thy ===== *)
theory Sdcard_Properties
  imports Pff_Diskio
begin

text \<open>
  The properties of the SD card driver: registration and power up, reading a sector, and the chip
  select line.
\<close>

section \<open>Registration\<close>

lemma sd_register_inited:
  assumes "sd_register cb s = Some (r, s')"
  shows "callbacks s' = cb \<and> (inited s' \<longleftrightarrow> host_of cb \<noteq> None) \<and> (host_of cb = None \<longrightarrow> bus s' = bus s)"
  using assms by (cases s) (auto simp: sd_register_def sd_power_def Let_def split: if_splits option.splits prod.splits)

lemma when_inited_total:
  assumes "inited s \<longrightarrow> host_of (callbacks s) \<noteq> None" shows "when_inited body s \<noteq> None"
  using assms by (auto simp: when_inited_def split: prod.splits)

text \<open>
  (C17) The driver never calls through a null callback: registration always returns, with
  \<^verbatim>\<open>SDCARD_NOT_INITED\<close> when a callback other than the power switch is missing, and after it every
  transfer returns, at once with \<^verbatim>\<open>SDCARD_NOT_INITED\<close> and without touching the bus in that case.
\<close>

theorem sd_no_null_callback:
  "\<exists>r s'. sd_register cb s = Some (r, s') \<and>
     sd_readsector lba s' \<noteq> None \<and> sd_readcsd s' \<noteq> None \<and> sd_writesector lba buf s' \<noteq> None \<and> sd_waitforready s' \<noteq> None \<and>
     (if host_of cb = None
      then r = SDCARD_NOT_INITED \<and> bus s' = bus s \<and> sd_configured s' = SDCARD_NOT_INITED \<and>
           sd_readsector lba s' = Some (SDCARD_NOT_INITED, [], s') \<and> sd_writesector lba buf s' = Some (SDCARD_NOT_INITED, [], s')
      else sd_configured s' = SDCARD_OK)"
proof -
  obtain r s' where r: "sd_register cb s = Some (r, s')"
    by (cases "host_of cb") (simp_all add: sd_register_def sd_power_def Let_def split_def)
  have i: "inited s' \<longrightarrow> host_of (callbacks s') \<noteq> None" using sd_register_inited [OF r] by simp
  have "sd_readsector lba s' \<noteq> None" "sd_readcsd s' \<noteq> None" "sd_writesector lba buf s' \<noteq> None" "sd_waitforready s' \<noteq> None"
    unfolding sd_readsector_def sd_readcsd_def sd_writesector_def sd_waitforready_def
    by (rule when_inited_total [OF i])+
  moreover have "if host_of cb = None
      then r = SDCARD_NOT_INITED \<and> bus s' = bus s \<and> sd_configured s' = SDCARD_NOT_INITED \<and>
           sd_readsector lba s' = Some (SDCARD_NOT_INITED, [], s') \<and> sd_writesector lba buf s' = Some (SDCARD_NOT_INITED, [], s')
      else sd_configured s' = SDCARD_OK"
    using r sd_register_inited [OF r]
    by (auto simp: sd_register_def sd_configured_def sd_readsector_def sd_writesector_def when_inited_def Let_def)
  ultimately show ?thesis using r by blast
qed


section \<open>Transfers\<close>

text \<open>
  (C7) Reading a sector from a card that follows the SD protocol delivers the 512 bytes at the byte
  address of the sector, or fails without data; it succeeds whenever the card sends the start
  token within the polls the driver makes, and leaves the card ready for the next command.
\<close>

theorem sd_readsector_delivers:
  assumes "sd_conforming h ready mem" "inited s" "host_of (callbacks s) = Some h" "ready (bus s)"
  shows "\<exists>r bs s'. sd_readsector lba s = Some (r, bs, s') \<and> (\<exists>c. s' = s\<lparr>bus := c\<rparr> \<and> ready c) \<and>
    (r = SDCARD_OK \<and> bs = map (\<lambda>i. mem (unat (512 * lba) + i)) [0 ..< 512] \<or> r = SDCARD_RWFAIL \<and> bs = []) \<and>
    (card_answers h ready mem (512 * lba) (bus s) \<longrightarrow> r = SDCARD_OK)"
  using assms by (rule sd_readsector_reads)

theorem sd_readsector_delivers_witness:
  "\<exists>bs s'. sd_readsector 2 \<lparr>inited = True, callbacks = sim_callbacks of_nat,
      bus = \<lparr>sim_in = [], sim_out = [], sim_polls = 0\<rparr>\<rparr> = Some (SDCARD_OK, bs, s') \<and> bs ! 5 = 5"
proof -
  let ?s = "\<lparr>inited = True, callbacks = sim_callbacks of_nat, bus = \<lparr>sim_in = [], sim_out = [], sim_polls = 0\<rparr>\<rparr>"
  have ready: "inited ?s" "host_of (callbacks ?s) = Some (sim_host of_nat)" "sim_ready (bus ?s)"
    by (simp_all add: sim_ready_def)
  have n: "(SDCARD_RWFAIL :: u16) \<noteq> SDCARD_OK" by simp
  obtain bs s' where "sd_readsector 2 ?s = Some (SDCARD_OK, bs, s')"
    "bs = map (\<lambda>i. of_nat (unat (512 * 2 :: u32) + i)) [0 ..< 512]"
    using sd_readsector_delivers [OF sim_sd_conforming ready, of 2] sim_conforming [OF ready(3), of of_nat "512 * 2"] n
    by blast
  then show ?thesis by (auto simp del: upt.simps)
qed


definition zero_host :: "unit sd_host" where
  "zero_host = \<lparr>select = (\<lambda>c. c), xchg = (\<lambda>v c. (0, c)), deselect = (\<lambda>c. c)\<rparr>"

definition zero_card :: "(bool \<times> unit) sdcard" where
  "zero_card = \<lparr>inited = True, callbacks = \<lparr>cb_select = Some (select (cs_host zero_host)),
     cb_xchg = Some (xchg (cs_host zero_host)), cb_deselect = Some (deselect (cs_host zero_host)), cb_power = None\<rparr>,
     bus = (False, ())\<rparr>"


end
