(* ===== verification/Onewire.thy ===== *)
theory Onewire
  imports Avr_Prelude "HOL-Library.Monad_Syntax"
begin

text \<open>
  The 1-wire bus of \<^verbatim>\<open>src/src/board_support/onewire.c\<close>. The line is an arbitrary state; pulling it low,
  releasing it, reading it and the delays of the C library are functions on that state. Waiting
  for an idle bus may never end, which is \<open>None\<close>.
\<close>

section \<open>The bus\<close>

record 'w onewire =
  pull_low :: "'w \<Rightarrow> 'w"
  release :: "'w \<Rightarrow> 'w"
  get_bit :: "'w \<Rightarrow> u8 \<times> 'w"
  delay_us :: "nat \<Rightarrow> 'w \<Rightarrow> 'w"

definition onewire_reset :: "'w onewire \<Rightarrow> 'w \<Rightarrow> 'w" where
  "onewire_reset W w =
     (let w = pull_low W w; w = delay_us W 482 w; w = release W w in delay_us W 482 w)"

definition onewire_init ::
    "('w \<Rightarrow> 'w) \<Rightarrow> ('w \<Rightarrow> 'w) \<Rightarrow> ('w \<Rightarrow> u8 \<times> 'w) \<Rightarrow> 'w onewire \<Rightarrow> 'w \<Rightarrow> 'w onewire \<times> 'w" where
  "onewire_init pull rel get W w =
     (let W = W\<lparr>pull_low := pull, release := rel, get_bit := get\<rparr> in (W, onewire_reset W w))"

partial_function (option) wait_idle :: "'w onewire \<Rightarrow> 'w \<Rightarrow> 'w option" where
  "wait_idle W w = (case get_bit W w of (b, w) \<Rightarrow> if b = 0 then wait_idle W w else Some w)"

definition send_slot :: "'w onewire \<Rightarrow> bool \<Rightarrow> 'w \<Rightarrow> 'w" where
  "send_slot W one w =
     (let w = pull_low W w in
      if one then delay_us W 58 (release W (delay_us W 2 w))
      else release W (delay_us W 60 w))"

fun send_bits :: "'w onewire \<Rightarrow> nat \<Rightarrow> u8 \<Rightarrow> 'w \<Rightarrow> 'w option" where
  "send_bits W 0 byte w = Some w"
| "send_bits W (Suc n) byte w =
     do {
       w \<leftarrow> wait_idle W w;
       send_bits W n (drop_bit 1 byte) (delay_us W 1 (send_slot W (byte AND 1 \<noteq> 0) w))
     }"

definition onewire_send_byte :: "'w onewire \<Rightarrow> u8 \<Rightarrow> 'w \<Rightarrow> 'w option" where
  "onewire_send_byte W byte w = send_bits W 8 byte w"

definition read_slot :: "'w onewire \<Rightarrow> 'w \<Rightarrow> u8 \<times> 'w" where
  "read_slot W w = get_bit W (delay_us W 2 (release W (delay_us W 2 (pull_low W w))))"

fun read_bits :: "'w onewire \<Rightarrow> nat \<Rightarrow> u8 \<Rightarrow> 'w \<Rightarrow> (u8 \<times> 'w) option" where
  "read_bits W 0 result w = Some (result, w)"
| "read_bits W (Suc n) result w =
     do {
       w \<leftarrow> wait_idle W w;
       (case read_slot W w of (b, w) \<Rightarrow>
          let result = drop_bit 1 result in
          read_bits W n (if b \<noteq> 0 then result OR 128 else result) (delay_us W 55 w))
     }"

definition onewire_read_byte :: "'w onewire \<Rightarrow> 'w \<Rightarrow> (u8 \<times> 'w) option" where
  "onewire_read_byte W w = read_bits W 8 0 w"

section \<open>The checksum\<close>

fun crc_bits :: "nat \<Rightarrow> u8 \<Rightarrow> u8 \<Rightarrow> u8" where
  "crc_bits 0 crc tmp = crc"
| "crc_bits (Suc j) crc tmp =
     (let input_bit = (crc XOR tmp) AND 1;
          crc = (if input_bit \<noteq> 0 then crc XOR 0x18 else crc)
      in crc_bits j (drop_bit 1 crc OR push_bit 7 input_bit) (drop_bit 1 tmp))"

text \<open>The caller passes the bytes of the buffer and their number, at most 255.\<close>

definition onewire_calculate_crc :: "u8 list \<Rightarrow> u8 \<Rightarrow> u8" where
  "onewire_calculate_crc buffer len = foldl (\<lambda>crc tmp. crc_bits 8 crc tmp) 0 (take (unat len) buffer)"

section \<open>A device on the bus\<close>

text \<open>
  A line with one device, in microseconds: a low pulse shorter than 15 is a one the device hears,
  a longer one a zero. When the device has bits to say it answers each falling edge with the next
  of them, holding the line low for 30 to say a zero.
\<close>

record line =
  now :: nat
  fell :: nat
  pulled :: bool
  hold :: bool
  heard :: "bool list"
  speak :: "bool list"

definition line_bus :: "line onewire" where
  "line_bus =
     \<lparr>pull_low = (\<lambda>l. l\<lparr>pulled := True, fell := now l, hold := (speak l \<noteq> [] \<and> \<not> hd (speak l)), speak := tl (speak l)\<rparr>),
      release = (\<lambda>l. l\<lparr>pulled := False, heard := heard l @ [now l - fell l < 15]\<rparr>),
      get_bit = (\<lambda>l. (if pulled l \<or> hold l \<and> now l < fell l + 30 then 0 else 1, l)),
      delay_us = (\<lambda>n l. l\<lparr>now := now l + n\<rparr>)\<rparr>"

definition line_idle :: "line \<Rightarrow> bool" where
  "line_idle l \<longleftrightarrow> \<not> pulled l \<and> (hold l \<longrightarrow> fell l + 30 \<le> now l)"

definition byte_bits :: "u8 \<Rightarrow> bool list" where
  "byte_bits b = map (bit b) [0 ..< 8]"

lemma wait_idle_line: "line_idle l \<Longrightarrow> wait_idle line_bus l = Some l"
  by (subst wait_idle.simps) (auto simp: line_bus_def line_idle_def)

lemma send_slot_line:
  fixes one :: bool
  assumes "line_idle l" "speak l = []"
  defines "l' \<equiv> delay_us line_bus 1 (send_slot line_bus one l)"
  shows "line_idle l' \<and> speak l' = [] \<and> heard l' = heard l @ [one]"
  using assms(1,2) by (cases one) (simp_all add: l'_def send_slot_def line_bus_def line_idle_def Let_def)

lemma send_bits_line:
  "\<lbrakk>line_idle l; speak l = []\<rbrakk> \<Longrightarrow>
   \<exists>l'. send_bits line_bus n b l = Some l' \<and> line_idle l' \<and> speak l' = [] \<and> heard l' = heard l @ map (bit b) [0 ..< n]"
proof (induction n arbitrary: b l)
  case (Suc n)
  let ?l = "delay_us line_bus 1 (send_slot line_bus (b AND 1 \<noteq> 0) l)"
  have one: "(b AND 1 \<noteq> 0) = bit b 0" by (simp add: and_one_eq bit_0 odd_iff_mod_2_eq_one)
  have "map (bit b) [0 ..< Suc n] = bit b 0 # map (bit (drop_bit 1 b)) [0 ..< n]"
    by (simp add: map_upt_Suc bit_drop_bit_eq del: upt_Suc)
  then show ?case
    using Suc.IH [of ?l "drop_bit 1 b"] send_slot_line [OF Suc.prems, of "b AND 1 \<noteq> 0"] Suc.prems one
    by (auto simp: wait_idle_line del: upt_Suc)
qed simp

lemma read_slot_line:
  assumes "line_idle l" "speak l = b # bs" "read_slot line_bus l = (r, l1)"
  shows "(r \<noteq> 0) = b \<and> line_idle (delay_us line_bus 55 l1) \<and> speak (delay_us line_bus 55 l1) = bs"
  using assms by (auto simp: read_slot_def line_bus_def line_idle_def split: if_splits)

lemma read_bits_line:
  "\<lbrakk>line_idle l; speak l = bs @ rest\<rbrakk> \<Longrightarrow>
   \<exists>l'. read_bits line_bus (length bs) r l = Some (fold (\<lambda>b r. if b then drop_bit 1 r OR 128 else drop_bit 1 r) bs r, l') \<and>
     line_idle l' \<and> speak l' = rest"
proof (induction bs arbitrary: r l)
  case (Cons b bs)
  obtain v l1 where v: "read_slot line_bus l = (v, l1)" by (rule prod.exhaust)
  have "speak l = b # (bs @ rest)" using Cons.prems by simp
  note s = read_slot_line [OF Cons.prems(1) this v]
  show ?case
    using Cons.IH [of "delay_us line_bus 55 l1" "if b then drop_bit 1 r OR 128 else drop_bit 1 r"] s Cons.prems(1) v
    by (cases b) (simp_all add: wait_idle_line Let_def)
qed simp

lemma bit_128: "bit (128 :: u8) k \<longleftrightarrow> k = 7"
proof -
  have "(128 :: u8) = push_bit 7 1" by simp
  then show ?thesis by (simp only: bit_push_bit_iff bit_1_iff) auto
qed

lemma assemble_bits:
  assumes "n \<le> 8"
  shows "bit (fold (\<lambda>b r. if b then drop_bit 1 r OR 128 else drop_bit 1 r) (map (bit b) [0 ..< n]) (0 :: u8)) k \<longleftrightarrow>
    8 - n \<le> k \<and> k < 8 \<and> bit (b :: u8) (k + n - 8)"
  using assms
proof (induction n arbitrary: k)
  case (Suc n)
  have "8 - n \<le> Suc k \<and> Suc k < 8 \<or> k = 7 \<longleftrightarrow> 8 - Suc n \<le> k \<and> k < 8" using Suc.prems by auto
  moreover have "Suc k + n - 8 = k + Suc n - 8" "k = 7 \<Longrightarrow> k + Suc n - 8 = n" by simp_all
  moreover have "bit (if c then drop_bit 1 r OR 128 else drop_bit 1 r) k \<longleftrightarrow> bit r (Suc k) \<or> c \<and> k = 7" for c and r :: u8
    using bit_128 [of k] by (cases c) (simp_all only: if_True if_False bit_or_iff bit_drop_bit_eq, simp_all)
  ultimately show ?case
    using Suc.IH [of "Suc k"] Suc.prems by (auto simp del: drop_bit_Suc)
qed simp

lemma assemble_byte:
  "fold (\<lambda>b r. if b then drop_bit 1 r OR 128 else drop_bit 1 r) (byte_bits b) (0 :: u8) = b"
  unfolding byte_bits_def by (rule bit_word_eqI) (subst assemble_bits, simp_all)

text \<open>
  (C19) A byte sent on the bus is the byte the device hears, least significant bit first, and a byte
  the device says is the byte that is read; both return, and leave the bus idle.
\<close>

theorem onewire_byte_roundtrip:
  assumes "line_idle l"
  shows "(speak l = [] \<longrightarrow>
      (\<exists>l'. onewire_send_byte line_bus b l = Some l' \<and> line_idle l' \<and> speak l' = [] \<and> heard l' = heard l @ byte_bits b)) \<and>
    (speak l = byte_bits b @ rest \<longrightarrow>
      (\<exists>l'. onewire_read_byte line_bus l = Some (b, l') \<and> line_idle l' \<and> speak l' = rest))"
proof -
  have "length (byte_bits b) = 8" by (simp add: byte_bits_def)
  then show ?thesis
    using send_bits_line [OF assms, of 8 b] read_bits_line [OF assms, of "byte_bits b" rest 0]
    by (auto simp: onewire_send_byte_def onewire_read_byte_def assemble_byte) (simp add: byte_bits_def)
qed

theorem onewire_byte_roundtrip_witness:
  "let l = \<lparr>now = 0, fell = 0, pulled = False, hold = False, heard = [], speak = byte_bits 0xA5\<rparr> in
   (\<exists>l'. onewire_read_byte line_bus l = Some (0xA5, l') \<and> speak l' = []) \<and>
   (\<exists>l'. onewire_send_byte line_bus 0x55 (l\<lparr>speak := []\<rparr>) = Some l' \<and> heard l' = byte_bits 0x55)"
proof -
  let ?l = "\<lparr>now = 0, fell = 0, pulled = False, hold = False, heard = [], speak = byte_bits 0xA5\<rparr>"
  have i: "line_idle ?l" "line_idle (?l\<lparr>speak := []\<rparr>)" by (simp_all add: line_idle_def)
  show ?thesis
    using onewire_byte_roundtrip [OF i(1), of "0xA5" "[]"] onewire_byte_roundtrip [OF i(2), of "0x55" "[]"]
    by (simp add: Let_def) blast
qed

section \<open>The checksum as a remainder\<close>

text \<open>One step of the division by the polynomial of the bus, in the usual reflected form.\<close>

definition crc8_step :: "u8 \<Rightarrow> u8" where
  "crc8_step x = drop_bit 1 x XOR (if odd x then 0x8C else 0)"

lemma xor_cancel: "((a XOR b) XOR x) XOR b = a XOR (x :: u8)"
  by (rule bit_word_eqI) (auto simp: bit_xor_iff)

lemma xor_right_eq: "a XOR x = b XOR x \<longleftrightarrow> a = (b :: u8)"
proof
  assume "a XOR x = b XOR x"
  then have "(a XOR x) XOR x = (b XOR x) XOR x" by (rule arg_cong)
  then show "a = b" by (simp only: xor.assoc xor_self_eq xor.right_neutral)
qed simp

lemma no_bit_8: "\<not> bit (x :: u8) 8"
  using bit_imp_le_length [of x 8] by auto

lemma or_128: "\<not> bit y 7 \<Longrightarrow> y OR 128 = (y XOR 128 :: u8)"
  by (rule bit_word_eqI) (auto simp only: bit_or_iff bit_xor_iff bit_128)

lemma crc_step:
  fixes crc tmp :: u8
  defines "i \<equiv> (crc XOR tmp) AND 1"
  shows "(drop_bit 1 (if i \<noteq> 0 then crc XOR 0x18 else crc) OR push_bit 7 i) = crc8_step (crc XOR tmp) XOR drop_bit 1 tmp"
proof -
  have dist: "drop_bit 1 (x XOR y) = drop_bit 1 x XOR drop_bit 1 y" for x y :: u8 by (rule drop_bit_xor)
  have cancel: "((drop_bit 1 crc XOR drop_bit 1 tmp) XOR x) XOR drop_bit 1 tmp = drop_bit 1 crc XOR x" for x :: u8
    by (rule xor_cancel)
  show ?thesis
  proof (cases "odd (crc XOR tmp)")
    case True
    then have i: "i = 1" by (simp only: i_def and_one_eq mod_2_eq_odd) simp
    have "\<not> bit (drop_bit 1 crc XOR 0x0C) 7" by (simp add: bit_xor_iff bit_drop_bit_eq no_bit_8)
    then have "(drop_bit 1 crc XOR 0x0C) OR 128 = (drop_bit 1 crc XOR 0x0C) XOR 128" by (rule or_128)
    then have "(drop_bit 1 crc XOR 0x0C) OR 128 = drop_bit 1 crc XOR 0x8C" by (simp add: xor.assoc)
    moreover have "drop_bit 1 (0x18 :: u8) = 0x0C" "push_bit 7 (1 :: u8) = 128" by simp_all
    ultimately show ?thesis using True i cancel [of "0x8C"] by (simp only: dist crc8_step_def if_True) simp
  next
    case False
    then have i: "i = 0" by (simp only: i_def and_one_eq mod_2_eq_odd) simp
    then show ?thesis using False cancel [of 0] by (simp only: dist crc8_step_def if_False) simp
  qed
qed

lemma crc_bits_step: "crc_bits j crc tmp = (crc8_step ^^ j) (crc XOR tmp) XOR drop_bit j tmp"
proof (induction j arbitrary: crc tmp)
  case (Suc j)
  have x: "(crc8_step (crc XOR tmp) XOR drop_bit 1 tmp) XOR drop_bit 1 tmp = crc8_step (crc XOR tmp)"
    by (simp only: xor.assoc xor_self_eq xor.right_neutral)
  have "drop_bit j (drop_bit 1 tmp) = drop_bit (Suc j) tmp" by (simp only: drop_bit_drop_bit) simp
  then show ?case
    unfolding crc_bits.simps Let_def crc_step Suc.IH x funpow_Suc_right o_def by simp
qed (simp add: xor.assoc)

lemma crc_byte: "crc_bits 8 crc b = (crc8_step ^^ 8) (crc XOR b)"
proof -
  have "drop_bit 8 b = 0" by (rule bit_word_eqI) (auto simp: bit_drop_bit_eq dest: bit_imp_le_length)
  then show ?thesis by (simp only: crc_bits_step) simp
qed

lemma crc8_step_inj: "inj crc8_step"
proof (rule injI)
  fix x y assume e: "crc8_step x = crc8_step y"
  have top: "bit (crc8_step z) 7 = odd z" for z
    by (cases "odd z") (simp_all add: crc8_step_def bit_xor_iff bit_drop_bit_eq no_bit_8)
  have o: "odd x = odd y" using top [of x] top [of y] e by simp
  then have "drop_bit 1 x = drop_bit 1 y" using e by (cases "odd y") (simp_all add: crc8_step_def xor_right_eq)
  then have "x div 2 = y div 2" by (simp add: drop_bit_eq_div)
  then show "x = y" using o by (metis div_mult_mod_eq odd_iff_mod_2_eq_one parity_cases)
qed

lemma crc_byte_inj: "crc_bits 8 c x = crc_bits 8 d y \<longleftrightarrow> c XOR x = d XOR y"
  unfolding crc_byte by (rule inj_eq) (rule inj_fn [OF crc8_step_inj])

lemma crc_fold_inj: "foldl (crc_bits 8) c xs = foldl (crc_bits 8) d xs \<Longrightarrow> c = d"
proof (induction xs arbitrary: c d)
  case (Cons x xs)
  have "crc_bits 8 c x = crc_bits 8 d x" by (rule Cons.IH) (use Cons.prems in simp)
  then have "c XOR x = d XOR x" by (simp only: crc_byte_inj)
  then show ?case by (simp only: xor_right_eq)
qed simp

text \<open>
  (C11) The checksum is the remainder of the division by the polynomial of the bus: each byte is
  added and divided out in eight steps. Data followed by its checksum has the checksum zero, and
  a change of a single byte always changes the checksum.
\<close>

theorem onewire_crc_detects_byte_errors:
  assumes "length xs < 255"
  shows "onewire_calculate_crc xs (of_nat (length xs)) = foldl (\<lambda>c b. (crc8_step ^^ 8) (c XOR b)) 0 xs \<and>
    onewire_calculate_crc (xs @ [onewire_calculate_crc xs (of_nat (length xs))]) (of_nat (length xs + 1)) = 0 \<and>
    (\<forall>i x. i < length xs \<and> x \<noteq> xs ! i \<longrightarrow>
       onewire_calculate_crc (xs[i := x]) (of_nat (length xs)) \<noteq> onewire_calculate_crc xs (of_nat (length xs)))"
proof -
  have crc: "onewire_calculate_crc ys (of_nat (length ys)) = foldl (crc_bits 8) 0 ys" if "length ys \<le> 255" for ys
  proof -
    have "unat (of_nat (length ys) :: u8) = length ys" using that unfolding unat_of_nat by simp
    then show ?thesis by (simp add: onewire_calculate_crc_def)
  qed
  have "crc_bits 8 0 0 = 0" by code_simp
  then have "crc_bits 8 c c = 0" for c using crc_byte_inj [of c c 0 0] by (simp only: xor_self_eq)
  then have "onewire_calculate_crc (xs @ [onewire_calculate_crc xs (of_nat (length xs))]) (of_nat (length xs + 1)) = 0"
    using crc [of xs] crc [of "xs @ [onewire_calculate_crc xs (of_nat (length xs))]"] assms by simp
  moreover have "foldl (crc_bits 8) 0 (xs[i := x]) \<noteq> foldl (crc_bits 8) 0 xs" if "i < length xs" "x \<noteq> xs ! i" for i x
  proof
    assume e: "foldl (crc_bits 8) 0 (xs[i := x]) = foldl (crc_bits 8) 0 xs"
    let ?c = "foldl (crc_bits 8) 0 (take i xs)"
    have "xs[i := x] = take i xs @ x # drop (Suc i) xs" "xs = take i xs @ xs ! i # drop (Suc i) xs"
      using that by (simp_all add: upd_conv_take_nth_drop id_take_nth_drop)
    then have "foldl (crc_bits 8) (crc_bits 8 ?c x) (drop (Suc i) xs) = foldl (crc_bits 8) (crc_bits 8 ?c (xs ! i)) (drop (Suc i) xs)"
      using e by (metis foldl_Cons foldl_append)
    then have "?c XOR x = ?c XOR xs ! i" using crc_fold_inj crc_byte_inj by blast
    then have "x = xs ! i" by (simp only: xor.commute [of ?c] xor_right_eq)
    then show False using that by simp
  qed
  moreover have "foldl (crc_bits 8) 0 xs = foldl (\<lambda>c b. (crc8_step ^^ 8) (c XOR b)) 0 xs"
    by (rule foldl_cong) (simp_all only: crc_byte)
  ultimately show ?thesis using crc [of xs] crc [of "xs[i := x]" for i x] assms by simp
qed

theorem onewire_crc_detects_byte_errors_witness:
  "onewire_calculate_crc [0x02, 0x1C, 0xB8, 0x01, 0, 0, 0] 7 = 0xA2 \<and>
   onewire_calculate_crc [0x02, 0x1C, 0xB8, 0x01, 0, 0, 0, 0xA2] 8 = 0 \<and>
   onewire_calculate_crc [0x02, 0x1C, 0xB9, 0x01, 0, 0, 0] 7 \<noteq> 0xA2"
proof -
  have c: "onewire_calculate_crc [0x02, 0x1C, 0xB8, 0x01, 0, 0, 0] 7 = 0xA2" by code_simp
  have n: "(of_nat (length [0x02, 0x1C, 0xB8, 0x01, 0, 0, 0 :: u8]) :: u8) = 7"
    "(of_nat (length [0x02, 0x1C, 0xB8, 0x01, 0, 0, 0 :: u8] + 1) :: u8) = 8" by simp_all
  have i: "2 < length [0x02, 0x1C, 0xB8, 0x01, 0, 0, 0 :: u8] \<and> 0xB9 \<noteq> [0x02, 0x1C, 0xB8, 0x01, 0, 0, 0 :: u8] ! 2" by simp
  have u: "[0x02, 0x1C, 0xB8, 0x01, 0, 0, 0 :: u8][2 := 0xB9] = [0x02, 0x1C, 0xB9, 0x01, 0, 0, 0]"
    "[0x02, 0x1C, 0xB8, 0x01, 0, 0, 0 :: u8] @ [0xA2] = [0x02, 0x1C, 0xB8, 0x01, 0, 0, 0, 0xA2]" by simp_all
  have l: "length [0x02, 0x1C, 0xB8, 0x01, 0, 0, 0 :: u8] < 255" by simp
  note t = onewire_crc_detects_byte_errors [OF l, unfolded n c]
  have "onewire_calculate_crc ([0x02, 0x1C, 0xB8, 0x01, 0, 0, 0][2 := 0xB9]) 7 \<noteq> 0xA2" using t i by blast
  then show ?thesis using c t unfolding u by blast
qed

end
