(* ===== verification/Int_Print.thy ===== *)
theory Int_Print
  imports Avr_Prelude "HOL-Library.Monad_Syntax"
begin

text \<open>
  The number printing of \<^verbatim>\<open>src/src/utils/int_print.c\<close>. A buffer is the list of its characters;
  reading or writing outside of it is \<open>None\<close>.
\<close>

section \<open>Printing\<close>

definition put :: "u8 list \<Rightarrow> nat \<Rightarrow> u8 \<Rightarrow> u8 list option" where
  "put b i c = (if i < length b then Some (b[i := c]) else None)"

definition get :: "u8 list \<Rightarrow> nat \<Rightarrow> u8 option" where
  "get b i = (if i < length b then Some (b ! i) else None)"

text \<open>The loops that print \<open>n\<close> digits, the last one at the position \<open>base + n - 1\<close>, and go downwards.\<close>

fun print_digits :: "'a::len word \<Rightarrow> nat \<Rightarrow> nat \<Rightarrow> u8 list \<Rightarrow> ('a word \<times> u8 list) option" where
  "print_digits v 0 base b = Some (v, b)"
| "print_digits v (Suc n) base b =
     do {
       b \<leftarrow> put b (base + n) (ucast (v mod 10) + 48);
       print_digits (v div 10) n base b
     }"

definition uint8Print :: "u8 \<Rightarrow> u8 \<Rightarrow> u8 list \<Rightarrow> u8 list option" where
  "uint8Print v len b =
     do {
       b \<leftarrow> put b (unat len) 0;
       (v, b) \<leftarrow> print_digits v (unat len) 0 b;
       Some b
     }"

definition uint16Print :: "u16 \<Rightarrow> u8 list \<Rightarrow> u8 list option" where
  "uint16Print v b = do { (v, b) \<leftarrow> print_digits v 5 0 b; Some b }"

definition uint16PrintNull :: "u16 \<Rightarrow> u8 list \<Rightarrow> u8 list option" where
  "uint16PrintNull v b = do { b \<leftarrow> uint16Print v b; put b 5 0 }"

definition uint16PrintDecimal :: "u16 \<Rightarrow> u8 \<Rightarrow> u8 list \<Rightarrow> u8 list option" where
  "uint16PrintDecimal v decimals b =
     (let decimals = unat (if 5 < decimals then 5 else decimals) in
      do {
        (v, b) \<leftarrow> print_digits v decimals (6 - decimals) b;
        b \<leftarrow> put b (5 - decimals) 0x2E;
        (v, b) \<leftarrow> print_digits v (5 - decimals) 0 b;
        Some b
      })"

definition uint16PrintDecimalNull :: "u16 \<Rightarrow> u8 \<Rightarrow> u8 list \<Rightarrow> u8 list option" where
  "uint16PrintDecimalNull v decimals b =
     do {
       b \<leftarrow> put b 0 0x58; b \<leftarrow> put b 1 0x58; b \<leftarrow> put b 2 0x58;
       b \<leftarrow> put b 3 0x58; b \<leftarrow> put b 4 0x58; b \<leftarrow> put b 5 0x58;
       b \<leftarrow> uint16PrintDecimal v decimals b;
       put b 6 0
     }"

section \<open>Leading zeros\<close>

text \<open>The loop ends at the end of the buffer at the latest, with \<open>None\<close>.\<close>

function leading_zeros :: "u8 \<Rightarrow> nat \<Rightarrow> u8 \<Rightarrow> u8 list \<Rightarrow> (nat \<times> u8 \<times> u8 list) option" where
  "leading_zeros n i count b =
     (if length b \<le> i then None
      else if b ! i = 0x30 then
        (let b = b[i := 0x20]; count = count + 1 in
         if n \<noteq> 0 \<and> n \<le> count then Some (i + 1, count, b)
         else leading_zeros n (i + 1) count b)
      else Some (i, count, b))"
  by pat_completeness auto
termination by (relation "measure (\<lambda>(n, i, count, b). length b - i)") auto

declare leading_zeros.simps [simp del]

definition replaceLeadingZerosN :: "u8 list \<Rightarrow> u8 \<Rightarrow> u8 list option" where
  "replaceLeadingZerosN b n =
     do {
       (i, count, b) \<leftarrow> leading_zeros n 0 0 b;
       if n \<noteq> 0 \<and> n \<le> count then put b (i - 1) 0x30
       else do {
         c \<leftarrow> get b i;
         if (0x39 < c \<or> c < 0x30) \<and> 0 < count then put b (i - 1) 0x30 else Some b
       }
     }"

definition replaceLeadingZeros :: "u8 list \<Rightarrow> u8 list option" where
  "replaceLeadingZeros b = replaceLeadingZerosN b 0"

fun findStartOfNumber :: "u8 list \<Rightarrow> u8 list option" where
  "findStartOfNumber [] = None"
| "findStartOfNumber (c # b) =
     (if c \<noteq> 0 \<and> (c = 0x20 \<or> c = 0x30) then findStartOfNumber b else Some (c # b))"

section \<open>Digits\<close>

text \<open>The decimal digits of a number, the digit characters, and the number a text of digits stands for.\<close>

fun dec_digits :: "nat \<Rightarrow> nat \<Rightarrow> u8 list" where
  "dec_digits 0 v = []"
| "dec_digits (Suc n) v = dec_digits n (v div 10) @ [of_nat (v mod 10) + 48]"

definition is_digit :: "u8 \<Rightarrow> bool" where
  "is_digit c \<longleftrightarrow> 0x30 \<le> c \<and> c \<le> 0x39"

definition number :: "u8 list \<Rightarrow> nat" where
  "number ds = foldl (\<lambda>n c. 10 * n + (unat c - 48)) 0 ds"

lemma length_dec_digits [simp]: "length (dec_digits n v) = n"
  by (induction n arbitrary: v) simp_all

lemma unat_digit [simp]: "unat (of_nat (v mod 10) + 48 :: u8) = v mod 10 + 48"
proof -
  have "v mod 10 < 10" by simp
  then have "unat (of_nat (v mod 10) :: u8) = v mod 10" unfolding unat_of_nat by simp
  then show ?thesis using \<open>v mod 10 < 10\<close> by (simp add: unat_word_ariths)
qed

lemma digits_dec_digits: "list_all is_digit (dec_digits n v)"
  by (induction n arbitrary: v) (auto simp: is_digit_def word_le_nat_alt)

lemma number_dec_digits: "number (dec_digits n v) = v mod 10 ^ n"
proof (induction n arbitrary: v)
  case (Suc n)
  have "10 * (v div 10 mod 10 ^ n) + v mod 10 = v mod (10 * 10 ^ n)"
    by (simp add: mod_mult2_eq)
  then show ?case using Suc by (simp add: number_def)
qed (simp add: number_def)

lemma unat_div_ten:
  fixes v :: "'a::len word"
  assumes "4 \<le> LENGTH('a)"
  shows "unat (v div 10) = unat v div 10" "unat (v mod 10) = unat v mod 10"
proof -
  have "(10 :: nat) < 2 ^ 4" by simp
  also have "\<dots> \<le> 2 ^ LENGTH('a)" using assms by (intro power_increasing) simp_all
  finally have "unat (10 :: 'a word) = 10"
    using unat_of_nat [where 'a = 'a, of 10] by (simp add: take_bit_eq_mod)
  then show "unat (v div 10) = unat v div 10" "unat (v mod 10) = unat v mod 10"
    by (simp_all add: unat_div_distrib unat_mod_distrib)
qed

lemma print_digits_ok:
  fixes v :: "'a::len word"
  assumes "4 \<le> LENGTH('a)" "base + n \<le> length b"
  shows "\<exists>v'. unat v' = unat v div 10 ^ n \<and>
    print_digits v n base b = Some (v', take base b @ dec_digits n (unat v) @ drop (base + n) b)"
  using assms(2)
proof (induction n arbitrary: v b)
  case (Suc n)
  define c where "c = (ucast (v mod 10) + 48 :: u8)"
  have c: "c = of_nat (unat v mod 10) + 48"
    using unat_div_ten [OF assms(1), of v] by (simp add: c_def) (metis of_nat_unat)
  obtain v' where v': "unat v' = unat (v div 10) div 10 ^ n"
    "print_digits (v div 10) n base (b[base + n := c]) =
     Some (v', take base (b[base + n := c]) @ dec_digits n (unat (v div 10)) @ drop (base + n) (b[base + n := c]))"
    using Suc.IH [of "b[base + n := c]" "v div 10"] Suc.prems by auto
  have "drop (base + n) (b[base + n := c]) = c # drop (base + Suc n) b"
    using Suc.prems by (simp add: drop_update_swap Cons_nth_drop_Suc [symmetric, of "base + n"])
  then show ?case
    using v' Suc.prems c unat_div_ten [OF assms(1), of v]
    by (simp add: put_def c_def [symmetric] div_mult2_eq)
qed simp

lemma print_digits_u16:
  assumes "base + n \<le> length b"
  obtains v' :: u16 where "unat v' = unat v div 10 ^ n"
    "print_digits v n base b = Some (v', take base b @ dec_digits n (unat v) @ drop (base + n) b)"
  using print_digits_ok [OF _ assms, of v] by auto

lemma uint16Print_ok:
  "5 \<le> length b \<Longrightarrow> uint16Print v b = Some (dec_digits 5 (unat v) @ drop 5 b)"
  by (rule print_digits_u16 [of 0 5 b v]) (simp_all add: uint16Print_def)

lemma uint8Print_ok:
  assumes "unat len < length b"
  shows "uint8Print v len b = Some (dec_digits (unat len) (unat v) @ 0 # drop (unat len + 1) b)"
proof -
  let ?b = "b[unat len := 0]"
  obtain v' where "print_digits v (unat len) 0 ?b = Some (v', dec_digits (unat len) (unat v) @ drop (unat len) ?b)"
    using print_digits_ok [of 0 "unat len" ?b v] assms by auto
  moreover have "drop (unat len) ?b = 0 # drop (unat len + 1) b"
    using assms by (simp add: drop_update_swap Cons_nth_drop_Suc [symmetric])
  ultimately show ?thesis using assms by (simp add: uint8Print_def put_def)
qed

lemma uint16PrintDecimal_ok:
  fixes decimals :: u8
  assumes "6 \<le> length b"
  defines "d \<equiv> min 5 (unat decimals)"
  shows "uint16PrintDecimal v decimals b =
    Some (dec_digits (5 - d) (unat v div 10 ^ d) @ 0x2E # dec_digits d (unat v) @ drop 6 b)"
proof -
  have d: "unat (if 5 < decimals then 5 else decimals) = d" "d \<le> 5"
    by (auto simp: d_def word_less_nat_alt)
  obtain v1 where v1: "unat v1 = unat v div 10 ^ d"
    "print_digits v d (6 - d) b = Some (v1, take (6 - d) b @ dec_digits d (unat v) @ drop 6 b)"
    using print_digits_u16 [of "6 - d" d b v] assms(1) d by auto
  define b2 where "b2 = (take (6 - d) b @ dec_digits d (unat v) @ drop 6 b)[5 - d := 0x2E]"
  have b2: "b2 = take (5 - d) b @ 0x2E # dec_digits d (unat v) @ drop 6 b"
  proof -
    have "6 - d = Suc (5 - d)" using d by simp
    then have "take (6 - d) b = take (5 - d) b @ [b ! (5 - d)]"
      using assms(1) d take_Suc_conv_app_nth [of "5 - d" b] by simp
    then show ?thesis using assms(1) d by (simp add: b2_def list_update_append)
  qed
  obtain v2 where "print_digits v1 (5 - d) 0 b2 = Some (v2, dec_digits (5 - d) (unat v1) @ drop (5 - d) b2)"
    by (rule print_digits_u16 [of 0 "5 - d" b2 v1]) (use assms(1) d b2 in simp_all)
  moreover have "put (take (6 - d) b @ dec_digits d (unat v) @ drop 6 b) (5 - d) 0x2E = Some b2"
    using assms(1) d by (simp add: put_def b2_def)
  ultimately show ?thesis
    using v1 assms(1) d by (simp add: uint16PrintDecimal_def d b2)
qed

text \<open>
  (C31) A printed number reads back as the value: \<^verbatim>\<open>uint16Print\<close> writes exactly five digits,
  \<^verbatim>\<open>uint8Print\<close> as many as asked for (the value modulo that power of ten) and a terminator, and
  \<^verbatim>\<open>uint16PrintDecimal\<close> a point with that many digits after it, at most five; nothing else of the
  buffer changes.
\<close>

theorem printed_number_reads_back:
  assumes "7 \<le> length b" "unat len < length b"
  shows "(\<exists>ds. uint16Print v b = Some (ds @ drop 5 b) \<and> length ds = 5 \<and> list_all is_digit ds \<and> number ds = unat v) \<and>
    (\<exists>ds. uint8Print w len b = Some (ds @ 0 # drop (unat len + 1) b) \<and> length ds = unat len \<and> list_all is_digit ds \<and>
       number ds = unat w mod 10 ^ unat len) \<and>
    (\<exists>ds fs. uint16PrintDecimal v decimals b = Some (ds @ 0x2E # fs @ drop 6 b) \<and>
       length fs = min 5 (unat decimals) \<and> length ds + length fs = 5 \<and> list_all is_digit (ds @ fs) \<and>
       number ds * 10 ^ length fs + number fs = unat v)"
proof -
  let ?d = "min 5 (unat decimals)"
  have v: "unat v < 10 ^ 5" using unat_less_u16 [of v] by simp
  have "(10 :: nat) ^ 5 = 10 ^ (5 - ?d) * 10 ^ ?d" by (simp flip: power_add)
  then have "unat v div 10 ^ ?d < 10 ^ (5 - ?d)" using v by (simp add: less_mult_imp_div_less)
  then have "number (dec_digits (5 - ?d) (unat v div 10 ^ ?d)) * 10 ^ ?d + number (dec_digits ?d (unat v)) = unat v"
    using div_mult_mod_eq [of "unat v" "10 ^ ?d"] by (simp add: number_dec_digits)
  moreover have "uint16PrintDecimal v decimals b =
      Some (dec_digits (5 - ?d) (unat v div 10 ^ ?d) @ 0x2E # dec_digits ?d (unat v) @ drop 6 b)"
    using assms(1) by (intro uint16PrintDecimal_ok) simp
  ultimately have "\<exists>ds fs. uint16PrintDecimal v decimals b = Some (ds @ 0x2E # fs @ drop 6 b) \<and>
       length fs = ?d \<and> length ds + length fs = 5 \<and> list_all is_digit (ds @ fs) \<and>
       number ds * 10 ^ length fs + number fs = unat v"
    using digits_dec_digits
    by (intro exI [of _ "dec_digits (5 - ?d) (unat v div 10 ^ ?d)"] exI [of _ "dec_digits ?d (unat v)"]) simp
  moreover have "uint16Print v b = Some (dec_digits 5 (unat v) @ drop 5 b)"
    using assms(1) by (intro uint16Print_ok) simp
  ultimately show ?thesis
    using uint8Print_ok [OF assms(2), of w] digits_dec_digits number_dec_digits [of 5 "unat v"] v
      number_dec_digits [of "unat len" "unat w"] by auto
qed

theorem printed_number_reads_back_witness:
  "uint16PrintDecimal 1234 2 (replicate 7 0) = Some [0x30, 0x31, 0x32, 0x2E, 0x33, 0x34, 0] \<and>
   (\<exists>ds. uint16Print 1234 (replicate 7 0) = Some (ds @ [0, 0]) \<and> number ds = 1234)"
proof -
  have "uint16PrintDecimal 1234 2 (replicate 7 0) = Some [0x30, 0x31, 0x32, 0x2E, 0x33, 0x34, 0]"
    by code_simp
  moreover have f: "unat (1234 :: u16) = 1234" "drop 5 (replicate 7 (0 :: u8)) = [0, 0]" by code_simp+
  have "\<exists>ds. uint16Print 1234 (replicate 7 0) = Some (ds @ [0, 0]) \<and> number ds = 1234"
    using printed_number_reads_back [of "replicate 7 0" 3 1234 7 2] unfolding f by fastforce
  ultimately show ?thesis by blast
qed

section \<open>Aligned numbers\<close>

lemma leading_zeros_run:
  "x \<noteq> 0x30 \<Longrightarrow> leading_zeros 0 (length pre) c (pre @ replicate k 0x30 @ x # rest) =
     Some (length pre + k, c + of_nat k, pre @ replicate k 0x20 @ x # rest)"
proof (induction k arbitrary: pre c)
  case 0
  then show ?case by (subst leading_zeros.simps) simp
next
  case (Suc k)
  have "leading_zeros 0 (length pre) c (pre @ replicate (Suc k) 0x30 @ x # rest) =
      leading_zeros 0 (length (pre @ [0x20])) (c + 1) ((pre @ [0x20]) @ replicate k 0x30 @ x # rest)"
    by (subst leading_zeros.simps) (simp add: list_update_append)
  also have "\<dots> = Some (length (pre @ [0x20]) + k, c + 1 + of_nat k, (pre @ [0x20]) @ replicate k 0x20 @ x # rest)"
    by (rule Suc.IH [OF Suc.prems])
  finally show ?case by (simp add: algebra_simps)
qed

lemma replaceLeadingZeros_run:
  assumes "x \<noteq> 0x30" "k < 256"
  shows "replaceLeadingZeros (replicate k 0x30 @ x # rest) =
    Some (if \<not> is_digit x \<and> 0 < k then replicate (k - 1) 0x20 @ 0x30 # x # rest else replicate k 0x20 @ x # rest)"
proof -
  have c: "(0 < (of_nat k :: u8)) = (0 < k)" using assms(2) by (simp add: word_less_nat_alt unat_of_nat)
  have "(replicate k 0x20 @ x # rest)[k - 1 := 0x30] = replicate (k - 1) 0x20 @ 0x30 # x # rest" if "0 < k"
    using that by (cases k) (simp_all add: replicate_app_Cons_same [symmetric] list_update_append)
  then show ?thesis
    using leading_zeros_run [OF assms(1), of "[]" 0 k rest] c
    by (auto simp: replaceLeadingZeros_def replaceLeadingZerosN_def get_def put_def nth_append is_digit_def not_le)
qed

lemma number_zeros: "number (replicate k 0x30 @ ds) = number ds"
  by (induction k) (simp_all add: number_def)

lemma leading_split:
  obtains k ds where "(xs :: u8 list) = replicate k 0x30 @ ds" "ds = [] \<or> hd ds \<noteq> 0x30"
proof -
  have "takeWhile (\<lambda>c. c = 0x30) xs = replicate (length (takeWhile (\<lambda>c. c = 0x30) xs)) 0x30"
    by (rule replicate_eqI [symmetric, THEN sym]) (auto dest: set_takeWhileD)
  moreover have "dropWhile (\<lambda>c. c = 0x30) xs = [] \<or> hd (dropWhile (\<lambda>c. c = 0x30) xs) \<noteq> 0x30"
    using hd_dropWhile by blast
  ultimately show ?thesis using that takeWhile_dropWhile_id by metis
qed

text \<open>
  (C32) A number printed with \<^verbatim>\<open>uint16PrintNull\<close> and passed to \<^verbatim>\<open>replaceLeadingZeros\<close> is aligned to
  the right: blanks, then the digits of the number without a leading zero (a single zero for the
  number zero), then the terminator.
\<close>

theorem number_aligned_right:
  assumes "6 \<le> length b"
  shows "\<exists>k ds. uint16PrintNull v b \<bind> replaceLeadingZeros = Some (replicate k 0x20 @ ds @ 0 # drop 6 b) \<and>
    k + length ds = 5 \<and> ds \<noteq> [] \<and> list_all is_digit ds \<and> number ds = unat v \<and>
    (hd ds = 0x30 \<longrightarrow> v = 0 \<and> length ds = 1)"
proof -
  have v: "number (dec_digits 5 (unat v)) = unat v" using unat_less_u16 [of v] by (simp add: number_dec_digits)
  have p: "uint16PrintNull v b = Some (dec_digits 5 (unat v) @ 0 # drop 6 b)"
  proof -
    have "drop 5 b = b ! 5 # drop 6 b" using assms Cons_nth_drop_Suc [of 5 b] by simp
    then show ?thesis
      using assms uint16Print_ok [of b v] by (simp add: uint16PrintNull_def put_def list_update_append)
  qed
  obtain k ds where k: "dec_digits 5 (unat v) = replicate k 0x30 @ ds" "ds = [] \<or> hd ds \<noteq> 0x30"
    by (rule leading_split)
  have l: "k + length ds = 5" using arg_cong [OF k(1), of length] by simp
  have d: "list_all is_digit ds" using digits_dec_digits [of 5 "unat v"] by (simp add: k(1))
  have n: "number ds = unat v" using v by (simp add: k(1) number_zeros)
  show ?thesis
  proof (cases ds)
    case Nil
    then have "k = 5" "v = 0" using l n by (simp_all add: number_def word_unat_eq_iff)
    moreover have "replaceLeadingZeros (replicate 5 0x30 @ 0 # drop 6 b) = Some (replicate 4 0x20 @ 0x30 # 0 # drop 6 b)"
      by (subst replaceLeadingZeros_run) (simp_all add: is_digit_def)
    ultimately show ?thesis using p Nil k
      by (intro exI [of _ 4] exI [of _ "[0x30]"]) (simp add: is_digit_def number_def)
  next
    case (Cons x xs)
    have "replaceLeadingZeros (replicate k 0x30 @ x # xs @ 0 # drop 6 b) = Some (replicate k 0x20 @ x # xs @ 0 # drop 6 b)"
      using k(2) d l by (subst replaceLeadingZeros_run) (simp_all add: Cons)
    then show ?thesis using p k l d n
      by (intro exI [of _ k] exI [of _ ds]) (simp add: Cons)
  qed
qed

theorem number_aligned_right_witness:
  "\<exists>k ds. uint16PrintNull 305 (replicate 6 0) \<bind> replaceLeadingZeros = Some (replicate k 0x20 @ ds @ [0]) \<and> number ds = 305"
proof -
  have f: "drop 6 (replicate 6 (0 :: u8)) = []" "unat (305 :: u16) = 305" by simp_all
  show ?thesis using number_aligned_right [of "replicate 6 0" 305] unfolding f by fastforce
qed

end
