(* ===== verification/Ds18s20.thy ===== *)
theory Ds18s20
  imports Onewire Int_Print "HOL-Library.Signed_Division"
begin

text \<open>
  The temperature sensor on the 1-wire bus (\<^verbatim>\<open>src/src/peripherals/ds18s20_blocking.c\<close>) and the
  printing of its readings (\<^verbatim>\<open>src/src/peripherals/ds18s20.c\<close>).
\<close>

section \<open>The sensor\<close>

record onewire_rom_code =
  rom_code :: "u8 list"
  rom_crc :: u8

record ds18s20_scratchpad =
  temperature_lsb :: u8
  temperature_msb :: u8
  alarm_th :: u8
  alarm_tl :: u8
  res1 :: u8
  res2 :: u8
  count_remaining :: u8
  count_per_c :: u8
  scratchpad_crc :: u8

definition scratchpad_of :: "u8 list \<Rightarrow> ds18s20_scratchpad" where
  "scratchpad_of bs = \<lparr>temperature_lsb = bs ! 0, temperature_msb = bs ! 1, alarm_th = bs ! 2, alarm_tl = bs ! 3,
     res1 = bs ! 4, res2 = bs ! 5, count_remaining = bs ! 6, count_per_c = bs ! 7, scratchpad_crc = bs ! 8\<rparr>"

fun ds18s20_blocking_send_bytes :: "'w onewire \<Rightarrow> u8 list \<Rightarrow> 'w \<Rightarrow> 'w option" where
  "ds18s20_blocking_send_bytes W [] w = Some w"
| "ds18s20_blocking_send_bytes W (b # bs) w =
     do { w \<leftarrow> onewire_send_byte W b w; ds18s20_blocking_send_bytes W bs w }"

fun ds18s20_blocking_read_bytes :: "'w onewire \<Rightarrow> nat \<Rightarrow> 'w \<Rightarrow> (u8 list \<times> 'w) option" where
  "ds18s20_blocking_read_bytes W 0 w = Some ([], w)"
| "ds18s20_blocking_read_bytes W (Suc n) w =
     do {
       (b, w) \<leftarrow> onewire_read_byte W w;
       (bs, w) \<leftarrow> ds18s20_blocking_read_bytes W n w;
       Some (b # bs, w)
     }"

definition ds18s20_select :: "'w onewire \<Rightarrow> onewire_rom_code \<Rightarrow> u8 \<Rightarrow> 'w \<Rightarrow> 'w option" where
  "ds18s20_select W code command w =
     do {
       w \<leftarrow> onewire_send_byte W 0x55 (onewire_reset W w);
       w \<leftarrow> ds18s20_blocking_send_bytes W (take 7 (rom_code code)) w;
       w \<leftarrow> onewire_send_byte W (rom_crc code) w;
       onewire_send_byte W command w
     }"

definition ds18s20_blocking_read_scratchpad ::
    "'w onewire \<Rightarrow> onewire_rom_code \<Rightarrow> 'w \<Rightarrow> (u8 \<times> ds18s20_scratchpad \<times> 'w) option" where
  "ds18s20_blocking_read_scratchpad W code w =
     do {
       w \<leftarrow> ds18s20_select W code 0xBE w;
       (bs, w) \<leftarrow> ds18s20_blocking_read_bytes W 9 w;
       Some (1, scratchpad_of bs, w)
     }"

definition ds18s20_blocking_start_conversion :: "'w onewire \<Rightarrow> onewire_rom_code \<Rightarrow> 'w \<Rightarrow> 'w option" where
  "ds18s20_blocking_start_conversion W code w = ds18s20_select W code 0x44 w"

section \<open>Printing a reading\<close>

text \<open>
  The reading is a signed 16 bit number of half degrees. The right shift of a negative number
  rounds down, the division and the remainder of C round towards zero.
\<close>

fun print_signed :: "int \<Rightarrow> nat \<Rightarrow> u8 list \<Rightarrow> u8 list option" where
  "print_signed tmp 0 b = Some b"
| "print_signed tmp (Suc i) b =
     do {
       b \<leftarrow> put b i (word_of_int (tmp smod 10 + 48));
       print_signed (tmp sdiv 10) i b
     }"

definition ds18s10_blocking_print_temp :: "ds18s20_scratchpad \<Rightarrow> u8 list \<Rightarrow> u8 list option" where
  "ds18s10_blocking_print_temp sp b =
     (let tmp = push_bit 8 (ucast (temperature_msb sp)) + ucast (temperature_lsb sp) :: u16 in
      do {
        b \<leftarrow> put b 5 0;
        b \<leftarrow> put b 4 (if tmp AND 1 \<noteq> 0 then 0x35 else 0x30);
        b \<leftarrow> put b 3 0x2E;
        print_signed (sint tmp div 2) 3 b
      })"

definition half_degrees :: "ds18s20_scratchpad \<Rightarrow> int" where
  "half_degrees sp = sint (push_bit 8 (ucast (temperature_msb sp)) + ucast (temperature_lsb sp) :: u16)"

lemma print_signed_3:
  assumes "length b = 6"
  shows "print_signed t 3 b = Some
    ([word_of_int (t sdiv 10 sdiv 10 smod 10 + 48), word_of_int (t sdiv 10 smod 10 + 48), word_of_int (t smod 10 + 48)] @ drop 3 b)"
proof -
  obtain b0 b1 b2 bs where "b = b0 # b1 # b2 # bs" using assms by (auto simp: length_Suc_conv numeral_eq_Suc)
  then show ?thesis unfolding numeral_3_eq_3 by (simp add: put_def)
qed

lemma signed_digits:
  fixes n :: nat
  shows "int n sdiv 10 = int (n div 10)" "int n smod 10 = int (n mod 10)"
    "- int n sdiv 10 = - int (n div 10)" "- int n smod 10 = - int (n mod 10)"
  by (simp_all add: signed_divide_int_def signed_modulo_int_def sgn_if zdiv_int zmod_int)

lemma digits_zero:
  fixes n :: nat
  assumes "n < 1000" "n div 10 div 10 mod 10 = 0" "n div 10 mod 10 = 0" "n mod 10 = 0"
  shows "n = 0"
proof -
  have lt: "n div 10 div 10 < 10" using assms(1) by (simp add: div_mult2_eq [symmetric] less_mult_imp_div_less)
  have "n div 10 div 10 = 0" using assms(2) mod_less [OF lt] by (simp only:)
  then have "n div 10 < 10" by (simp add: div_eq_0_iff)
  then have "n div 10 = 0" using assms(3) mod_less [of "n div 10" 10] by (simp only:)
  then have "n < 10" by (simp add: div_eq_0_iff)
  then show ?thesis using assms(4) mod_less [of n 10] by (simp only:)
qed

lemma negative_digit: "is_digit (word_of_int (48 - int (n mod 10))) \<longleftrightarrow> n mod 10 = 0"
proof -
  have d: "n mod 10 < 10" by simp
  then have "48 - int (n mod 10) = int (48 - n mod 10)" by simp
  then have "(word_of_int (48 - int (n mod 10)) :: u8) = of_nat (48 - n mod 10)" by (simp only: of_int_of_nat_eq)
  moreover have "unat (of_nat (48 - n mod 10) :: u8) = 48 - n mod 10" unfolding unat_of_nat by simp
  ultimately show ?thesis using d by (auto simp: is_digit_def word_le_nat_alt)
qed

text \<open>
  (C33) A reading from 0 to 999.5 degrees is printed as three digits, a point and the half degree,
  and reads back as the reading. A reading below zero (down to -999 degrees) is not printed as a
  number: at least one of the three characters is not a digit.
\<close>

theorem temperature_text:
  assumes "length b = 6"
  shows "\<exists>t. ds18s10_blocking_print_temp sp b = Some (t @ [0x2E, if odd (half_degrees sp) then 0x35 else 0x30, 0]) \<and>
    length t = 3 \<and>
    (0 \<le> half_degrees sp \<and> half_degrees sp < 2000 \<longrightarrow> list_all is_digit t \<and> int (number t) = half_degrees sp div 2) \<and>
    (-1998 \<le> half_degrees sp \<and> half_degrees sp < 0 \<longrightarrow> \<not> list_all is_digit t)"
proof -
  define t where "t = half_degrees sp div 2"
  define tmp where "tmp = (push_bit 8 (ucast (temperature_msb sp)) + ucast (temperature_lsb sp) :: u16)"
  define chars where "chars = [word_of_int (t sdiv 10 sdiv 10 smod 10 + 48), word_of_int (t sdiv 10 smod 10 + 48), word_of_int (t smod 10 + 48) :: u8]"
  have odd: "(tmp AND 1 \<noteq> 0) = odd (half_degrees sp)"
  proof -
    have "bit (sint tmp) 0 = bit tmp 0" by (simp only: bit_sint_iff) simp
    then show ?thesis unfolding half_degrees_def tmp_def [symmetric] and_one_eq by (simp add: bit_0 mod_2_eq_odd)
  qed
  obtain b0 b1 b2 b3 b4 b5 where b: "b = [b0, b1, b2, b3, b4, b5]" using assms by (auto simp: length_Suc_conv numeral_eq_Suc)
  have "ds18s10_blocking_print_temp sp b = Some (chars @ [0x2E, if odd (half_degrees sp) then 0x35 else 0x30, 0])"
    unfolding ds18s10_blocking_print_temp_def tmp_def [symmetric] Let_def
    by (simp add: put_def b print_signed_3 odd chars_def t_def) (simp add: half_degrees_def tmp_def)
  moreover have "list_all is_digit chars \<and> int (number chars) = t" if h: "0 \<le> half_degrees sp" "half_degrees sp < 2000"
  proof -
    obtain n where n: "t = int n" "n < 1000" using h by (auto simp: t_def intro: that [of "nat (half_degrees sp div 2)"])
    have "chars = dec_digits 3 n"
      unfolding chars_def n(1) signed_digits numeral_3_eq_3 by (simp add: div_mult2_eq [symmetric])
    then show ?thesis using n digits_dec_digits [of 3 n] number_dec_digits [of 3 n] by simp
  qed
  moreover have "\<not> list_all is_digit chars" if h: "-1998 \<le> half_degrees sp" "half_degrees sp < 0"
  proof -
    obtain n where n: "t = - int n" "n < 1000" "0 < n"
      using h by (auto simp: t_def intro: that [of "nat (- (half_degrees sp div 2))"])
    have "list_all is_digit chars \<longleftrightarrow> n div 10 div 10 mod 10 = 0 \<and> n div 10 mod 10 = 0 \<and> n mod 10 = 0"
      unfolding chars_def n(1) signed_digits using negative_digit by (simp add: algebra_simps)
    then show ?thesis using n(2,3) digits_zero [of n] by (metis less_irrefl)
  qed
  ultimately show ?thesis by (intro exI [of _ chars]) (simp add: chars_def t_def)
qed

theorem temperature_text_witness:
  "\<exists>t. ds18s10_blocking_print_temp (scratchpad_of [0x2D, 0, 0, 0, 0, 0, 0, 0, 0]) (replicate 6 0) = Some (t @ [0x2E, 0x35, 0]) \<and>
     int (number t) = 22"
proof -
  have h: "half_degrees (scratchpad_of [0x2D, 0, 0, 0, 0, 0, 0, 0, 0]) = 45"
    by (simp add: half_degrees_def scratchpad_of_def)
  show ?thesis using temperature_text [of "replicate 6 0" "scratchpad_of [0x2D, 0, 0, 0, 0, 0, 0, 0, 0]", unfolded h] by auto
qed

end
