(* ===== verification/Quadrature.thy ===== *)
theory Quadrature
  imports Avr_Prelude
begin

text \<open>
  The rotary encoder of \<^verbatim>\<open>src/src/utils/quadrature_decoder.c\<close>: the decoder that turns the changes
  of two phase shifted signals into up and down events, and the filter that turns four events
  into one click of the knob. Reading a pin and the callbacks are functions on an arbitrary state.
\<close>

section \<open>The decoder\<close>

record 'h QuadratureDecoder =
  aInput :: "'h \<Rightarrow> u8 \<times> 'h"
  bInput :: "'h \<Rightarrow> u8 \<times> 'h"
  qd_callback :: "u8 \<Rightarrow> 'h \<Rightarrow> 'h"
  lastQuad :: u8

definition read_quad :: "'h QuadratureDecoder \<Rightarrow> 'h \<Rightarrow> u8 \<times> 'h" where
  "read_quad decoder h =
     (case aInput decoder h of (a, h) \<Rightarrow>
        case bInput decoder h of (b, h) \<Rightarrow>
          ((if a \<noteq> 0 then 1 else 0) + (if b \<noteq> 0 then 2 else 0), h))"

definition quadrature_decoder_init :: "'h QuadratureDecoder \<Rightarrow> 'h \<Rightarrow> 'h QuadratureDecoder \<times> 'h" where
  "quadrature_decoder_init decoder h =
     (case read_quad decoder h of (q, h) \<Rightarrow> (decoder\<lparr>lastQuad := q\<rparr>, h))"

text \<open>The direction of a change, from the changed bits and the two levels.\<close>

definition quad_direction :: "u8 \<Rightarrow> bool \<Rightarrow> bool \<Rightarrow> int" where
  "quad_direction quadDiff a b =
     (if quadDiff = 1 then (if a \<and> \<not> b \<or> \<not> a \<and> b then -1 else 1)
      else if quadDiff = 2 then (if b \<and> a \<or> \<not> b \<and> \<not> a then -1 else 1)
      else 0)"

definition quadrature_decoder_handleEvent :: "'h QuadratureDecoder \<Rightarrow> 'h \<Rightarrow> 'h QuadratureDecoder \<times> 'h" where
  "quadrature_decoder_handleEvent decoder h =
     (case aInput decoder h of (a, h) \<Rightarrow>
        case bInput decoder h of (b, h) \<Rightarrow>
          case read_quad decoder h of (newQuad, h) \<Rightarrow>
            let direction = quad_direction (newQuad XOR lastQuad decoder) (a \<noteq> 0) (b \<noteq> 0) in
            (decoder\<lparr>lastQuad := newQuad\<rparr>,
             if direction \<noteq> 0
             then (if direction = 1 then qd_callback decoder 1 h else qd_callback decoder 0 h)
             else h))"

section \<open>The filter\<close>

text \<open>The index is a signed 8 bit \<^verbatim>\<open>char\<close>.\<close>

record 'h QuadratureDecoderDetentFilter =
  df_callback :: "u8 \<Rightarrow> 'h \<Rightarrow> 'h"
  df_index :: u8

definition quadrature_decoder_detentFilterInit ::
    "'h QuadratureDecoderDetentFilter \<Rightarrow> 'h QuadratureDecoderDetentFilter" where
  "quadrature_decoder_detentFilterInit filt = filt\<lparr>df_index := 16\<rparr>"

definition quadrature_decoder_detentFilterHandleEvent ::
    "'h QuadratureDecoderDetentFilter \<Rightarrow> u8 \<Rightarrow> 'h \<Rightarrow> 'h QuadratureDecoderDetentFilter \<times> 'h" where
  "quadrature_decoder_detentFilterHandleEvent filt up h =
     (let i = (if up \<noteq> 0 then df_index filt + 1 else df_index filt - 1);
          (event, i) = (if sint i = 20 then (1, 16) else if sint i \<le> 12 then (-1, 16) else (0 :: int, i))
      in (filt\<lparr>df_index := i\<rparr>,
          if event = 1 then df_callback filt 1 h else if event = -1 then df_callback filt 0 h else h))"

section \<open>The knob\<close>

text \<open>
  A knob at a position counted in quarters of a click: the two signals are its Gray code. Its
  decoder drives a filter, and the filter counts clicks.
\<close>

definition level_a :: "int \<Rightarrow> u8" where
  "level_a p = (if p mod 4 \<in> {2, 3} then 1 else 0)"

definition level_b :: "int \<Rightarrow> u8" where
  "level_b p = (if p mod 4 \<in> {1, 2} then 1 else 0)"

record knob =
  position :: int
  filt :: "int QuadratureDecoderDetentFilter"
  clicks :: int

definition count_clicks :: "u8 \<Rightarrow> int \<Rightarrow> int" where
  "count_clicks up n = (if up \<noteq> 0 then n + 1 else n - 1)"

definition knob_event :: "u8 \<Rightarrow> knob \<Rightarrow> knob" where
  "knob_event up k =
     (case quadrature_decoder_detentFilterHandleEvent (filt k) up (clicks k) of
        (f, n) \<Rightarrow> k\<lparr>filt := f, clicks := n\<rparr>)"

definition knob_decoder :: "knob QuadratureDecoder" where
  "knob_decoder = \<lparr>aInput = (\<lambda>k. (level_a (position k), k)), bInput = (\<lambda>k. (level_b (position k), k)),
     qd_callback = knob_event, lastQuad = 0\<rparr>"

text \<open>The knob at rest after initialisation, and turned by one quarter, with the interrupt it raises.\<close>

definition knob_start :: "int \<Rightarrow> knob QuadratureDecoder \<times> knob" where
  "knob_start p =
     quadrature_decoder_init knob_decoder
       \<lparr>position = p, filt = quadrature_decoder_detentFilterInit \<lparr>df_callback = count_clicks, df_index = 0\<rparr>, clicks = 0\<rparr>"

definition turn :: "bool \<Rightarrow> knob QuadratureDecoder \<times> knob \<Rightarrow> knob QuadratureDecoder \<times> knob" where
  "turn up s = quadrature_decoder_handleEvent (fst s)
     ((snd s)\<lparr>position := (if up then position (snd s) + 1 else position (snd s) - 1)\<rparr>)"

definition quad_at :: "int \<Rightarrow> u8" where
  "quad_at p = level_a p + 2 * level_b p"

definition knob_inv :: "knob QuadratureDecoder \<times> knob \<Rightarrow> int \<Rightarrow> bool" where
  "knob_inv s p0 \<longleftrightarrow>
     fst s = knob_decoder\<lparr>lastQuad := quad_at (position (snd s))\<rparr> \<and>
     df_callback (filt (snd s)) = count_clicks \<and>
     df_index (filt (snd s)) \<in> {13, 14, 15, 16, 17, 18, 19} \<and>
     position (snd s) - p0 = 4 * clicks (snd s) + (sint (df_index (filt (snd s))) - 16)"

lemma mod4_cases:
  fixes p :: int
  obtains "p mod 4 = 0" | "p mod 4 = 1" | "p mod 4 = 2" | "p mod 4 = 3"
proof -
  have "p mod 4 < 4" "0 \<le> p mod 4" by simp_all
  then have "p mod 4 = 0 \<or> p mod 4 = 1 \<or> p mod 4 = 2 \<or> p mod 4 = 3" by linarith
  then show ?thesis using that by metis
qed

lemma read_quad_knob:
  "read_quad (knob_decoder\<lparr>lastQuad := q\<rparr>) k = (quad_at (position k), k)"
  "read_quad knob_decoder k = (quad_at (position k), k)"
  by (simp_all add: read_quad_def knob_decoder_def quad_at_def level_a_def level_b_def)

lemma quad_step_up:
  "quad_direction (quad_at (p + 1) XOR quad_at p) (level_a (p + 1) \<noteq> 0) (level_b (p + 1) \<noteq> 0) = 1"
proof -
  have "(p + 1) mod 4 = (p mod 4 + 1) mod 4" by (simp add: mod_add_left_eq)
  then show ?thesis
    by (cases rule: mod4_cases [of p]) (simp_all add: quad_direction_def quad_at_def level_a_def level_b_def)
qed

lemma quad_step_down:
  "quad_direction (quad_at (p - 1) XOR quad_at p) (level_a (p - 1) \<noteq> 0) (level_b (p - 1) \<noteq> 0) = -1"
proof -
  have "(p - 1) mod 4 = (p mod 4 + 3) mod 4" by presburger
  then show ?thesis
    by (cases rule: mod4_cases [of p]) (simp_all add: quad_direction_def quad_at_def level_a_def level_b_def)
qed

lemma turn_knob:
  assumes "fst s = knob_decoder\<lparr>lastQuad := quad_at (position (snd s))\<rparr>"
  shows "turn up s =
    (let k = (snd s)\<lparr>position := (if up then position (snd s) + 1 else position (snd s) - 1)\<rparr> in
     (knob_decoder\<lparr>lastQuad := quad_at (position k)\<rparr>, knob_event (if up then 1 else 0) k))"
  using assms quad_step_up [of "position (snd s)"] quad_step_down [of "position (snd s)"]
  by (simp add: turn_def quadrature_decoder_handleEvent_def read_quad_knob Let_def)
    (simp add: knob_decoder_def)

lemma knob_inv_turn:
  assumes "knob_inv s p0" shows "knob_inv (turn up s) p0"
proof -
  have dec: "fst s = knob_decoder\<lparr>lastQuad := quad_at (position (snd s))\<rparr>" using assms by (simp add: knob_inv_def)
  show ?thesis
    using assms unfolding turn_knob [OF dec] knob_inv_def
    by (cases up) (auto simp: Let_def knob_event_def quadrature_decoder_detentFilterHandleEvent_def count_clicks_def)
qed

text \<open>
  (C8) The decoder and the filter together count the clicks of the knob: after every sequence of
  quarter turns in either direction the distance from the start is four times the clicks counted
  up minus those counted down, plus the quarters (at most three) that have not made a click yet.
\<close>

theorem knob_counts_clicks:
  fixes turns :: "bool list" and p :: int
  defines "s \<equiv> snd (fold turn turns (knob_start p))"
  shows "position s = p + (\<Sum>up \<leftarrow> turns. if up then 1 else -1) \<and>
    position s - p = 4 * clicks s + (sint (df_index (filt s)) - 16) \<and>
    \<bar>sint (df_index (filt s)) - 16\<bar> \<le> 3"
proof -
  have start: "knob_inv (knob_start p) p" "position (snd (knob_start p)) = p"
    by (simp_all add: knob_start_def quadrature_decoder_init_def knob_inv_def quadrature_decoder_detentFilterInit_def read_quad_knob)
  have run: "knob_inv (fold turn us s0) p \<and>
      position (snd (fold turn us s0)) = position (snd s0) + (\<Sum>up \<leftarrow> us. if up then 1 else -1)"
    if "knob_inv s0 p" for us s0
    using that
  proof (induction us arbitrary: s0)
    case (Cons u us)
    have dec: "fst s0 = knob_decoder\<lparr>lastQuad := quad_at (position (snd s0))\<rparr>" using Cons.prems by (simp add: knob_inv_def)
    have "position (snd (turn u s0)) = position (snd s0) + (if u then 1 else -1)"
      by (simp add: turn_knob [OF dec] Let_def knob_event_def split: prod.split)
    then show ?case using Cons.IH [OF knob_inv_turn [OF Cons.prems]] by simp
  qed simp
  show ?thesis using run [OF start(1), of turns] start(2) by (auto simp: s_def knob_inv_def)
qed

end
