(* ===== verification/Actuators.thy ===== *)
theory Actuators
  imports Avr_Prelude "HOL-Library.Monad_Syntax"
begin

text \<open>
  The outputs that are timed in software: dithering (\<^verbatim>\<open>src/src/board_support/sw_dither.h\<close>), the
  motor bridge on top of it (\<^verbatim>\<open>src/src/peripherals/motor_control/h-bridge-3pin.c\<close>), and the two
  servo drivers (\<^verbatim>\<open>src/src/peripherals/sw_rc_servo.h\<close>, \<^verbatim>\<open>src/src/peripherals/hw_rc_servo.c\<close>).
\<close>

section \<open>Dithering\<close>

record sw_dither =
  dither_counter :: u16
  dither_max :: u16
  dither_power :: u16

definition sw_dither_init :: "u16 \<Rightarrow> sw_dither" where
  "sw_dither_init mx = \<lparr>dither_counter = 0, dither_max = mx, dither_power = 0\<rparr>"

definition sw_dither_set :: "u16 \<Rightarrow> sw_dither \<Rightarrow> sw_dither" where
  "sw_dither_set pw dither = dither\<lparr>dither_power := pw\<rparr>"

definition sw_dither_animate :: "sw_dither \<Rightarrow> u8 \<times> sw_dither" where
  "sw_dither_animate dither =
     (let c = dither_counter dither + dither_power dither in
      if dither_max dither \<le> c then (1, dither\<lparr>dither_counter := c - dither_max dither\<rparr>)
      else (0, dither\<lparr>dither_counter := c\<rparr>))"

section \<open>The motor bridge\<close>

text \<open>The pins are driven by a function on an arbitrary state.\<close>

record 'h HBridge3PinHandle =
  bridge_io :: "u8 \<Rightarrow> u8 \<Rightarrow> u8 \<Rightarrow> 'h \<Rightarrow> 'h"
  bridge_dither :: sw_dither
  bridge_a :: u8
  bridge_b :: u8

definition hBridge3PinInit :: "u16 \<Rightarrow> (u8 \<Rightarrow> u8 \<Rightarrow> u8 \<Rightarrow> 'h \<Rightarrow> 'h) \<Rightarrow> 'h HBridge3PinHandle" where
  "hBridge3PinInit maxPower io =
     \<lparr>bridge_io = io, bridge_dither = sw_dither_set 0 (sw_dither_init maxPower), bridge_a = 255, bridge_b = 0\<rparr>"

text \<open>The power is a signed 16 bit number.\<close>

definition hBridge3PinSetPower :: "u16 \<Rightarrow> 'h HBridge3PinHandle \<Rightarrow> 'h HBridge3PinHandle" where
  "hBridge3PinSetPower pw handle =
     (let (pw, handle) =
        (if sint pw < 0 then (- pw, handle\<lparr>bridge_b := 255, bridge_a := 0\<rparr>)
         else (pw, handle\<lparr>bridge_a := 255, bridge_b := 0\<rparr>))
      in handle\<lparr>bridge_dither := sw_dither_set pw (bridge_dither handle)\<rparr>)"

definition hBridge3PinAnimate :: "'h HBridge3PinHandle \<Rightarrow> 'h \<Rightarrow> 'h HBridge3PinHandle \<times> 'h" where
  "hBridge3PinAnimate handle h =
     (case sw_dither_animate (bridge_dither handle) of (r, d) \<Rightarrow>
        let enable = (if r \<noteq> 0 then 255 else 0) in
        (handle\<lparr>bridge_dither := d\<rparr>, bridge_io handle enable (bridge_a handle) (bridge_b handle) h))"

section \<open>The servo counted in calls\<close>

record sw_rc_servo =
  servo_pos :: u16
  ticks_per_ms :: u8
  servo_counter :: u16

definition sw_rc_servo_init :: "u8 \<Rightarrow> sw_rc_servo" where
  "sw_rc_servo_init ticks = \<lparr>servo_pos = ucast ticks div 2 + ucast ticks, ticks_per_ms = ticks, servo_counter = 20 * ucast ticks\<rparr>"

definition sw_rc_servo_set_pos :: "u8 \<Rightarrow> sw_rc_servo \<Rightarrow> sw_rc_servo" where
  "sw_rc_servo_set_pos pos servo = servo\<lparr>servo_pos := ucast pos + ucast (ticks_per_ms servo)\<rparr>"

definition sw_rc_servo_animate :: "sw_rc_servo \<Rightarrow> u8 \<times> sw_rc_servo" where
  "sw_rc_servo_animate servo =
     (let c = servo_counter servo - 1; servo = servo\<lparr>servo_counter := c\<rparr> in
      if c = 0 then (0, servo\<lparr>servo_counter := ucast (ticks_per_ms servo) * 20\<rparr>)
      else if c < servo_pos servo then (1, servo)
      else (0, servo))"

section \<open>The servos on the compare interrupt\<close>

record hw_rc_servo =
  on_period :: u16
  remaining_period :: u16

record hw_rc_servos =
  number_of_servos :: u8
  servo_index :: u8
  lastTick :: u16
  ticksRemainingIn50Hz :: u32
  servos :: "hw_rc_servo list"

text \<open>
  An access outside of the buffer is \<open>None\<close>. Initialisation writes every servo of the buffer. The registers written last are the result's second part.
\<close>

definition hw_servo_init :: "hw_rc_servo list \<Rightarrow> u8 \<Rightarrow> u8 \<Rightarrow> (hw_rc_servos \<times> u16 \<times> u8) option" where
  "hw_servo_init buffers number timsk1 =
     (if length buffers < unat number then None
      else Some (\<lparr>number_of_servos = number, servo_index = 0, lastTick = 0, ticksRemainingIn50Hz = 320000,
                  servos = replicate (unat number) \<lparr>on_period = 16000 + 16000 div 2, remaining_period = 16000 + 16000 div 2\<rparr>
                           @ drop (unat number) buffers\<rparr>,
                 0, timsk1 OR 8))"

definition hw_servo_set :: "u8 \<Rightarrow> u16 \<Rightarrow> hw_rc_servos \<Rightarrow> hw_rc_servos option" where
  "hw_servo_set index position s =
     (let fraction = (16000 * ucast position) div 1024 :: u32 in
      if number_of_servos s \<le> index then Some s
      else if length (servos s) \<le> unat index then None
      else Some (s\<lparr>servos := (servos s)[unat index := (servos s ! unat index)\<lparr>on_period := ucast fraction + 16000\<rparr>]\<rparr>))"

definition TIMER1_COMPC_vect :: "hw_rc_servos \<Rightarrow> hw_rc_servos option" where
  "TIMER1_COMPC_vect s =
     do {
       let index = servo_index s;
       (ticks, s) \<leftarrow>
         (if index = number_of_servos s then
            Some ((if 32000 \<le> ticksRemainingIn50Hz s then 16000
                   else if 16000 < ticksRemainingIn50Hz s then ucast (drop_bit 1 (ticksRemainingIn50Hz s))
                   else ucast (ticksRemainingIn50Hz s)), s)
          else if length (servos s) \<le> unat index then None
          else
            let v = servos s ! unat index;
                ticks = remaining_period v;
                ticks = (if 32000 \<le> ticks then 16000
                         else if 16000 < ticks then ucast (drop_bit 1 (ticksRemainingIn50Hz s))
                         else ticks) :: u16
            in Some (ticks, s\<lparr>servos := (servos s)[unat index := v\<lparr>remaining_period := remaining_period v - ticks\<rparr>]\<rparr>));
       Some (s\<lparr>ticksRemainingIn50Hz := ticksRemainingIn50Hz s - ucast ticks\<rparr>)
     }"

section \<open>Properties\<close>

lemma abs_sint_u16:
  fixes x :: u16
  shows "int (unat (if sint x < 0 then - x else x)) = \<bar>sint x\<bar>"
proof (cases "sint x < 0")
  case True
  have "- 32768 \<le> sint x" using sint_ge [of x] by simp
  then have "(- sint x) mod 65536 = - sint x" using True by simp
  moreover have "word_of_int (- sint x) = - x" by simp
  then have "uint (- x) = (- sint x) mod 65536"
    using uint_word_of_int [of "- sint x", where 'a = 16] by simp
  ultimately show ?thesis using True by simp
next
  case False
  have "sint x < 32768" using sint_less [of x] by simp
  then have "sint x mod 65536 = sint x" using False by simp
  moreover have "uint x = sint x mod 65536" using uint_word_of_int [of "sint x", where 'a = 16] by simp
  ultimately show ?thesis using False by simp
qed

lemma dither_step:
  assumes "unat (dither_counter d) < unat (dither_max d)" "unat (dither_power d) \<le> unat (dither_max d)"
    "unat (dither_max d) \<le> 32768" "sw_dither_animate d = (r, d')"
  shows "dither_max d' = dither_max d \<and> dither_power d' = dither_power d \<and> unat (dither_counter d') < unat (dither_max d) \<and>
    unat (dither_max d) * (if r \<noteq> 0 then 1 else 0) + unat (dither_counter d') = unat (dither_counter d) + unat (dither_power d)"
proof -
  have s: "unat (dither_counter d + dither_power d) = unat (dither_counter d) + unat (dither_power d)"
    using assms(1-3) by (simp add: unat_plus_u16)
  show ?thesis
  proof (cases "dither_max d \<le> dither_counter d + dither_power d")
    case True
    then have "unat (dither_counter d + dither_power d - dither_max d) = unat (dither_counter d) + unat (dither_power d) - unat (dither_max d)"
      using s by (simp add: unat_minus_le)
    moreover have "unat (dither_max d) \<le> unat (dither_counter d) + unat (dither_power d)"
      using True s by (simp add: word_le_nat_alt)
    ultimately show ?thesis using assms True by (auto simp: sw_dither_animate_def Let_def)
  next
    case False
    then show ?thesis using assms s by (auto simp: sw_dither_animate_def Let_def word_le_nat_alt)
  qed
qed


primrec animate :: "nat \<Rightarrow> 'h HBridge3PinHandle \<times> 'h \<Rightarrow> 'h HBridge3PinHandle \<times> 'h" where
  "animate 0 s = s"
| "animate (Suc n) s = animate n (hBridge3PinAnimate (fst s) (snd s))"

definition log_pins :: "u8 \<Rightarrow> u8 \<Rightarrow> u8 \<Rightarrow> (u8 \<times> u8 \<times> u8) list \<Rightarrow> (u8 \<times> u8 \<times> u8) list" where
  "log_pins enable a b ps = ps @ [(enable, a, b)]"

definition enabled :: "(u8 \<times> u8 \<times> u8) list \<Rightarrow> nat" where
  "enabled ps = length (filter (\<lambda>(enable, a, b). enable = 255) ps)"

lemma animate_run:
  assumes "bridge_io k = log_pins" "unat (dither_counter (bridge_dither k)) < unat (dither_max (bridge_dither k))"
    "unat (dither_power (bridge_dither k)) \<le> unat (dither_max (bridge_dither k))" "unat (dither_max (bridge_dither k)) \<le> 32768"
  shows "\<exists>k' ps. animate n (k, h) = (k', h @ ps) \<and> length ps = n \<and>
    (\<forall>p \<in> set ps. snd p = (bridge_a k, bridge_b k) \<and> fst p \<in> {0, 255}) \<and>
    unat (dither_counter (bridge_dither k')) < unat (dither_max (bridge_dither k)) \<and>
    unat (dither_max (bridge_dither k)) * enabled ps + unat (dither_counter (bridge_dither k')) =
      unat (dither_counter (bridge_dither k)) + n * unat (dither_power (bridge_dither k))"
  using assms
proof (induction n arbitrary: k h)
  case 0
  then show ?case by (simp add: enabled_def)
next
  case (Suc n)
  obtain r d where d: "sw_dither_animate (bridge_dither k) = (r, d)" by (rule prod.exhaust)
  note step = dither_step [OF Suc.prems(2-4) d]
  define k1 where "k1 = k\<lparr>bridge_dither := d\<rparr>"
  define p where "p = (if r \<noteq> 0 then 255 else 0 :: u8, bridge_a k, bridge_b k)"
  have a: "animate (Suc n) (k, h) = animate n (k1, h @ [p])"
    using Suc.prems(1) by (simp add: hBridge3PinAnimate_def d log_pins_def k1_def p_def)
  obtain k' ps where ih: "animate n (k1, h @ [p]) = (k', (h @ [p]) @ ps)" "length ps = n"
    "\<forall>p \<in> set ps. snd p = (bridge_a k, bridge_b k) \<and> fst p \<in> {0, 255}"
    "unat (dither_counter (bridge_dither k')) < unat (dither_max (bridge_dither k))"
    "unat (dither_max (bridge_dither k)) * enabled ps + unat (dither_counter (bridge_dither k')) =
      unat (dither_counter d) + n * unat (dither_power (bridge_dither k))"
    using Suc.IH [of k1 "h @ [p]"] Suc.prems step by (auto simp: k1_def)
  have "enabled (p # ps) = (if r \<noteq> 0 then 1 else 0) + enabled ps" by (simp add: enabled_def p_def)
  then have "unat (dither_max (bridge_dither k)) * enabled (p # ps) + unat (dither_counter (bridge_dither k')) =
      unat (dither_counter (bridge_dither k)) + Suc n * unat (dither_power (bridge_dither k))"
    using ih(5) step by (simp add: distrib_left)
  then show ?case using a ih by (intro exI [of _ k'] exI [of _ "p # ps"]) (simp add: p_def)
qed

text \<open>
  (C21) The bridge drives the motor with the power set, in the direction of its sign: over any
  number of calls the share of calls that enable the output is the power divided by the maximum,
  up to less than one call, for every maximum up to 32768 and every power within it.
\<close>

theorem bridge_average_power:
  fixes pw mx :: u16
  assumes "0 < unat mx" "unat mx \<le> 32768" "\<bar>sint pw\<bar> \<le> int (unat mx)"
  shows "\<exists>k ps. animate n (hBridge3PinSetPower pw (hBridge3PinInit mx log_pins), []) = (k, ps) \<and> length ps = n \<and>
    (\<forall>p \<in> set ps. snd p = (if sint pw < 0 then (0, 255) else (255, 0))) \<and>
    n * nat \<bar>sint pw\<bar> < unat mx * enabled ps + unat mx \<and> unat mx * enabled ps \<le> n * nat \<bar>sint pw\<bar>"
proof -
  let ?k = "hBridge3PinSetPower pw (hBridge3PinInit mx log_pins)"
  define q where "q = (if sint pw < 0 then - pw else pw)"
  have q: "int (unat q) = \<bar>sint pw\<bar>"
    unfolding q_def by (rule abs_sint_u16)
  have k: "bridge_io ?k = log_pins" "bridge_dither ?k = \<lparr>dither_counter = 0, dither_max = mx, dither_power = q\<rparr>"
    "(bridge_a ?k, bridge_b ?k) = (if sint pw < 0 then (0, 255) else (255, 0))"
    by (simp_all add: hBridge3PinSetPower_def hBridge3PinInit_def sw_dither_set_def sw_dither_init_def q_def)
  obtain k' ps where r: "animate n (?k, []) = (k', [] @ ps)" "length ps = n"
    "\<forall>p \<in> set ps. snd p = (bridge_a ?k, bridge_b ?k) \<and> fst p \<in> {0, 255}"
    "unat (dither_counter (bridge_dither k')) < unat mx"
    "unat mx * enabled ps + unat (dither_counter (bridge_dither k')) = n * unat q"
    using animate_run [OF k(1), of n "[]"] assms q by (auto simp: k(2))
  have "nat \<bar>sint pw\<bar> = unat q" using q by linarith
  then show ?thesis using r k(3) by (intro exI [of _ k'] exI [of _ ps]) auto
qed

theorem bridge_average_power_witness:
  "\<exists>k ps. animate 7 (hBridge3PinSetPower (- 3) (hBridge3PinInit 10 log_pins), []) = (k, ps) \<and> enabled ps = 2"
proof -
  have h: "0 < unat (10 :: u16)" "unat (10 :: u16) \<le> 32768" "\<bar>sint (- 3 :: u16)\<bar> \<le> int (unat (10 :: u16))" by simp_all
  obtain k ps where r: "animate 7 (hBridge3PinSetPower (- 3) (hBridge3PinInit 10 log_pins), []) = (k, ps)"
    "7 * nat \<bar>sint (- 3 :: u16)\<bar> < unat (10 :: u16) * enabled ps + unat (10 :: u16)"
    "unat (10 :: u16) * enabled ps \<le> 7 * nat \<bar>sint (- 3 :: u16)\<bar>"
    using bridge_average_power [OF h, of 7] by blast
  then have "enabled ps = 2" by simp
  then show ?thesis using r(1) by blast
qed

primrec servo_run :: "nat \<Rightarrow> sw_rc_servo \<Rightarrow> u8 list \<times> sw_rc_servo" where
  "servo_run 0 s = ([], s)"
| "servo_run (Suc n) s =
     (case sw_rc_servo_animate s of (r, s) \<Rightarrow> case servo_run n s of (rs, s) \<Rightarrow> (r # rs, s))"

lemma servo_run_add:
  "servo_run (m + n) s = (case servo_run m s of (rs, s) \<Rightarrow> case servo_run n s of (qs, s) \<Rightarrow> (rs @ qs, s))"
  by (induction m arbitrary: s) (simp_all add: split_def)

lemma servo_run_down:
  "m < unat (servo_counter s) \<Longrightarrow>
   servo_run m s = (map (\<lambda>i. if unat (servo_counter s) - Suc i < unat (servo_pos s) then 1 else 0) [0 ..< m],
                    s\<lparr>servo_counter := servo_counter s - of_nat m\<rparr>)"
proof (induction m arbitrary: s)
  case (Suc m)
  define s1 where "s1 = s\<lparr>servo_counter := servo_counter s - 1\<rparr>"
  have c: "unat (servo_counter s - 1) = unat (servo_counter s) - 1"
    using Suc.prems by (subst unat_minus_le) (simp_all add: word_le_nat_alt)
  then have "servo_counter s - 1 \<noteq> 0" using Suc.prems by (auto simp: word_unat_eq_iff)
  then have a: "sw_rc_servo_animate s = (if unat (servo_counter s) - 1 < unat (servo_pos s) then 1 else 0, s1)"
    using c by (simp add: sw_rc_servo_animate_def Let_def s1_def word_less_nat_alt)
  have "servo_run m s1 = (map (\<lambda>i. if unat (servo_counter s1) - Suc i < unat (servo_pos s1) then 1 else 0) [0 ..< m],
      s1\<lparr>servo_counter := servo_counter s1 - of_nat m\<rparr>)"
    using Suc.prems c by (intro Suc.IH) (simp add: s1_def)
  then show ?case using a c
    by (simp add: s1_def map_upt_Suc algebra_simps del: upt_Suc)
qed simp

text \<open>
  (C34) The servo signal repeats every 20 ms. With \<open>t\<close> ticks per millisecond and the position
  \<open>p\<close> set, each period is low first and ends in a pulse of \<open>t + p - 1\<close> ticks and one low tick,
  and the servo is then in the state it started from.
\<close>

theorem sw_servo_pulse:
  fixes t p :: u8
  defines "s \<equiv> sw_rc_servo_set_pos p (sw_rc_servo_init t)"
  assumes "0 < unat t" "unat p \<le> 19 * unat t"
  shows "servo_run (20 * unat t) s =
    (replicate (19 * unat t - unat p) 0 @ replicate (unat t + unat p - 1) 1 @ [0], s)"
proof -
  have t: "unat t < 256" "unat p < 256" by (rule unat_less_u8)+
  have c: "unat (servo_counter s) = 20 * unat t" "unat (servo_pos s) = unat p + unat t" "ticks_per_ms s = t"
    using t by (simp_all add: s_def sw_rc_servo_set_pos_def sw_rc_servo_init_def unat_plus_u16 unat_times_u16)
  define m where "m = 20 * unat t - 1"
  have m: "20 * unat t = m + 1" "m < unat (servo_counter s)" using assms(2) c by (simp_all add: m_def)
  have low: "servo_run m s = (map (\<lambda>i. if 20 * unat t - Suc i < unat p + unat t then 1 else 0) [0 ..< m],
      s\<lparr>servo_counter := servo_counter s - of_nat m\<rparr>)"
    using servo_run_down [OF m(2)] by (simp add: c)
  have one: "servo_counter s - of_nat m = 1"
  proof -
    have "unat (of_nat (m + 1) :: u16) = m + 1" using m(1) t unfolding unat_of_nat by simp
    then have "servo_counter s = of_nat (m + 1)" using c(1) m(1) by (simp only: word_unat_eq_iff)
    then show ?thesis by simp
  qed
  have "ucast t * 20 = servo_counter s" by (simp add: s_def sw_rc_servo_set_pos_def sw_rc_servo_init_def)
  then have last: "servo_run 1 (s\<lparr>servo_counter := servo_counter s - of_nat m\<rparr>) = ([0], s)"
    by (simp add: one sw_rc_servo_animate_def c(3))
  have "map (\<lambda>i. if 20 * unat t - Suc i < unat p + unat t then 1 else 0 :: u8) [0 ..< m] =
      replicate (19 * unat t - unat p) 0 @ replicate (unat t + unat p - 1) 1"
    using assms(2,3) by (intro nth_equalityI) (auto simp: m_def nth_append)
  then show ?thesis unfolding m(1) servo_run_add using low last by (simp only: m(1) prod.case append.assoc)
qed

theorem sw_servo_pulse_witness:
  "servo_run 40 (sw_rc_servo_set_pos 1 (sw_rc_servo_init 2)) =
     (replicate 37 0 @ replicate 2 1 @ [0], sw_rc_servo_set_pos 1 (sw_rc_servo_init 2))"
  using sw_servo_pulse [of 2 1] by simp

text \<open>
  In the compare interrupt the wait of a servo with more than one and less than two milliseconds
  left is taken from the time left in the whole period: a centred servo is then left with a wrapped
  remaining time instead of half of it.
\<close>

lemma hw_servo_isr_wraps:
  "hw_servo_init [\<lparr>on_period = 0, remaining_period = 0\<rparr>] 1 0 \<bind> (\<lambda>(s, _). TIMER1_COMPC_vect s) =
   Some \<lparr>number_of_servos = 1, servo_index = 0, lastTick = 0, ticksRemainingIn50Hz = 320000 - 28928,
         servos = [\<lparr>on_period = 24000, remaining_period = 24000 - 28928\<rparr>]\<rparr>"
  by (simp add: hw_servo_init_def TIMER1_COMPC_vect_def)

end
