(* ===== verification/Mmio.thy ===== *)
theory Mmio
  imports Avr_Prelude "HOL-Library.Monad_Syntax"
begin

text \<open>
  The I/O registers of the processor. A driver reads and writes registers of a device whose state
  is arbitrary, so that a register may change between two reads and a write may start something.
  Waiting for a flag may never end, which is \<open>None\<close>. Two devices are defined on top: registers that
  just keep what is written to them, and a record of all writes to another device.
\<close>

section \<open>Registers\<close>

datatype reg =
    PORTB | PORTC | PORTD | PINB | PINC | PIND | DDRB | DDRC | DDRD
  | EICRA | EICRB | EIMSK | MCUSR | WDTCSR | CLKPR
  | TCCR0A | TCCR0B | OCR0A | OCR0B | TIMSK0
  | ADMUX | ADCSRA | DIDR0
  | PCICR | PCMSK2
  | SPCR | SPSR | SPDR
  | TWBR | TWSR | TWCR | TWDR
  | UCSR0A | UCSR0B | UCSR0C | UDR0 | UCSR1A | UCSR1B | UCSR1C | UDR1

datatype reg16 = UBRR0 | UBRR1 | ADC_result

record 'h mmio =
  rd :: "reg \<Rightarrow> 'h \<Rightarrow> u8 \<times> 'h"
  wr :: "reg \<Rightarrow> u8 \<Rightarrow> 'h \<Rightarrow> 'h"
  rd16 :: "reg16 \<Rightarrow> 'h \<Rightarrow> u16 \<times> 'h"
  wr16 :: "reg16 \<Rightarrow> u16 \<Rightarrow> 'h \<Rightarrow> 'h"

text \<open>The assignment operators of C on a register, and the loop that waits for a flag.\<close>

definition modify_reg :: "'h mmio \<Rightarrow> reg \<Rightarrow> (u8 \<Rightarrow> u8) \<Rightarrow> 'h \<Rightarrow> 'h" where
  "modify_reg M r f h = (case rd M r h of (v, h) \<Rightarrow> wr M r (f v) h)"

definition or_reg :: "'h mmio \<Rightarrow> reg \<Rightarrow> u8 \<Rightarrow> 'h \<Rightarrow> 'h" where
  "or_reg M r m = modify_reg M r (\<lambda>v. v OR m)"

definition and_reg :: "'h mmio \<Rightarrow> reg \<Rightarrow> u8 \<Rightarrow> 'h \<Rightarrow> 'h" where
  "and_reg M r m = modify_reg M r (\<lambda>v. v AND m)"

definition xor_reg :: "'h mmio \<Rightarrow> reg \<Rightarrow> u8 \<Rightarrow> 'h \<Rightarrow> 'h" where
  "xor_reg M r m = modify_reg M r (\<lambda>v. v XOR m)"

partial_function (option) wait_flag :: "'h mmio \<Rightarrow> reg \<Rightarrow> u8 \<Rightarrow> 'h \<Rightarrow> 'h option" where
  "wait_flag M r m h = (case rd M r h of (v, h) \<Rightarrow> if v AND m = 0 then wait_flag M r m h else Some h)"

section \<open>Plain registers\<close>

type_synonym registers = "(reg \<Rightarrow> u8) \<times> (reg16 \<Rightarrow> u16)"

definition plain :: "registers mmio" where
  "plain = \<lparr>rd = (\<lambda>r h. (fst h r, h)), wr = (\<lambda>r v h. ((fst h)(r := v), snd h)),
            rd16 = (\<lambda>r h. (snd h r, h)), wr16 = (\<lambda>r v h. (fst h, (snd h)(r := v)))\<rparr>"

lemma plain_simps [simp]:
  "rd plain r h = (fst h r, h)" "wr plain r v h = ((fst h)(r := v), snd h)"
  "rd16 plain q h = (snd h q, h)" "wr16 plain q w h = (fst h, (snd h)(q := w))"
  by (simp_all add: plain_def)

lemma plain_modify [simp]:
  "modify_reg plain r f h = ((fst h)(r := f (fst h r)), snd h)"
  by (simp add: modify_reg_def)

lemmas reg_ops = or_reg_def and_reg_def xor_reg_def

section \<open>Recorded writes\<close>

definition logged :: "'h mmio \<Rightarrow> ('h \<times> (reg \<times> u8) list) mmio" where
  "logged M =
     \<lparr>rd = (\<lambda>r (h, l). case rd M r h of (v, h) \<Rightarrow> (v, (h, l))), wr = (\<lambda>r v (h, l). (wr M r v h, l @ [(r, v)])),
      rd16 = (\<lambda>r (h, l). case rd16 M r h of (v, h) \<Rightarrow> (v, (h, l))), wr16 = (\<lambda>r v (h, l). (wr16 M r v h, l))\<rparr>"

definition writes_to :: "reg \<Rightarrow> (reg \<times> u8) list \<Rightarrow> u8 list" where
  "writes_to r l = map snd (filter (\<lambda>w. fst w = r) l)"

lemma writes_to_simps [simp]:
  "writes_to r [] = []" "writes_to r (l @ l') = writes_to r l @ writes_to r l'"
  "writes_to r ((q, v) # l) = (if q = r then v # writes_to r l else writes_to r l)"
  by (simp_all add: writes_to_def)

lemma logged_wr [simp]: "snd (wr (logged M) r v s) = snd s @ [(r, v)]"
  by (simp add: logged_def split_def)

lemma logged_rd [simp]: "snd (snd (rd (logged M) r s)) = snd s"
  by (simp add: logged_def split_def)

lemma logged_rdD: "rd (logged M) r s = (v, s') \<Longrightarrow> snd s' = snd s"
  using logged_rd [of M r s] by simp

lemma logged_wait:
  assumes "wait_flag (logged M) r m s = Some s'" shows "snd s' = snd s"
proof -
  have "N = logged M \<longrightarrow> snd s' = snd s" if "wait_flag N r m s = Some s'" for N
  proof (rule wait_flag.raw_induct [where P = "\<lambda>N r m s s'. N = logged M \<longrightarrow> snd s' = snd s", OF _ that])
    fix wait N r m s s'
    assume ih: "\<And>N r m s s'. wait N r m s = Some s' \<Longrightarrow> N = logged M \<longrightarrow> snd s' = snd s"
      and run: "(case rd N r s of (v, h) \<Rightarrow> if v AND m = 0 then wait N r m h else Some h) = Some s'"
    show "N = logged M \<longrightarrow> snd s' = snd s"
    proof
      assume N: "N = logged M"
      obtain v h where h: "rd N r s = (v, h)" by (rule prod.exhaust)
      have "snd h = snd s" using h N logged_rdD by blast
      then show "snd s' = snd s" using run h ih [of N r m h s'] N by (auto split: if_splits)
    qed
  qed
  then show ?thesis using assms by blast
qed

end
