(* ===== verification/Buses.thy ===== *)
theory Buses
  imports Mmio
begin

text \<open>
  The serial interfaces: the two asynchronous ports (\<^verbatim>\<open>src/src/board_support/async_serial_0.c\<close> and
  \<^verbatim>\<open>async_serial_1.c\<close>), the SPI bus (\<^verbatim>\<open>spi.c\<close>) and the two wire bus (\<^verbatim>\<open>twi.c\<close>).
\<close>

section \<open>Asynchronous ports\<close>

datatype SerialSpeed =
  SERIAL_SPEED_9600 | SERIAL_SPEED_19200 | SERIAL_SPEED_38400 | SERIAL_SPEED_76800 | SERIAL_SPEED_115200

text \<open>The two ports have the same code on different registers.\<close>

record uart =
  ucsra :: reg
  ucsrb :: reg
  ucsrc :: reg
  udr :: reg
  ubrr :: reg16

definition uart0 :: uart where
  "uart0 = \<lparr>ucsra = UCSR0A, ucsrb = UCSR0B, ucsrc = UCSR0C, udr = UDR0, ubrr = UBRR0\<rparr>"

definition uart1 :: uart where
  "uart1 = \<lparr>ucsra = UCSR1A, ucsrb = UCSR1B, ucsrc = UCSR1C, udr = UDR1, ubrr = UBRR1\<rparr>"

definition uart_init :: "uart \<Rightarrow> 'h mmio \<Rightarrow> SerialSpeed \<Rightarrow> 'h \<Rightarrow> 'h" where
  "uart_init u M speed h =
     (let (a, b) = (case speed of
          SERIAL_SPEED_9600 \<Rightarrow> (0, 103)
        | SERIAL_SPEED_19200 \<Rightarrow> (0, 51)
        | SERIAL_SPEED_38400 \<Rightarrow> (0, 25)
        | SERIAL_SPEED_76800 \<Rightarrow> (0, 12)
        | SERIAL_SPEED_115200 \<Rightarrow> (2, 16));
          h = wr16 M (ubrr u) b (wr M (ucsra u) a h);
          h = wr M (ucsrb u) 0x18 h
      in wr M (ucsrc u) 0x06 h)"

definition uart_byte_ready :: "uart \<Rightarrow> 'h mmio \<Rightarrow> 'h \<Rightarrow> u8 \<times> 'h" where
  "uart_byte_ready u M h = (case rd M (ucsra u) h of (v, h) \<Rightarrow> (v AND 0x80, h))"

definition uart_read_byte :: "uart \<Rightarrow> 'h mmio \<Rightarrow> 'h \<Rightarrow> (u8 \<times> 'h) option" where
  "uart_read_byte u M h = do { h \<leftarrow> wait_flag M (ucsra u) 0x80 h; Some (rd M (udr u) h) }"

definition uart_write_byte :: "uart \<Rightarrow> 'h mmio \<Rightarrow> u8 \<Rightarrow> 'h \<Rightarrow> 'h option" where
  "uart_write_byte u M data h = do { h \<leftarrow> wait_flag M (ucsra u) 0x20 h; Some (wr M (udr u) data h) }"

text \<open>A string ends at its terminator, or where the list does.\<close>

fun uart_write_string :: "uart \<Rightarrow> 'h mmio \<Rightarrow> u8 list \<Rightarrow> 'h \<Rightarrow> 'h option" where
  "uart_write_string u M [] h = Some h"
| "uart_write_string u M (c # cs) h =
     (if c = 0 then Some h else do { h \<leftarrow> uart_write_byte u M c h; uart_write_string u M cs h })"

definition uart_rx_interrupt :: "uart \<Rightarrow> 'h mmio \<Rightarrow> u8 \<Rightarrow> 'h \<Rightarrow> 'h" where
  "uart_rx_interrupt u M on h =
     (if on \<noteq> 0 then or_reg M (ucsrb u) 0x80 h else and_reg M (ucsrb u) (NOT 0x80) h)"

definition async_serial_0_init :: "'h mmio \<Rightarrow> SerialSpeed \<Rightarrow> 'h \<Rightarrow> 'h" where
  "async_serial_0_init = uart_init uart0"

definition async_serial_0_byte_ready :: "'h mmio \<Rightarrow> 'h \<Rightarrow> u8 \<times> 'h" where
  "async_serial_0_byte_ready = uart_byte_ready uart0"

definition async_serial_0_read_byte :: "'h mmio \<Rightarrow> 'h \<Rightarrow> (u8 \<times> 'h) option" where
  "async_serial_0_read_byte = uart_read_byte uart0"

definition async_serial_0_write_byte :: "'h mmio \<Rightarrow> u8 \<Rightarrow> 'h \<Rightarrow> 'h option" where
  "async_serial_0_write_byte = uart_write_byte uart0"

definition async_serial_0_write_string :: "'h mmio \<Rightarrow> u8 list \<Rightarrow> 'h \<Rightarrow> 'h option" where
  "async_serial_0_write_string = uart_write_string uart0"

definition async_serial_0_rx_interrupt :: "'h mmio \<Rightarrow> u8 \<Rightarrow> 'h \<Rightarrow> 'h" where
  "async_serial_0_rx_interrupt = uart_rx_interrupt uart0"

definition async_serial_1_init :: "'h mmio \<Rightarrow> SerialSpeed \<Rightarrow> 'h \<Rightarrow> 'h" where
  "async_serial_1_init = uart_init uart1"

definition async_serial_1_byte_ready :: "'h mmio \<Rightarrow> 'h \<Rightarrow> u8 \<times> 'h" where
  "async_serial_1_byte_ready = uart_byte_ready uart1"

definition async_serial_1_read_byte :: "'h mmio \<Rightarrow> 'h \<Rightarrow> (u8 \<times> 'h) option" where
  "async_serial_1_read_byte = uart_read_byte uart1"

definition async_serial_1_write_byte :: "'h mmio \<Rightarrow> u8 \<Rightarrow> 'h \<Rightarrow> 'h option" where
  "async_serial_1_write_byte = uart_write_byte uart1"

definition async_serial_1_write_string :: "'h mmio \<Rightarrow> u8 list \<Rightarrow> 'h \<Rightarrow> 'h option" where
  "async_serial_1_write_string = uart_write_string uart1"

definition async_serial_1_rx_interrupt :: "'h mmio \<Rightarrow> u8 \<Rightarrow> 'h \<Rightarrow> 'h" where
  "async_serial_1_rx_interrupt = uart_rx_interrupt uart1"

section \<open>Bus locks\<close>

text \<open>
  The lock of a bus: the atomic block takes a copy and sets the lock. Between two rounds of the
  blocking loop other parts of the program run; they see and change the lock and a state of their own.
\<close>

definition take_lock :: "u8 \<Rightarrow> u8 \<times> u8" where
  "take_lock busLock = (busLock, 1)"

partial_function (option) obtain_loop :: "(u8 \<times> 'e \<Rightarrow> u8 \<times> 'e) \<Rightarrow> bool \<Rightarrow> u8 \<Rightarrow> 'e \<Rightarrow> (u8 \<times> u8 \<times> 'e) option" where
  "obtain_loop env blocking busLock e =
     (case take_lock busLock of (lockCopy, busLock) \<Rightarrow>
        if \<not> blocking \<or> lockCopy = 0 then Some (lockCopy, busLock, e)
        else (case env (busLock, e) of (busLock, e) \<Rightarrow> obtain_loop env blocking busLock e))"

definition spi_obtain_bus :: "(u8 \<times> 'e \<Rightarrow> u8 \<times> 'e) \<Rightarrow> u8 \<Rightarrow> u8 \<Rightarrow> 'e \<Rightarrow> (u8 \<times> u8 \<times> 'e) option" where
  "spi_obtain_bus env blocking spiBusLock e =
     do {
       (lockCopy, spiBusLock, e) \<leftarrow> obtain_loop env (blocking \<noteq> 0) spiBusLock e;
       Some (if lockCopy = 0 then 1 else 0, spiBusLock, e)
     }"

definition spi_release_bus :: "u8 \<Rightarrow> u8" where
  "spi_release_bus spiBusLock = 0"

definition twi_obtain_bus :: "(u8 \<times> 'e \<Rightarrow> u8 \<times> 'e) \<Rightarrow> u8 \<Rightarrow> u8 \<Rightarrow> 'e \<Rightarrow> (u8 \<times> u8 \<times> 'e) option" where
  "twi_obtain_bus env blocking twiBusLock e =
     do {
       (lockCopy, twiBusLock, e) \<leftarrow> obtain_loop env (blocking \<noteq> 0) twiBusLock e;
       Some (if lockCopy = 0 then 1 else 0, twiBusLock, e)
     }"

definition twi_release_bus :: "u8 \<Rightarrow> u8" where
  "twi_release_bus twiBusLock = 0"

section \<open>SPI\<close>

definition spi_setup :: "'h mmio \<Rightarrow> u8 \<Rightarrow> u8 \<Rightarrow> 'h \<Rightarrow> 'h" where
  "spi_setup M speed flags h =
     (let flags = (flags XOR 0x50) OR (speed AND 3);
          h = wr M SPCR (flags AND NOT 0x40) h;
          h = (case rd M SPSR h of (v, h) \<Rightarrow> if v AND 0xC0 \<noteq> 0 then snd (rd M SPDR h) else h);
          h = (if speed AND 8 \<noteq> 0 then wr M SPSR 1 h else wr M SPSR 0 h)
      in wr M SPCR flags h)"

definition spi_io :: "'h mmio \<Rightarrow> u8 \<Rightarrow> 'h \<Rightarrow> (u8 \<times> 'h) option" where
  "spi_io M txData h = do { h \<leftarrow> wait_flag M SPSR 0x80 (wr M SPDR txData h); Some (rd M SPDR h) }"

definition spi_async_io_begin :: "'h mmio \<Rightarrow> u8 \<Rightarrow> 'h \<Rightarrow> 'h" where
  "spi_async_io_begin M txData h = wr M SPDR txData h"

definition spi_async_io_wait :: "'h mmio \<Rightarrow> 'h \<Rightarrow> 'h option" where
  "spi_async_io_wait M h = wait_flag M SPSR 0x80 h"

definition spi_async_io :: "'h mmio \<Rightarrow> u8 \<Rightarrow> 'h \<Rightarrow> (u8 \<times> 'h) option" where
  "spi_async_io M txData h =
     do {
       h \<leftarrow> wait_flag M SPSR 0x80 h;
       let (tmp, h) = rd M SPDR h;
       Some (tmp, wr M SPDR txData h)
     }"

definition spi_async_io_end :: "'h mmio \<Rightarrow> 'h \<Rightarrow> (u8 \<times> 'h) option" where
  "spi_async_io_end M h = do { h \<leftarrow> wait_flag M SPSR 0x80 h; Some (rd M SPDR h) }"

text \<open>The pins of the ATMEGA328P and of the other processors.\<close>

definition spi_config_io_for_master_mode :: "bool \<Rightarrow> 'h mmio \<Rightarrow> 'h \<Rightarrow> 'h" where
  "spi_config_io_for_master_mode atmega328p M h =
     (if atmega328p then or_reg M DDRB 0x2C (and_reg M DDRB (NOT 0x10) h)
      else or_reg M DDRB 0x07 (and_reg M DDRB (NOT 0x08) h))"

section \<open>Two wire bus\<close>

datatype TWI_ERROR =
    TWI_ERROR_NO_ERROR | TWI_ERROR_START_COND_NOT_SEND | TWI_ERROR_MISSING_ADDRESS_ACK
  | TWI_ERROR_MISSING_DATA_ACK | TWI_ERROR_ARBITRATION_LOST

definition twi_initBus :: "'h mmio \<Rightarrow> u8 \<Rightarrow> u8 \<Rightarrow> 'h \<Rightarrow> 'h" where
  "twi_initBus M clockPrescaler bitRate h = or_reg M TWCR 0x04 (wr M TWSR clockPrescaler (wr M TWBR bitRate h))"

definition twi_deinitBus :: "'h mmio \<Rightarrow> 'h \<Rightarrow> 'h" where
  "twi_deinitBus M h = and_reg M TWCR (NOT 0x04) h"

text \<open>
  The status is read anew in every comparison of the code; \<open>status_in\<close> reads it until one of the
  values matches.
\<close>

fun status_in :: "'h mmio \<Rightarrow> u8 list \<Rightarrow> 'h \<Rightarrow> bool \<times> 'h" where
  "status_in M [] h = (False, h)"
| "status_in M (x # xs) h =
     (case rd M TWSR h of (v, h) \<Rightarrow> if v AND 0xFC = x then (True, h) else status_in M xs h)"

text \<open>The checks after a transfer: the status without acknowledge and lost arbitration, otherwise go on.\<close>

definition twi_check :: "'h mmio \<Rightarrow> u8 list \<Rightarrow> TWI_ERROR \<Rightarrow> 'h \<Rightarrow> TWI_ERROR option \<times> 'h" where
  "twi_check M nack err h =
     (case status_in M nack h of (b, h) \<Rightarrow>
        if b then (Some err, wr M TWCR 0xD4 h)
        else (case status_in M [0x38] h of (b, h) \<Rightarrow>
                if b then (Some TWI_ERROR_ARBITRATION_LOST, wr M TWCR 0xC4 h) else (None, h)))"

definition twi_start :: "'h mmio \<Rightarrow> u8 \<Rightarrow> 'h \<Rightarrow> (TWI_ERROR option \<times> 'h) option" where
  "twi_start M address h =
     do {
       h \<leftarrow> wait_flag M TWCR 0x80 (wr M TWCR 0xE4 h);
       let (b, h) = status_in M [0x08, 0x10] h;
       if \<not> b then Some (Some TWI_ERROR_START_COND_NOT_SEND, h)
       else do {
         h \<leftarrow> wait_flag M TWCR 0x80 (wr M TWCR 0xC4 (wr M TWDR address h));
         Some (twi_check M [0x20, 0x48] TWI_ERROR_MISSING_ADDRESS_ACK h)
       }
     }"

fun twi_read_loop :: "'h mmio \<Rightarrow> nat \<Rightarrow> u8 list \<Rightarrow> 'h \<Rightarrow> (TWI_ERROR option \<times> u8 list \<times> 'h) option" where
  "twi_read_loop M 0 buffer h = Some (None, buffer, h)"
| "twi_read_loop M (Suc n) buffer h =
     do {
       h \<leftarrow> wait_flag M TWCR 0x80 (or_reg M TWCR 0x80 h);
       let (e, h) = twi_check M [0x58] TWI_ERROR_MISSING_DATA_ACK h;
       (case e of
          Some err \<Rightarrow> Some (Some err, buffer, h)
        | None \<Rightarrow>
            let (b, h) = rd M TWDR h in twi_read_loop M n (buffer @ [b]) (wr M TWCR 0xC4 h))
     }"

fun twi_write_loop :: "'h mmio \<Rightarrow> u8 list \<Rightarrow> 'h \<Rightarrow> (TWI_ERROR option \<times> 'h) option" where
  "twi_write_loop M [] h = Some (None, h)"
| "twi_write_loop M (b # bs) h =
     do {
       h \<leftarrow> wait_flag M TWCR 0x80 (wr M TWCR 0xC4 (wr M TWDR b h));
       let (e, h) = twi_check M [0x30] TWI_ERROR_MISSING_DATA_ACK h;
       (case e of Some err \<Rightarrow> Some (Some err, h) | None \<Rightarrow> twi_write_loop M bs h)
     }"

text \<open>The result has the bytes read. The buffer of a write holds at least the number of bytes given.\<close>

definition twi_blocking_master_opperation ::
    "'h mmio \<Rightarrow> u8 \<Rightarrow> u8 \<Rightarrow> u8 list \<Rightarrow> u8 \<Rightarrow> 'h \<Rightarrow> (TWI_ERROR \<times> u8 list \<times> 'h) option" where
  "twi_blocking_master_opperation M address bufferLength buffer flags h =
     do {
       (e, h) \<leftarrow> (if flags AND 1 = 0 then twi_start M address h else Some (None, h));
       (case e of
          Some err \<Rightarrow> Some (err, [], h)
        | None \<Rightarrow>
            do {
              (e, out, h) \<leftarrow>
                (if address AND 1 \<noteq> 0 then twi_read_loop M (unat bufferLength) [] h
                 else do {
                   (e, h) \<leftarrow> twi_write_loop M (take (unat bufferLength) buffer) h;
                   Some (e, [], h)
                 });
              (case e of
                 Some err \<Rightarrow> Some (err, out, h)
               | None \<Rightarrow>
                   Some (TWI_ERROR_NO_ERROR, out, if flags AND 2 \<noteq> 0 then wr M TWCR 0xD4 h else h))
            })
     }"

section \<open>Properties of the locks\<close>

text \<open>
  Clients of a lock: an attempt that does not block either makes a client a holder or is refused;
  a holder may release.
\<close>

inductive lock_step :: "(u8 \<Rightarrow> (u8 \<times> u8) option) \<Rightarrow> (u8 \<Rightarrow> u8) \<Rightarrow> u8 \<times> nat set \<Rightarrow> u8 \<times> nat set \<Rightarrow> bool"
  for attempt release where
  obtained: "attempt l = Some (1, l') \<Longrightarrow> lock_step attempt release (l, H) (l', insert c H)"
| refused: "attempt l = Some (0, l') \<Longrightarrow> lock_step attempt release (l, H) (l', H)"
| released: "c \<in> H \<Longrightarrow> lock_step attempt release (l, H) (release l, H - {c})"

inductive_cases lock_stepE: "lock_step attempt release s s'"

definition one_holder :: "u8 \<times> nat set \<Rightarrow> bool" where
  "one_holder s \<longleftrightarrow> (fst s = 0 \<and> snd s = {}) \<or> (fst s = 1 \<and> (\<exists>c. snd s = {c}))"

definition attempt_of ::
    "((u8 \<times> 'e \<Rightarrow> u8 \<times> 'e) \<Rightarrow> u8 \<Rightarrow> u8 \<Rightarrow> 'e \<Rightarrow> (u8 \<times> u8 \<times> 'e) option) \<Rightarrow> 'e \<Rightarrow> u8 \<Rightarrow> (u8 \<times> u8) option" where
  "attempt_of obtain_bus e l = map_option (\<lambda>(r, l, e). (r, l)) (obtain_bus id 0 l e)"

text \<open>The contract of a lock.\<close>

locale bus_lock =
  fixes obtain_bus :: "(u8 \<times> 'e \<Rightarrow> u8 \<times> 'e) \<Rightarrow> u8 \<Rightarrow> u8 \<Rightarrow> 'e \<Rightarrow> (u8 \<times> u8 \<times> 'e) option"
    and release_bus :: "u8 \<Rightarrow> u8"
  assumes attempt: "obtain_bus env 0 l e = Some (if l = 0 then 1 else 0, 1, e)"
    and free: "b \<noteq> 0 \<Longrightarrow> obtain_bus env b 0 e = Some (1, 1, e)"
    and taken: "b \<noteq> 0 \<Longrightarrow> l \<noteq> 0 \<Longrightarrow> obtain_bus env b l e = (case env (1, e) of (l, e) \<Rightarrow> obtain_bus env b l e)"
    and release: "release_bus l = 0"
begin

lemma mutual_exclusion:
  assumes "(lock_step (attempt_of obtain_bus e) release_bus)\<^sup>*\<^sup>* (0, {}) s" shows "one_holder s"
  using assms
proof (induction rule: rtranclp_induct)
  case (step s s')
  from step(2,3) show ?case
    by (cases rule: lock_stepE) (auto simp: one_holder_def attempt_of_def attempt release split: if_splits)
qed (simp add: one_holder_def)

lemma blocking_returns:
  assumes "fst (((\<lambda>(l, e). env (1, e)) ^^ n) (l, e)) = 0" "b \<noteq> 0"
  shows "\<exists>e'. obtain_bus env b l e = Some (1, 1, e')"
  using assms(1)
proof (induction n arbitrary: l e)
  case 0
  then show ?case using free [OF assms(2)] by auto
next
  case (Suc n)
  obtain l1 e1 where env: "env (1, e) = (l1, e1)" by (rule prod.exhaust)
  have "fst (((\<lambda>(l, e). env (1, e)) ^^ n) (l1, e1)) = 0" using Suc.prems env by (simp add: funpow_swap1)
  then have "\<exists>e'. obtain_bus env b l1 e1 = Some (1, 1, e')" by (rule Suc.IH)
  then show ?case using free [OF assms(2), of env e] taken [OF assms(2), of l env e] env by (cases "l = 0") auto
qed

end

interpretation spi_lock: bus_lock spi_obtain_bus spi_release_bus
proof
  fix env :: "u8 \<times> 'a \<Rightarrow> u8 \<times> 'a" and b l :: u8 and e :: 'a
  show "spi_obtain_bus env 0 l e = Some (if l = 0 then 1 else 0, 1, e)"
    by (simp add: spi_obtain_bus_def obtain_loop.simps [of _ False] take_lock_def)
  show "b \<noteq> 0 \<Longrightarrow> spi_obtain_bus env b 0 e = Some (1, 1, e)"
    by (simp add: spi_obtain_bus_def obtain_loop.simps [of _ True 0] take_lock_def)
  show "b \<noteq> 0 \<Longrightarrow> l \<noteq> 0 \<Longrightarrow> spi_obtain_bus env b l e = (case env (1, e) of (l, e) \<Rightarrow> spi_obtain_bus env b l e)"
    by (simp add: spi_obtain_bus_def obtain_loop.simps [of _ True l] take_lock_def split: prod.splits)
  show "spi_release_bus l = 0" by (simp add: spi_release_bus_def)
qed

interpretation twi_lock: bus_lock twi_obtain_bus twi_release_bus
proof
  fix env :: "u8 \<times> 'a \<Rightarrow> u8 \<times> 'a" and b l :: u8 and e :: 'a
  show "twi_obtain_bus env 0 l e = Some (if l = 0 then 1 else 0, 1, e)"
    by (simp add: twi_obtain_bus_def obtain_loop.simps [of _ False] take_lock_def)
  show "b \<noteq> 0 \<Longrightarrow> twi_obtain_bus env b 0 e = Some (1, 1, e)"
    by (simp add: twi_obtain_bus_def obtain_loop.simps [of _ True 0] take_lock_def)
  show "b \<noteq> 0 \<Longrightarrow> l \<noteq> 0 \<Longrightarrow> twi_obtain_bus env b l e = (case env (1, e) of (l, e) \<Rightarrow> twi_obtain_bus env b l e)"
    by (simp add: twi_obtain_bus_def obtain_loop.simps [of _ True l] take_lock_def split: prod.splits)
  show "twi_release_bus l = 0" by (simp add: twi_release_bus_def)
qed

text \<open>
  (C12) The locks of the SPI and the two wire bus exclude each other's clients: however attempts and
  releases are interleaved, at most one client holds a bus, and the lock is set exactly while one
  does. A blocking attempt gets the bus as soon as the rest of the program has released it.
\<close>

theorem bus_locks_exclude:
  "((lock_step (attempt_of spi_obtain_bus e) spi_release_bus)\<^sup>*\<^sup>* (0, {}) s \<longrightarrow> one_holder s) \<and>
   ((lock_step (attempt_of twi_obtain_bus e) twi_release_bus)\<^sup>*\<^sup>* (0, {}) s \<longrightarrow> one_holder s) \<and>
   (fst (((\<lambda>(l, e). env (1, e)) ^^ n) (l, e)) = 0 \<and> b \<noteq> 0 \<longrightarrow>
      (\<exists>e'. spi_obtain_bus env b l e = Some (1, 1, e')) \<and> (\<exists>e'. twi_obtain_bus env b l e = Some (1, 1, e')))"
  using spi_lock.mutual_exclusion [of e s] twi_lock.mutual_exclusion [of e s]
    spi_lock.blocking_returns [of n env l e b] twi_lock.blocking_returns [of n env l e b] by blast

theorem bus_locks_exclude_witness:
  "one_holder (1, {4}) \<and> (\<exists>e'. spi_obtain_bus (\<lambda>(l, n). (if n = 2 then 0 else l, n + 1 :: nat)) 1 1 0 = Some (1, 1, e'))"
proof -
  have "attempt_of spi_obtain_bus () 0 = Some (1, 1)" by (simp add: attempt_of_def spi_lock.attempt)
  then have "lock_step (attempt_of spi_obtain_bus ()) spi_release_bus (0, {}) (1, insert 4 {})" by (rule obtained)
  then have r: "(lock_step (attempt_of spi_obtain_bus ()) spi_release_bus)\<^sup>*\<^sup>* (0, {}) (1, {4})" by simp
  have n: "fst (((\<lambda>(l :: u8, e). (\<lambda>(l, n). (if n = 2 then 0 else l, n + 1 :: nat)) (1, e)) ^^ 3) (1, 0)) = (0 :: u8)"
    by (simp add: numeral_3_eq_3)
  show ?thesis
    using bus_locks_exclude [where e = "()" and s = "(1, {4})" and env = id and n = 0 and l = 1 and b = 1] r
      bus_locks_exclude [where e = 0 and s = "(1, {})" and n = 3 and l = 1 and b = 1 and
        env = "\<lambda>(l, n). (if n = 2 then 0 else l, n + 1 :: nat)"] n
    by simp
qed

section \<open>Properties of the SPI bus\<close>

text \<open>
  A device on the bus: it answers every byte with one of its own, which is in the data register
  after \<open>k\<close> looks at the status register.
\<close>

definition spi_device :: "nat \<Rightarrow> (u8 \<Rightarrow> 's \<Rightarrow> u8 \<times> 's) \<Rightarrow> ('s \<times> u8 \<times> nat) mmio" where
  "spi_device k respond =
     \<lparr>rd = (\<lambda>r (s, d, n). if r = SPSR then (if n = 0 then (0x80, (s, d, 0)) else (0, (s, d, n - 1)))
                          else if r = SPDR then (d, (s, d, n)) else (0, (s, d, n))),
      wr = (\<lambda>r v (s, d, n). if r = SPDR then (case respond v s of (a, s) \<Rightarrow> (s, a, k)) else (s, d, n)),
      rd16 = (\<lambda>r h. (0, h)), wr16 = (\<lambda>r v h. h)\<rparr>"

fun responses :: "(u8 \<Rightarrow> 's \<Rightarrow> u8 \<times> 's) \<Rightarrow> u8 list \<Rightarrow> 's \<Rightarrow> u8 list \<times> 's" where
  "responses respond [] s = ([], s)"
| "responses respond (v # vs) s =
     (case respond v s of (a, s) \<Rightarrow> case responses respond vs s of (as, s) \<Rightarrow> (a # as, s))"

text \<open>A block of transfers: one by one, and as a chain that reads each answer when the next byte is sent.\<close>

fun spi_block :: "'h mmio \<Rightarrow> u8 list \<Rightarrow> 'h \<Rightarrow> (u8 list \<times> 'h) option" where
  "spi_block M [] h = Some ([], h)"
| "spi_block M (v # vs) h = do { (a, h) \<leftarrow> spi_io M v h; (as, h) \<leftarrow> spi_block M vs h; Some (a # as, h) }"

fun spi_chain :: "'h mmio \<Rightarrow> u8 list \<Rightarrow> 'h \<Rightarrow> (u8 list \<times> 'h) option" where
  "spi_chain M [] h = do { (a, h) \<leftarrow> spi_async_io_end M h; Some ([a], h) }"
| "spi_chain M (v # vs) h = do { (a, h) \<leftarrow> spi_async_io M v h; (as, h) \<leftarrow> spi_chain M vs h; Some (a # as, h) }"

lemma spi_device_wait: "wait_flag (spi_device k respond) SPSR 0x80 (s, d, n) = Some (s, d, 0)"
  by (induction n; subst wait_flag.simps) (simp_all add: spi_device_def)

lemma spi_device_simps:
  "rd (spi_device k respond) SPDR (s, d, n) = (d, (s, d, n))"
  "wr (spi_device k respond) SPDR v (s, d, n) = (case respond v s of (a, s) \<Rightarrow> (s, a, k))"
  by (simp_all add: spi_device_def)

lemma spi_block_device:
  "vs \<noteq> [] \<Longrightarrow> spi_block (spi_device k respond) vs (s, d, n) =
     (case responses respond vs s of (as, s) \<Rightarrow> Some (as, (s, last as, 0)))"
proof (induction vs arbitrary: s d n)
  case (Cons v vs)
  obtain a s1 where a: "respond v s = (a, s1)" by (rule prod.exhaust)
  have step: "spi_io (spi_device k respond) v (s, d, n) = Some (a, (s1, a, 0))"
    by (simp add: spi_io_def spi_device_simps a spi_device_wait)
  obtain as s2 where as: "responses respond vs s1 = (as, s2)" by (rule prod.exhaust)
  have "as = [] \<longleftrightarrow> vs = []" using as by (cases vs) (auto split: prod.splits)
  then have "spi_block (spi_device k respond) vs (s1, a, 0) = Some (as, (s2, last (a # as), 0))"
    using Cons.IH [of s1 a 0] as by (cases "vs = []") auto
  then show ?case using step a as by simp
qed simp

lemma spi_chain_device:
  "spi_chain (spi_device k respond) vs (s, d, n) =
     (case responses respond vs s of (as, s) \<Rightarrow> Some (d # as, (s, last (d # as), 0)))"
proof (induction vs arbitrary: s d n)
  case Nil
  then show ?case by (simp add: spi_async_io_end_def spi_device_wait spi_device_simps)
next
  case (Cons v vs)
  obtain a s1 where a: "respond v s = (a, s1)" by (rule prod.exhaust)
  obtain as s2 where as: "responses respond vs s1 = (as, s2)" by (rule prod.exhaust)
  have "spi_async_io (spi_device k respond) v (s, d, n) = Some (d, (s1, a, k))"
    by (simp add: spi_async_io_def spi_device_wait spi_device_simps a)
  then show ?case using Cons.IH [of s1 a k] a as by simp
qed


text \<open>No speed of the enumeration selects the double speed, as it is taken from a bit none of them has.\<close>

lemma spi_double_speed_unreachable:
  "speed < 8 \<Longrightarrow> fst (spi_setup plain speed flags h) SPSR = 0"
proof -
  assume "speed < 8"
  then have "speed \<in> {0, 1, 2, 3, 4, 5, 6, 7}" by (simp add: word_less_nat_alt) (simp add: word_unat_eq_iff, linarith)
  then have "speed AND 8 = 0" by auto
  then show ?thesis by (simp add: spi_setup_def Let_def)
qed

section \<open>Properties of the two wire bus\<close>

lemma logged_status: "status_in (logged M) xs s = (b, s') \<Longrightarrow> snd s' = snd s"
  by (induction xs arbitrary: s) (auto split: prod.splits if_splits dest: logged_rdD)

definition check_writes :: "TWI_ERROR option \<Rightarrow> (reg \<times> u8) list" where
  "check_writes e = (case e of None \<Rightarrow> [] | Some TWI_ERROR_ARBITRATION_LOST \<Rightarrow> [(TWCR, 0xC4)] | Some _ \<Rightarrow> [(TWCR, 0xD4)])"

lemma logged_check:
  assumes "twi_check (logged M) nack err s = (e, s')" "err \<noteq> TWI_ERROR_ARBITRATION_LOST"
  shows "snd s' = snd s @ check_writes e" "e = None \<or> e = Some err \<or> e = Some TWI_ERROR_ARBITRATION_LOST"
  using assms
  by (auto simp: twi_check_def check_writes_def split: prod.splits if_splits TWI_ERROR.splits simp del: status_in.simps dest!: logged_status)

lemma writes_to_check [simp]: "writes_to TWDR (check_writes e) = []"
  by (auto simp: check_writes_def split: option.splits TWI_ERROR.splits)

lemma logged_write_loop:
  "twi_write_loop (logged M) bs s = Some (e, s') \<Longrightarrow>
   \<exists>new k. snd s' = snd s @ new @ check_writes e \<and> writes_to TWDR new = take k bs \<and> (e = None \<longrightarrow> length bs \<le> k) \<and>
     e \<noteq> Some TWI_ERROR_NO_ERROR"
proof (induction bs arbitrary: s)
  case Nil
  then show ?case by (auto simp: check_writes_def intro!: exI [of _ "[]"])
next
  case (Cons b bs)
  obtain s1 where s1: "wait_flag (logged M) TWCR 0x80 (wr (logged M) TWCR 0xC4 (wr (logged M) TWDR b s)) = Some s1"
    using Cons.prems by (auto split: bind_splits)
  obtain e1 s2 where c: "twi_check (logged M) [0x30] TWI_ERROR_MISSING_DATA_ACK s1 = (e1, s2)" by (rule prod.exhaust)
  have l1: "snd s1 = snd s @ [(TWDR, b), (TWCR, 0xC4)]" using logged_wait [OF s1] by simp
  note l2 = logged_check [OF c]
  show ?case
  proof (cases e1)
    case None
    then have r: "twi_write_loop (logged M) bs s2 = Some (e, s')" using Cons.prems s1 c by simp
    obtain new k where "snd s' = snd s2 @ new @ check_writes e" "writes_to TWDR new = take k bs"
      "e = None \<longrightarrow> length bs \<le> k" "e \<noteq> Some TWI_ERROR_NO_ERROR" using Cons.IH [OF r] by blast
    then show ?thesis using l1 l2 None
      by (intro exI [of _ "(TWDR, b) # (TWCR, 0xC4) # new"] exI [of _ "Suc k"]) (simp add: check_writes_def)
  next
    case (Some x)
    then have "e = Some x" "s' = s2" using Cons.prems s1 c by auto
    then show ?thesis using l1 l2 Some
      by (intro exI [of _ "[(TWDR, b), (TWCR, 0xC4)]"] exI [of _ 1]) auto
  qed
qed

lemma logged_start:
  assumes "twi_start (logged M) address s = Some (e, s')"
  shows "\<exists>new. snd s' = snd s @ new \<and>
    (e = None \<longrightarrow> writes_to TWDR new = [address]) \<and> (writes_to TWDR new = [] \<or> writes_to TWDR new = [address]) \<and>
    (e = Some TWI_ERROR_MISSING_ADDRESS_ACK \<longrightarrow> new \<noteq> [] \<and> last new = (TWCR, 0xD4)) \<and>
    e \<noteq> Some TWI_ERROR_NO_ERROR \<and> e \<noteq> Some TWI_ERROR_MISSING_DATA_ACK"
proof -
  obtain s1 where s1: "wait_flag (logged M) TWCR 0x80 (wr (logged M) TWCR 0xE4 s) = Some s1"
    using assms by (auto simp: twi_start_def split: bind_splits)
  obtain b s2 where b: "status_in (logged M) [0x08, 0x10] s1 = (b, s2)" by (rule prod.exhaust)
  have l2: "snd s2 = snd s @ [(TWCR, 0xE4)]" using logged_wait [OF s1] logged_status [OF b] by simp
  show ?thesis
  proof (cases b)
    case False
    then have "e = Some TWI_ERROR_START_COND_NOT_SEND" "s' = s2"
      using assms s1 b by (auto simp: twi_start_def simp del: status_in.simps)
    then show ?thesis using l2 by (intro exI [of _ "[(TWCR, 0xE4)]"]) simp
  next
    case True
    obtain s3 where s3: "wait_flag (logged M) TWCR 0x80 (wr (logged M) TWCR 0xC4 (wr (logged M) TWDR address s2)) = Some s3"
      using assms s1 b True by (auto simp: twi_start_def simp del: status_in.simps split: bind_splits)
    have c: "twi_check (logged M) [0x20, 0x48] TWI_ERROR_MISSING_ADDRESS_ACK s3 = (e, s')"
      using assms s1 b True s3 by (simp add: twi_start_def del: status_in.simps)
    have "snd s3 = snd s @ [(TWCR, 0xE4), (TWDR, address), (TWCR, 0xC4)]" using logged_wait [OF s3] l2 by simp
    then show ?thesis using logged_check [OF c]
      by (intro exI [of _ "[(TWCR, 0xE4), (TWDR, address), (TWCR, 0xC4)] @ check_writes e"]) (auto simp: check_writes_def)
  qed
qed

text \<open>
  (C24) A write on the two wire bus puts the address and then the bytes of the buffer into the data
  register, in order, whatever the hardware answers: all of them when no error is reported and
  an initial part otherwise. It ends with a stop condition when one was asked for, and always
  after a missing acknowledge.
\<close>

theorem twi_write_sends_buffer:
  assumes "twi_blocking_master_opperation (logged M) address len buf flags s = Some (err, out, s')"
    "address AND 1 = 0" "flags AND 1 = 0"
  shows "\<exists>new k. snd s' = snd s @ new \<and> writes_to TWDR new = take k (address # take (unat len) buf) \<and>
    (err = TWI_ERROR_NO_ERROR \<longrightarrow> writes_to TWDR new = address # take (unat len) buf) \<and>
    (err = TWI_ERROR_MISSING_ADDRESS_ACK \<or> err = TWI_ERROR_MISSING_DATA_ACK \<or> err = TWI_ERROR_NO_ERROR \<and> flags AND 2 \<noteq> 0 \<longrightarrow>
       new \<noteq> [] \<and> last new = (TWCR, 0xD4))"
proof -
  obtain e s1 where st: "twi_start (logged M) address s = Some (e, s1)"
    using assms by (auto simp: twi_blocking_master_opperation_def split: bind_splits)
  obtain new where n: "snd s1 = snd s @ new" "e = None \<longrightarrow> writes_to TWDR new = [address]"
    "writes_to TWDR new = [] \<or> writes_to TWDR new = [address]"
    "e = Some TWI_ERROR_MISSING_ADDRESS_ACK \<longrightarrow> new \<noteq> [] \<and> last new = (TWCR, 0xD4)"
    "e \<noteq> Some TWI_ERROR_NO_ERROR" "e \<noteq> Some TWI_ERROR_MISSING_DATA_ACK"
    using logged_start [OF st] by blast
  show ?thesis
  proof (cases e)
    case (Some x)
    then have "err = x" "s' = s1" using assms st by (auto simp: twi_blocking_master_opperation_def)
    moreover have "\<exists>k. writes_to TWDR new = take k (address # take (unat len) buf)"
      using n(3) by (metis take0 take_Suc_Cons)
    ultimately show ?thesis using n Some by auto
  next
    case None
    obtain e2 s2 where w: "twi_write_loop (logged M) (take (unat len) buf) s1 = Some (e2, s2)"
      using assms st None by (auto simp: twi_blocking_master_opperation_def split: bind_splits)
    obtain new2 k where n2: "snd s2 = snd s1 @ new2 @ check_writes e2" "writes_to TWDR new2 = take k (take (unat len) buf)"
      "e2 = None \<longrightarrow> length (take (unat len) buf) \<le> k" "e2 \<noteq> Some TWI_ERROR_NO_ERROR" using logged_write_loop [OF w] by blast
    have full: "e2 = None \<longrightarrow> take (min k (unat len)) buf = take (unat len) buf"
      using n2(3) take_all [of "take (unat len) buf" k] by auto
    let ?stop = "if e2 = None \<and> flags AND 2 \<noteq> 0 then [(TWCR, 0xD4)] else []"
    have s': "err = (case e2 of None \<Rightarrow> TWI_ERROR_NO_ERROR | Some x \<Rightarrow> x)" "snd s' = snd s2 @ ?stop"
      using assms st None w by (auto simp: twi_blocking_master_opperation_def split: option.splits if_splits)
    then show ?thesis using n n2 None full
      by (intro exI [of _ "new @ new2 @ check_writes e2 @ ?stop"] exI [of _ "Suc k"])
        (auto simp: check_writes_def split: option.splits TWI_ERROR.splits)
  qed
qed

text \<open>Hardware that accepts everything: ready at once, with the status after a start and after an acknowledge.\<close>

definition twi_ready :: "nat mmio" where
  "twi_ready =
     \<lparr>rd = (\<lambda>r n. (if r = TWCR then 0x80 else if n = 1 then 0x08 else 0x18, n)),
      wr = (\<lambda>r v n. if r = TWCR then Suc n else n), rd16 = (\<lambda>r n. (0, n)), wr16 = (\<lambda>r v n. n)\<rparr>"

lemma twi_ready_wait: "wait_flag (logged twi_ready) TWCR 0x80 s = Some s"
  by (subst wait_flag.simps) (simp add: logged_def twi_ready_def split_def)

lemma twi_ready_simps:
  "wr (logged twi_ready) TWCR v (n, l) = (Suc n, l @ [(TWCR, v)])" "wr (logged twi_ready) TWDR v (n, l) = (n, l @ [(TWDR, v)])"
  by (simp_all add: logged_def twi_ready_def)

lemma twi_ready_status: "status_in (logged twi_ready) xs (n, l) = ((if n = 1 then 0x08 else 0x18) \<in> set xs, (n, l))"
  by (induction xs) (auto simp: logged_def twi_ready_def)

theorem twi_write_sends_buffer_witness:
  "\<exists>s'. twi_blocking_master_opperation (logged twi_ready) 0x90 2 [7, 8, 9] 2 (0, []) = Some (TWI_ERROR_NO_ERROR, [], s') \<and>
     writes_to TWDR (snd s') = [0x90, 7, 8]"
proof -
  obtain s' where s': "twi_blocking_master_opperation (logged twi_ready) 0x90 2 [7, 8, 9] 2 (0, []) = Some (TWI_ERROR_NO_ERROR, [], s')"
    by (simp add: twi_blocking_master_opperation_def twi_start_def twi_check_def twi_ready_wait twi_ready_simps
      twi_ready_status del: status_in.simps)
  show ?thesis using twi_write_sends_buffer [OF s'] s' by simp
qed

section \<open>Properties of the asynchronous ports\<close>

definition baud :: "SerialSpeed \<Rightarrow> nat" where
  "baud speed = (case speed of SERIAL_SPEED_9600 \<Rightarrow> 9600 | SERIAL_SPEED_19200 \<Rightarrow> 19200 | SERIAL_SPEED_38400 \<Rightarrow> 38400
     | SERIAL_SPEED_76800 \<Rightarrow> 76800 | SERIAL_SPEED_115200 \<Rightarrow> 115200)"

text \<open>The clocks of the system clock of 16 MHz in one bit, from the registers of a port.\<close>

definition clocks_per_bit :: "uart \<Rightarrow> registers \<Rightarrow> nat" where
  "clocks_per_bit u h = (if bit (fst h (ucsra u)) 1 then 8 else 16) * (unat (snd h (ubrr u)) + 1)"

lemma uart_string_writes:
  "uart_write_string u (logged M) cs s = Some s' \<Longrightarrow> snd s' = snd s @ map (Pair (udr u)) (takeWhile (\<lambda>c. c \<noteq> 0) cs)"
proof (induction cs arbitrary: s)
  case (Cons c cs)
  show ?case
  proof (cases "c = 0")
    case False
    then obtain s1 where s1: "wait_flag (logged M) (ucsra u) 0x20 s = Some s1"
      "uart_write_string u (logged M) cs (wr (logged M) (udr u) c s1) = Some s'"
      using Cons.prems by (auto simp: uart_write_byte_def split: bind_splits)
    show ?thesis using Cons.IH [OF s1(2)] logged_wait [OF s1(1)] False by simp
  qed (use Cons.prems in simp)
qed simp

text \<open>
  (C36) Both ports run within 2.2 percent of the speed asked for, with eight data bits and both
  directions enabled, and a string is sent byte by byte up to its terminator, whatever the
  hardware does in between.
\<close>

theorem serial_ports_transmit:
  fixes speed :: SerialSpeed and h :: registers
  assumes "u = uart0 \<or> u = uart1"
  defines "h' \<equiv> uart_init u plain speed h"
  shows "1000 * \<bar>16000000 - int (baud speed * clocks_per_bit u h')\<bar> \<le> 22 * int (baud speed * clocks_per_bit u h') \<and>
    fst h' (ucsrb u) = 0x18 \<and> fst h' (ucsrc u) = 0x06 \<and>
    (\<forall>M cs s s'. uart_write_string u (logged M) cs s = Some s' \<longrightarrow>
       snd s' = snd s @ map (Pair (udr u)) (takeWhile (\<lambda>c. c \<noteq> 0) cs))"
proof -
  have "1000 * \<bar>16000000 - int (baud speed * clocks_per_bit u h')\<bar> \<le> 22 * int (baud speed * clocks_per_bit u h')"
    using assms(1)
    by (auto simp: h'_def uart_init_def uart0_def uart1_def baud_def clocks_per_bit_def split: SerialSpeed.split)
  moreover have "fst h' (ucsrb u) = 0x18 \<and> fst h' (ucsrc u) = 0x06"
    using assms(1) by (auto simp: h'_def uart_init_def uart0_def uart1_def split_def Let_def)
  ultimately show ?thesis using uart_string_writes [of u] by blast
qed

theorem serial_ports_transmit_witness:
  "clocks_per_bit uart1 (uart_init uart1 plain SERIAL_SPEED_115200 (\<lambda>r. 0, \<lambda>r. 0)) = 136 \<and>
   fst (uart_init uart1 plain SERIAL_SPEED_115200 (\<lambda>r. 0, \<lambda>r. 0)) UCSR1B = 0x18"
proof -
  have u: "uart1 = uart0 \<or> uart1 = uart1" "ucsrb uart1 = UCSR1B" by (simp_all add: uart1_def)
  have "clocks_per_bit uart1 (uart_init uart1 plain SERIAL_SPEED_115200 (\<lambda>r. 0, \<lambda>r. 0)) = 136"
    by (simp add: clocks_per_bit_def uart_init_def uart1_def)
  then show ?thesis using serial_ports_transmit [OF u(1), of SERIAL_SPEED_115200 "(\<lambda>r. 0, \<lambda>r. 0)"] unfolding u(2) by blast
qed

end
