(* ===== verification/Board_Io.thy ===== *)
theory Board_Io
  imports Mmio
begin

text \<open>
  The board support that only sets registers: external interrupts, the LEDs and the button of the
  two boards, the watchdog, the system clock, timer 0 and the analog to digital converter
  (\<^verbatim>\<open>src/src/board_support/\<close>).
\<close>

section \<open>External interrupts\<close>

text \<open>The edges are \<open>lowlevel = 0\<close>, \<open>any = 1\<close>, \<open>falling = 2\<close> and \<open>rising = 3\<close>.\<close>

definition disable_external_interrupt_input :: "'h mmio \<Rightarrow> u8 \<Rightarrow> 'h \<Rightarrow> 'h" where
  "disable_external_interrupt_input M i h = and_reg M EIMSK (NOT (push_bit (unat i) 1)) h"

definition enable_external_interrupt_input :: "'h mmio \<Rightarrow> u8 \<Rightarrow> u8 \<Rightarrow> 'h \<Rightarrow> 'h" where
  "enable_external_interrupt_input M i edge h =
     (let h = disable_external_interrupt_input M i h;
          h = (if i < 4
               then or_reg M EICRA (push_bit (unat i * 2) edge) (and_reg M EICRA (NOT (push_bit (unat i * 2) 3)) h)
               else or_reg M EICRB (push_bit ((unat i - 4) * 2) edge) (and_reg M EICRB (NOT (push_bit ((unat i - 4) * 2) 3)) h))
      in or_reg M EIMSK (push_bit (unat i) 1) h)"

section \<open>The Minimus32 board\<close>

definition minimus32_init :: "'h mmio \<Rightarrow> 'h \<Rightarrow> 'h" where
  "minimus32_init M h = and_reg M DDRD 0x7F (or_reg M DDRD 0x60 (or_reg M PORTD 0x60 h))"

definition led_blue :: "'h mmio \<Rightarrow> u8 \<Rightarrow> 'h \<Rightarrow> 'h" where
  "led_blue M on h = (if on \<noteq> 0 then and_reg M PORTD 0xDF h else or_reg M PORTD 0x20 h)"

definition led_blue_toggle :: "'h mmio \<Rightarrow> 'h \<Rightarrow> 'h" where
  "led_blue_toggle M h = xor_reg M PORTD 0x20 h"

definition led_red :: "'h mmio \<Rightarrow> u8 \<Rightarrow> 'h \<Rightarrow> 'h" where
  "led_red M on h = (if on \<noteq> 0 then and_reg M PORTD 0xBF h else or_reg M PORTD 0x40 h)"

definition led_red_toggle :: "'h mmio \<Rightarrow> 'h \<Rightarrow> 'h" where
  "led_red_toggle M h = xor_reg M PORTD 0x40 h"

definition hwb_is_pressed :: "'h mmio \<Rightarrow> 'h \<Rightarrow> bool \<times> 'h" where
  "hwb_is_pressed M h = (case rd M PIND h of (v, h) \<Rightarrow> (v AND 0x80 = 0, h))"

section \<open>The ProMicro board\<close>

definition promicro_init :: "'h mmio \<Rightarrow> 'h \<Rightarrow> 'h" where
  "promicro_init M h =
     or_reg M DDRD 0x20 (or_reg M PORTD 0x20 (or_reg M DDRB 0x01 (or_reg M PORTB 0x01 h)))"

definition led_yellow :: "'h mmio \<Rightarrow> u8 \<Rightarrow> 'h \<Rightarrow> 'h" where
  "led_yellow M on h = (if on \<noteq> 0 then and_reg M PORTB 0xFE h else or_reg M PORTB 0x01 h)"

definition led_yellow_toggle :: "'h mmio \<Rightarrow> 'h \<Rightarrow> 'h" where
  "led_yellow_toggle M h = xor_reg M PORTB 0x01 h"

definition led_green :: "'h mmio \<Rightarrow> u8 \<Rightarrow> 'h \<Rightarrow> 'h" where
  "led_green M on h = (if on \<noteq> 0 then and_reg M PORTD 0xDF h else or_reg M PORTD 0x20 h)"

definition led_green_toggle :: "'h mmio \<Rightarrow> 'h \<Rightarrow> 'h" where
  "led_green_toggle M h = xor_reg M PORTD 0x20 h"

section \<open>Watchdog, clock and timer 0\<close>

text \<open>
  The watchdog reset instruction and the interrupt flag around the clock change have no register of
  their own; the writes are in the order of the code, on which the timed sequences depend.
\<close>

definition watchdog_disable :: "'h mmio \<Rightarrow> 'h \<Rightarrow> 'h" where
  "watchdog_disable M h = wr M WDTCSR 0x00 (wr M WDTCSR 0x18 (and_reg M MCUSR (NOT 0x08) h))"

definition clock_prescale_set_local :: "'h mmio \<Rightarrow> u8 \<Rightarrow> 'h \<Rightarrow> 'h" where
  "clock_prescale_set_local M a h = wr M CLKPR a (wr M CLKPR 0x80 h)"

definition clock_prescale_none :: "'h mmio \<Rightarrow> 'h \<Rightarrow> 'h" where
  "clock_prescale_none M h = clock_prescale_set_local M 0 h"

definition timer0_fast_timer_init :: "'h mmio \<Rightarrow> u8 \<Rightarrow> u8 \<Rightarrow> 'h \<Rightarrow> 'h" where
  "timer0_fast_timer_init M prescaler counter h =
     wr M TIMSK0 2 (wr M OCR0A counter (wr M TCCR0A 2 (wr M TCCR0B prescaler h)))"

section \<open>The converter\<close>

definition adc_set_reference_and_adj :: "'h mmio \<Rightarrow> u8 \<Rightarrow> u8 \<Rightarrow> 'h \<Rightarrow> 'h" where
  "adc_set_reference_and_adj M reference alignLeft h =
     modify_reg M ADMUX (\<lambda>v. (v AND 0x0F) OR reference OR (if alignLeft \<noteq> 0 then 0x20 else 0)) h"

definition adc_set_channel :: "'h mmio \<Rightarrow> u8 \<Rightarrow> 'h \<Rightarrow> 'h" where
  "adc_set_channel M channel h = modify_reg M ADMUX (\<lambda>v. (v AND 0xF0) OR channel) h"

definition adc_set_speed_and_enable :: "'h mmio \<Rightarrow> u8 \<Rightarrow> u8 \<Rightarrow> u8 \<Rightarrow> 'h \<Rightarrow> 'h" where
  "adc_set_speed_and_enable M speed useAutoTrigger useInterrupts h =
     wr M ADCSRA (0x80 OR (if useAutoTrigger \<noteq> 0 then 0x20 else 0) OR (if useInterrupts \<noteq> 0 then 0x08 else 0) OR speed) h"

definition adc_start_conversion :: "'h mmio \<Rightarrow> 'h \<Rightarrow> 'h" where
  "adc_start_conversion M h = or_reg M ADCSRA 0x50 h"

definition adc_disable :: "'h mmio \<Rightarrow> 'h \<Rightarrow> 'h" where
  "adc_disable M h = and_reg M ADCSRA (NOT 0x80) h"

definition adc_is_busy :: "'h mmio \<Rightarrow> 'h \<Rightarrow> u8 \<times> 'h" where
  "adc_is_busy M h = (case rd M ADCSRA h of (v, h) \<Rightarrow> (v AND 0x40, h))"

definition adc_get_result :: "'h mmio \<Rightarrow> 'h \<Rightarrow> u16 \<times> 'h" where
  "adc_get_result M h = rd16 M ADC_result h"

section \<open>Properties\<close>

text \<open>
  The edge an interrupt is configured for: two bits of one of the two control registers. Setting
  such a field, and setting and clearing a bit of the mask.
\<close>

definition field :: "u8 \<Rightarrow> nat \<Rightarrow> u8" where
  "field v k = drop_bit (k * 2) v AND 3"

definition set_field :: "nat \<Rightarrow> u8 \<Rightarrow> u8 \<Rightarrow> u8" where
  "set_field i e v = (v AND NOT (push_bit (i * 2) 3)) OR push_bit (i * 2) e"

definition set_mask :: "nat \<Rightarrow> u8 \<Rightarrow> u8" where
  "set_mask i v = v OR push_bit i 1"

definition clear_mask :: "nat \<Rightarrow> u8 \<Rightarrow> u8" where
  "clear_mask i v = v AND NOT (push_bit i 1)"

definition edge_of :: "registers \<Rightarrow> nat \<Rightarrow> u8" where
  "edge_of h k = (if k < 4 then field (fst h EICRA) k else field (fst h EICRB) (k - 4))"

lemma bit_three: "bit (3 :: u8) j \<longleftrightarrow> j < 2"
proof -
  have "(3 :: u8) = mask 2" by (simp add: mask_eq_exp_minus_1)
  then show ?thesis by (simp only: bit_mask_iff) auto
qed

lemma low_two: "\<lbrakk>e AND 3 = e; bit (e :: u8) j\<rbrakk> \<Longrightarrow> j < 2"
  by (metis bit_and_iff bit_three)

lemma field_same:
  fixes v e :: u8
  assumes "i < 4" "e AND 3 = e"
  shows "field (set_field i e v) i = e"
  unfolding field_def set_field_def
proof (rule bit_word_eqI)
  fix j assume j: "j < LENGTH(8)"
  note e = low_two [OF assms(2), of j]
  show "bit (drop_bit (i * 2) (v AND NOT (push_bit (i * 2) 3) OR push_bit (i * 2) e) AND 3) j = bit e j"
    using assms(1) j e
    by (auto simp only: bit_and_iff bit_or_iff bit_not_iff bit_drop_bit_eq bit_push_bit_iff o_def bit_three) auto
qed

lemma field_other:
  fixes v e :: u8
  assumes "i \<noteq> k" "e AND 3 = e"
  shows "field (set_field i e v) k = field v k"
  unfolding field_def set_field_def
proof (rule bit_word_eqI)
  fix j assume j: "j < LENGTH(8)"
  note e = low_two [OF assms(2), of "k * 2 + j - i * 2"]
  show "bit (drop_bit (k * 2) (v AND NOT (push_bit (i * 2) 3) OR push_bit (i * 2) e) AND 3) j = bit (drop_bit (k * 2) v AND 3) j"
    using assms(1) j e bit_imp_le_length [of v "k * 2 + j"]
    by (auto simp only: bit_and_iff bit_or_iff bit_not_iff bit_drop_bit_eq bit_push_bit_iff o_def bit_three) auto
qed

lemma mask_bit:
  assumes "k < 8"
  shows "bit (set_mask i v) k \<longleftrightarrow> k = i \<or> bit v k" "bit (clear_mask i v) k \<longleftrightarrow> k \<noteq> i \<and> bit v k"
  unfolding set_mask_def clear_mask_def using assms
  by (auto simp only: bit_and_iff bit_or_iff bit_not_iff bit_push_bit_iff bit_1_iff o_def) auto

lemma disable_plain:
  "disable_external_interrupt_input plain i h = ((fst h)(EIMSK := clear_mask (unat i) (fst h EIMSK)), snd h)"
  by (simp add: disable_external_interrupt_input_def and_reg_def clear_mask_def)

lemma enable_plain:
  "enable_external_interrupt_input plain i e h =
    (if i < 4 then ((fst h)(EIMSK := set_mask (unat i) (clear_mask (unat i) (fst h EIMSK)), EICRA := set_field (unat i) e (fst h EICRA)), snd h)
     else ((fst h)(EIMSK := set_mask (unat i) (clear_mask (unat i) (fst h EIMSK)), EICRB := set_field (unat i - 4) e (fst h EICRB)), snd h))"
  by (auto simp: enable_external_interrupt_input_def disable_plain reg_ops set_mask_def set_field_def fun_upd_twist)

text \<open>
  (C35) Enabling an external interrupt configures its own edge and its own mask bit and nothing else:
  the edges and the mask bits of the other seven interrupts and all other registers stay as they
  were, and disabling it again clears only its mask bit.
\<close>

theorem external_interrupt_isolated:
  fixes h :: registers
  assumes "unat i < 8" "e AND 3 = e" "k < 8"
  defines "h' \<equiv> enable_external_interrupt_input plain i e h"
  shows "edge_of h' k = (if k = unat i then e else edge_of h k) \<and>
    (bit (fst h' EIMSK) k \<longleftrightarrow> k = unat i \<or> bit (fst h EIMSK) k) \<and>
    (\<forall>r. r \<noteq> EIMSK \<and> r \<noteq> EICRA \<and> r \<noteq> EICRB \<longrightarrow> fst h' r = fst h r) \<and> snd h' = snd h \<and>
    edge_of (disable_external_interrupt_input plain i h') k = edge_of h' k \<and>
    (bit (fst (disable_external_interrupt_input plain i h') EIMSK) k \<longleftrightarrow> k \<noteq> unat i \<and> bit (fst h EIMSK) k)"
proof (cases "i < 4")
  case True
  then have i: "unat i < 4" by (simp add: word_less_nat_alt)
  have k: "k \<noteq> unat i \<Longrightarrow> unat i \<noteq> k" by simp
  show ?thesis
    using True assms(3) i field_same [OF i assms(2), of "fst h EICRA"] field_other [OF k assms(2), of "fst h EICRA"]
    by (auto simp: h'_def enable_plain disable_plain edge_of_def mask_bit)
next
  case False
  then have i: "unat i - 4 < 4" "4 \<le> unat i" using assms(1) by (auto simp: word_less_nat_alt)
  have k: "k \<noteq> unat i \<Longrightarrow> 4 \<le> k \<Longrightarrow> unat i - 4 \<noteq> k - 4" using i by simp
  show ?thesis
    using False assms(3) i field_same [OF i(1) assms(2), of "fst h EICRB"] field_other [OF k assms(2), of "fst h EICRB"]
    by (auto simp: h'_def enable_plain disable_plain edge_of_def mask_bit)
qed

theorem external_interrupt_isolated_witness:
  "edge_of (enable_external_interrupt_input plain 6 2 (\<lambda>r. 0, \<lambda>r. 0)) 6 = 2"
  using external_interrupt_isolated [of 6 2 6 "(\<lambda>r. 0, \<lambda>r. 0)"] by simp

end
