(* ===== verification/Dht11.thy ===== *)
theory Dht11
  imports Timer1_Clock Board_Io
begin

text \<open>
  The humidity sensor of \<^verbatim>\<open>src/src/peripherals/dht11.c\<close>: a state machine on the edges of one line,
  which measures pulses with timer 1. It is modelled on top of the clock and the external
  interrupts; the pins are functions on an arbitrary state.
\<close>

section \<open>The driver\<close>

datatype dht11_state =
    DHT11_STATE_INIT | DHT11_IDLE | DHT11_SENDING_START | DHT11_WAITING_FOR_ACK | DHT11_GOT_ACK_WAIT_IDLE
  | DHT11_WAITING_FOR_BIT_SYNC | DHT11_WAITING_FOR_BIT_END

record 'h dht11 =
  state :: dht11_state
  rxByte :: u8
  rxBit :: u8
  data_ready :: u8
  data :: "u8 list"
  start_ticks :: u16
  extIrq :: u8
  setOutput :: "u8 \<Rightarrow> 'h \<Rightarrow> 'h"
  dht_out :: "u8 \<Rightarrow> 'h \<Rightarrow> 'h"
  dht_callback :: addr

definition dht11_setState :: "dht11_state \<Rightarrow> 'h dht11 \<Rightarrow> 'h dht11" where
  "dht11_setState st this = this\<lparr>state := st\<rparr>"

definition dht11_init_data :: "'h dht11 \<Rightarrow> 'h dht11" where
  "dht11_init_data this = this\<lparr>rxByte := 0, rxBit := 8, data := [0, 0, 0, 0, 0], data_ready := 0\<rparr>"

definition dht11_sendStartDone :: "'h mmio \<Rightarrow> 'h dht11 \<Rightarrow> 'h \<Rightarrow> 'h dht11 \<times> 'h" where
  "dht11_sendStartDone M this h =
     (let h = dht_out this 255 (setOutput this 0 h);
          h = enable_external_interrupt_input M (extIrq this) 2 h
      in (dht11_setState DHT11_WAITING_FOR_ACK this, h))"

definition dht11_init ::
    "'h mmio \<Rightarrow> 'h dht11 \<Rightarrow> (u8 \<Rightarrow> 'h \<Rightarrow> 'h) \<Rightarrow> (u8 \<Rightarrow> 'h \<Rightarrow> 'h) \<Rightarrow> u8 \<Rightarrow> 'h \<Rightarrow> 'h dht11 \<times> 'h" where
  "dht11_init M this setOut outF irq h =
     (let h = disable_external_interrupt_input M irq h;
          this = dht11_init_data (this\<lparr>setOutput := setOut, dht_out := outF, extIrq := irq\<rparr>);
          h = dht_out this 255 (setOutput this 0 h)
      in (dht11_setState DHT11_STATE_INIT this, h))"

definition dht11_getConversionState :: "'h dht11 \<Rightarrow> dht11_state" where
  "dht11_getConversionState this = state this"

text \<open>The end of a bit: the width of the pulse decides. \<open>None\<close> is an access outside of the data.\<close>

definition dht11_bit_end :: "'h mmio \<Rightarrow> u16 \<Rightarrow> 'h dht11 \<Rightarrow> 'h \<Rightarrow> ('h dht11 \<times> 'h) option" where
  "dht11_bit_end M ticks this h =
     (let ticks = (if ticks \<le> start_ticks this then ticks + 16 * 1000 else ticks);
          i = unat (rxByte this)
      in if length (data this) \<le> i then None
      else
        let this = this\<lparr>data := (data this)[i :=
                     (if 16 * 50 < ticks - start_ticks this then push_bit 1 (data this ! i) OR 1 else push_bit 1 (data this ! i))]\<rparr>;
            this = this\<lparr>rxBit := rxBit this - 1\<rparr>;
            this = (if rxBit this = 0 then this\<lparr>rxBit := 8, rxByte := rxByte this + 1\<rparr> else this)
        in if rxByte this < 5
           then Some (dht11_setState DHT11_WAITING_FOR_BIT_SYNC this, enable_external_interrupt_input M (extIrq this) 3 h)
           else Some ((dht11_setState DHT11_IDLE this)\<lparr>data_ready := 1\<rparr>, disable_external_interrupt_input M (extIrq this) h))"

definition dht11_irqAnimate :: "'h mmio \<Rightarrow> 'f timer1 \<Rightarrow> 'h dht11 \<Rightarrow> 'h \<Rightarrow> ('h dht11 \<times> 'h) option" where
  "dht11_irqAnimate M clock this h =
     (let ticks = timer1_get_ticks clock in
      case dht11_getConversionState this of
        DHT11_STATE_INIT \<Rightarrow> Some (dht11_setState DHT11_STATE_INIT this, h)
      | DHT11_IDLE \<Rightarrow> Some (dht11_setState DHT11_STATE_INIT this, h)
      | DHT11_SENDING_START \<Rightarrow> Some (dht11_setState DHT11_STATE_INIT this, h)
      | DHT11_WAITING_FOR_ACK \<Rightarrow>
          Some (dht11_setState DHT11_GOT_ACK_WAIT_IDLE this, enable_external_interrupt_input M (extIrq this) 3 h)
      | DHT11_GOT_ACK_WAIT_IDLE \<Rightarrow> Some (dht11_setState DHT11_WAITING_FOR_BIT_SYNC this, h)
      | DHT11_WAITING_FOR_BIT_SYNC \<Rightarrow>
          (let this = this\<lparr>start_ticks := ticks\<rparr>;
               h = enable_external_interrupt_input M (extIrq this) 2 h
           in Some (dht11_setState DHT11_WAITING_FOR_BIT_END this, h))
      | DHT11_WAITING_FOR_BIT_END \<Rightarrow> dht11_bit_end M ticks this h)"

text \<open>
  The start of a conversion registers the callback \<open>done\<close>, which is \<^verbatim>\<open>dht11_sendStartDone\<close>, with the
  address of the driver as its user data.
\<close>

definition dht11_startConversion ::
    "'f \<Rightarrow> nat \<Rightarrow> 'f timer1 \<Rightarrow> 'h dht11 \<Rightarrow> 'h \<Rightarrow> ('h dht11 \<times> 'f timer1 \<times> 'h) option" where
  "dht11_startConversion done_fn this_addr clock this h =
     (let this = dht11_init_data (dht11_setState DHT11_SENDING_START this);
          h = dht_out this 0 (setOutput this 1 h)
      in do {
        clock \<leftarrow> timer1_clock_register_callback 0 2 0 done_fn this_addr (dht_callback this) clock;
        Some (this, clock, h)
      })"

definition dht11_isDataReady :: "'h dht11 \<Rightarrow> u8" where
  "dht11_isDataReady this = data_ready this"

definition dht11_isChecksumOk :: "'h dht11 \<Rightarrow> bool" where
  "dht11_isChecksumOk this \<longleftrightarrow> data this ! 0 + data this ! 1 + data this ! 2 + data this ! 3 = data this ! 4"

definition dht11_getTemperature :: "'h dht11 \<Rightarrow> u8" where
  "dht11_getTemperature this = data this ! 2"

definition dht11_getRelativeHumidity :: "'h dht11 \<Rightarrow> u8" where
  "dht11_getRelativeHumidity this = data this ! 0"

section \<open>Frames\<close>

text \<open>
  A pulse that starts at a time (in ticks since some origin) and has a width is seen by two
  interrupts; the counter of timer 1 runs from 0 to 15999.
\<close>

definition clock_at :: "'f timer1 \<Rightarrow> nat \<Rightarrow> 'f timer1" where
  "clock_at c t = c\<lparr>regs := (regs c)\<lparr>TCNT1 := of_nat (t mod 16000)\<rparr>\<rparr>"

definition pulse :: "'h mmio \<Rightarrow> 'f timer1 \<Rightarrow> nat \<times> nat \<Rightarrow> 'h dht11 \<times> 'h \<Rightarrow> ('h dht11 \<times> 'h) option" where
  "pulse M c p s =
     do {
       (this, h) \<leftarrow> dht11_irqAnimate M (clock_at c (fst p)) (fst s) (snd s);
       dht11_irqAnimate M (clock_at c (fst p + snd p)) this h
     }"

fun pulses :: "'h mmio \<Rightarrow> 'f timer1 \<Rightarrow> (nat \<times> nat) list \<Rightarrow> 'h dht11 \<times> 'h \<Rightarrow> ('h dht11 \<times> 'h) option" where
  "pulses M c [] s = Some s"
| "pulses M c (p # ps) s = do { s \<leftarrow> pulse M c p s; pulses M c ps s }"

definition byte_val :: "bool list \<Rightarrow> u8" where
  "byte_val bs = foldl (\<lambda>v b. push_bit 1 v OR of_bool b) 0 bs"

definition frame_data :: "bool list \<Rightarrow> u8 list" where
  "frame_data bs = map (\<lambda>j. byte_val (take 8 (drop (8 * j) bs))) [0 ..< 5]"

text \<open>The driver after it has received some bits of a frame.\<close>

definition received :: "'h dht11 \<Rightarrow> bool list \<Rightarrow> bool" where
  "received this bs \<longleftrightarrow>
     data this = frame_data bs \<and> unat (rxByte this) = length bs div 8 \<and> unat (rxBit this) = 8 - length bs mod 8 \<and>
     (if length bs < 40 then state this = DHT11_WAITING_FOR_BIT_SYNC \<and> data_ready this = 0
      else state this = DHT11_IDLE \<and> data_ready this = 1)"

text \<open>A frame: the two edges of the acknowledge, then the pulses of the bits.\<close>

definition dht11_frame :: "'h mmio \<Rightarrow> 'f timer1 \<Rightarrow> nat \<Rightarrow> nat \<Rightarrow> (nat \<times> nat) list \<Rightarrow> 'h dht11 \<times> 'h \<Rightarrow> ('h dht11 \<times> 'h) option" where
  "dht11_frame M c ack idle ps s =
     do {
       (this, h) \<leftarrow> dht11_irqAnimate M (clock_at c ack) (fst s) (snd s);
       (this, h) \<leftarrow> dht11_irqAnimate M (clock_at c idle) this h;
       pulses M c ps (this, h)
     }"

text \<open>A frame of 45 percent and 22 degrees: a pulse of 70 microseconds is a one, one of 27 a zero.\<close>

definition sample_bits :: "bool list" where
  "sample_bits =
     [False, False, True, False, True, True, False, True,
      False, False, False, False, False, False, False, False,
      False, False, False, True, False, True, True, False,
      False, False, False, False, False, False, False, False,
      False, True, False, False, False, False, True, True]"

definition sample_pulses :: "(nat \<times> nat) list" where
  "sample_pulses = zip (map (\<lambda>i. 1600 * i) [0 ..< 40]) (map (\<lambda>b. if b then 1120 else 432) sample_bits)"

section \<open>Decoding\<close>

lemma frame_data_nil: "frame_data [] = [0, 0, 0, 0, 0]"
  by (simp add: frame_data_def byte_val_def upt_rec)

lemma length_frame_data [simp]: "length (frame_data bs) = 5"
  by (simp add: frame_data_def)

lemma nth_frame_data: "k < 5 \<Longrightarrow> frame_data bs ! k = byte_val (take 8 (drop (8 * k) bs))"
  by (simp add: frame_data_def del: upt_Suc)

lemma byte_val_append: "byte_val (bs @ [b]) = push_bit 1 (byte_val bs) OR of_bool b"
  by (simp add: byte_val_def)

lemma frame_data_append:
  assumes "length bs < 40"
  shows "frame_data (bs @ [b]) =
    (frame_data bs)[length bs div 8 := push_bit 1 (frame_data bs ! (length bs div 8)) OR of_bool b]"
proof (rule nth_equalityI)
  fix j assume "j < length (frame_data (bs @ [b]))"
  then have j: "j < 5" by simp
  have n: "length bs div 8 < 5" using assms by simp
  consider "j = length bs div 8" | "j < length bs div 8" | "length bs div 8 < j" by linarith
  then show "frame_data (bs @ [b]) ! j =
      (frame_data bs)[length bs div 8 := push_bit 1 (frame_data bs ! (length bs div 8)) OR of_bool b] ! j"
  proof cases
    case 1
    then have "8 * j \<le> length bs" "length bs - 8 * j < 8" by auto
    then have "take 8 (drop (8 * j) (bs @ [b])) = take 8 (drop (8 * j) bs) @ [b]" by simp
    then have "frame_data (bs @ [b]) ! j = push_bit 1 (frame_data bs ! j) OR of_bool b"
      using j by (simp only: nth_frame_data byte_val_append)
    then show ?thesis using j by (simp only: 1 [symmetric] nth_list_update_eq length_frame_data)
  next
    case 2
    then have "8 * j + 8 \<le> length bs" by auto
    then have "frame_data (bs @ [b]) ! j = frame_data bs ! j" using j by (simp add: nth_frame_data)
    then show ?thesis using 2 by (simp only: nth_list_update_neq)
  next
    case 3
    then have "length bs < 8 * j" by auto
    then have "frame_data (bs @ [b]) ! j = frame_data bs ! j" using j by (simp add: nth_frame_data)
    then show ?thesis using 3 by (simp only: nth_list_update_neq)
  qed
qed simp

lemma pulse_width:
  fixes a w :: nat
  assumes "0 < w" "w < 16000"
  defines "t1 \<equiv> of_nat (a mod 16000) :: u16" and "t2 \<equiv> of_nat ((a + w) mod 16000) :: u16"
  shows "unat ((if t2 \<le> t1 then t2 + 16 * 1000 else t2) - t1) = w"
proof -
  define r where "r = a mod 16000"
  have r: "r < 16000" by (simp add: r_def)
  have u1: "unat t1 = r" unfolding t1_def r_def [symmetric] unat_of_nat using r by simp
  have m: "(a + w) mod 16000 = (if r + w < 16000 then r + w else r + w - 16000)"
    unfolding mod_add_left_eq [of a 16000 w, symmetric] r_def [symmetric] using r assms(2) by (simp add: mod_if)
  have u2: "unat t2 = (if r + w < 16000 then r + w else r + w - 16000)"
    unfolding t2_def m unat_of_nat using r assms(2) by simp
  show ?thesis
  proof (cases "r + w < 16000")
    case True
    then have "\<not> t2 \<le> t1" "t1 \<le> t2" using u1 u2 assms(1) by (simp_all add: word_le_nat_alt)
    then show ?thesis using u1 u2 True by (simp add: unat_sub)
  next
    case False
    have le: "t2 \<le> t1" using u1 u2 False assms(2) by (simp add: word_le_nat_alt)
    have s: "unat (t2 + 16 * 1000) = r + w" unfolding unat_plus_u16 using u2 False r assms(2) by simp
    then have "t1 \<le> t2 + 16 * 1000" using u1 by (simp add: word_le_nat_alt)
    then show ?thesis unfolding if_P [OF le] using s u1 by (simp add: unat_sub)
  qed
qed

lemma dht11_bit_end_eq:
  assumes "data x = d" "unat (rxByte x) = i" "i < length d"
    and "16 * 50 < (if t \<le> start_ticks x then t + 16 * 1000 else t) - start_ticks x \<longleftrightarrow> wide"
  shows "dht11_bit_end M t x h =
    (let y = x\<lparr>data := d[i := push_bit 1 (d ! i) OR of_bool wide], rxBit := rxBit x - 1\<rparr>;
         y = (if rxBit x - 1 = 0 then y\<lparr>rxBit := 8, rxByte := rxByte x + 1\<rparr> else y)
     in if rxByte y < 5
        then Some (y\<lparr>state := DHT11_WAITING_FOR_BIT_SYNC\<rparr>, enable_external_interrupt_input M (extIrq y) 3 h)
        else Some (y\<lparr>state := DHT11_IDLE, data_ready := 1\<rparr>, disable_external_interrupt_input M (extIrq y) h))"
  using assms(1-3) unfolding dht11_bit_end_def Let_def assms(4) dht11_setState_def by (cases wide) simp_all

lemma next_bit:
  fixes by8 bt8 :: u8 and n :: nat
  assumes "unat by8 = n div 8" "unat bt8 = 8 - n mod 8" "n < 40"
  shows "unat (if bt8 - 1 = 0 then by8 + 1 else by8) = Suc n div 8"
    and "unat (if bt8 - 1 = 0 then 8 else bt8 - 1) = 8 - Suc n mod 8"
proof -
  have z: "bt8 - 1 = 0 \<longleftrightarrow> n mod 8 = 7"
  proof -
    have "bt8 - 1 = 0 \<longleftrightarrow> unat bt8 = 1" by (simp add: word_unat_eq_iff [of bt8 1])
    moreover have "n mod 8 < 8" by simp
    ultimately show ?thesis using assms(2) by linarith
  qed
  have le: "1 \<le> bt8" using assms(2) by (simp add: word_le_nat_alt Suc_le_eq)
  have "unat (bt8 - 1) = 7 - n mod 8" using unat_sub [OF le] assms(2) by simp
  moreover have "unat (by8 + 1) = n div 8 + 1" using assms(1,3) by (simp add: unat_plus_u8)
  ultimately show "unat (if bt8 - 1 = 0 then by8 + 1 else by8) = Suc n div 8"
    "unat (if bt8 - 1 = 0 then 8 else bt8 - 1) = 8 - Suc n mod 8"
    unfolding z using assms(1) by (auto simp: div_Suc mod_Suc)
qed

lemma bit_end_received:
  assumes x: "data x = frame_data bs" "unat (rxByte x) = length bs div 8" "unat (rxBit x) = 8 - length bs mod 8" "data_ready x = 0"
    and n: "length bs < 40"
    and w: "16 * 50 < (if t \<le> start_ticks x then t + 16 * 1000 else t) - start_ticks x \<longleftrightarrow> wide"
  shows "\<exists>this' h'. dht11_bit_end M t x h = Some (this', h') \<and> received this' (bs @ [wide])"
proof -
  define byte where "byte = (if rxBit x - 1 = 0 then rxByte x + 1 else rxByte x)"
  define bit' where "bit' = (if rxBit x - 1 = 0 then 8 else rxBit x - 1)"
  define y where "y = x\<lparr>data := frame_data (bs @ [wide]), rxBit := bit', rxByte := byte\<rparr>"
  have i: "length bs div 8 < length (frame_data bs)" using n by simp
  have u: "unat byte = Suc (length bs) div 8" "unat bit' = 8 - Suc (length bs) mod 8"
    unfolding byte_def bit'_def using next_bit [OF x(2,3) n] by simp_all
  have "byte < 5 \<longleftrightarrow> Suc (length bs) < 40" unfolding word_less_nat_alt u by auto
  moreover have "dht11_bit_end M t x h = (if byte < 5
        then Some (y\<lparr>state := DHT11_WAITING_FOR_BIT_SYNC\<rparr>, enable_external_interrupt_input M (extIrq y) 3 h)
        else Some (y\<lparr>state := DHT11_IDLE, data_ready := 1\<rparr>, disable_external_interrupt_input M (extIrq y) h))"
    unfolding dht11_bit_end_eq [OF x(1,2) i w] frame_data_append [OF n, symmetric] Let_def
    by (simp add: y_def byte_def bit'_def)
  ultimately show ?thesis using u x(4) by (simp add: received_def y_def)
qed

lemma pulse_bit:
  assumes r: "received this bs" and n: "length bs < 40" and w: "0 < w" "w < 16000"
  shows "\<exists>this' h'. pulse M c (a, w) (this, h) = Some (this', h') \<and> received this' (bs @ [800 < w])"
proof -
  define t1 where "t1 = (of_nat (a mod 16000) :: u16)"
  define t2 where "t2 = (of_nat ((a + w) mod 16000) :: u16)"
  define h1 where "h1 = enable_external_interrupt_input M (extIrq this) 2 h"
  define x where "x = this\<lparr>start_ticks := t1, state := DHT11_WAITING_FOR_BIT_END\<rparr>"
  have "16 * 50 < (if t2 \<le> t1 then t2 + 16 * 1000 else t2) - t1 \<longleftrightarrow> 800 < w"
    unfolding word_less_nat_alt t1_def t2_def pulse_width [OF w] by simp
  then have wide: "16 * 50 < (if t2 \<le> start_ticks x then t2 + 16 * 1000 else t2) - start_ticks x \<longleftrightarrow> 800 < w"
    by (simp add: x_def)
  have s: "state this = DHT11_WAITING_FOR_BIT_SYNC" using r n by (simp add: received_def)
  have first: "dht11_irqAnimate M (clock_at c a) this h = Some (x, h1)"
    by (simp add: dht11_irqAnimate_def dht11_getConversionState_def s timer1_get_ticks_def clock_at_def Let_def
        dht11_setState_def x_def t1_def h1_def)
  have "pulse M c (a, w) (this, h) = dht11_bit_end M t2 x h1"
    by (simp add: pulse_def first) (simp add: dht11_irqAnimate_def x_def dht11_getConversionState_def timer1_get_ticks_def clock_at_def t2_def)
  then show ?thesis using bit_end_received [OF _ _ _ _ n wide, of M h1] r n by (simp add: received_def x_def)
qed

lemma pulses_received:
  assumes "received this bs" "length bs + length ps \<le> 40" "\<forall>(a, w) \<in> set ps. 0 < w \<and> w < 16000"
  shows "\<exists>this' h'. pulses M c ps (this, h) = Some (this', h') \<and> received this' (bs @ map (\<lambda>p. 800 < snd p) ps)"
  using assms
proof (induction ps arbitrary: this bs h)
  case (Cons p ps)
  obtain a w where p: "p = (a, w)" by fastforce
  obtain this1 h1 where "pulse M c p (this, h) = Some (this1, h1)" "received this1 (bs @ [800 < w])"
    using pulse_bit [OF Cons.prems(1), of w M c a h] Cons.prems(2,3) by (auto simp: p)
  then show ?case using Cons.IH [of this1 "bs @ [800 < w]" h1] Cons.prems(2,3) by (simp add: p)
qed simp

text \<open>
  (C20) After the start signal the driver decodes a frame. Whatever the phase of the timer, the two
  edges of the acknowledge and \<open>n\<close> pulses (at most 40, each shorter than a millisecond) leave
  exactly the bits of the pulses in the data, most significant bit first: a pulse is a one when it is
  longer than 50 microseconds. Data is reported as ready with the last of the 40 bits and not before.
\<close>

theorem dht11_decodes_frame:
  assumes "length ps \<le> 40" "\<forall>(a, w) \<in> set ps. 0 < w \<and> w < 16000"
  shows "\<exists>this' h'. dht11_frame M c ack idle ps (dht11_sendStartDone M (dht11_init_data this) h) = Some (this', h') \<and>
    data this' = frame_data (map (\<lambda>p. 800 < snd p) ps) \<and>
    (dht11_isDataReady this' = 1 \<longleftrightarrow> length ps = 40) \<and>
    (length ps = 40 \<longrightarrow> dht11_getConversionState this' = DHT11_IDLE)"
proof -
  define s0 where "s0 = dht11_sendStartDone M (dht11_init_data this) h"
  obtain this1 h1 where ack: "dht11_irqAnimate M (clock_at c ack) (fst s0) (snd s0) = Some (this1, h1)"
    and t1: "this1 = (dht11_init_data this)\<lparr>state := DHT11_GOT_ACK_WAIT_IDLE\<rparr>"
    by (simp add: s0_def dht11_sendStartDone_def dht11_irqAnimate_def dht11_getConversionState_def dht11_setState_def Let_def)
  obtain this2 where idle: "dht11_irqAnimate M (clock_at c idle) this1 h1 = Some (this2, h1)"
    and t2: "this2 = (dht11_init_data this)\<lparr>state := DHT11_WAITING_FOR_BIT_SYNC\<rparr>"
    by (simp add: t1 dht11_irqAnimate_def dht11_getConversionState_def dht11_setState_def Let_def)
  have "received this2 []" by (simp add: t2 received_def dht11_init_data_def frame_data_nil)
  from pulses_received [OF this, of ps M c h1] assms obtain this' h' where
    p: "pulses M c ps (this2, h1) = Some (this', h')" "received this' (map (\<lambda>p. 800 < snd p) ps)" by auto
  have "dht11_frame M c ack idle ps s0 = Some (this', h')" by (simp add: dht11_frame_def ack idle p)
  moreover have "data this' = frame_data (map (\<lambda>p. 800 < snd p) ps)" "dht11_isDataReady this' = 1 \<longleftrightarrow> length ps = 40"
    "length ps = 40 \<longrightarrow> dht11_getConversionState this' = DHT11_IDLE"
    using p(2) assms(1) by (auto simp: received_def dht11_isDataReady_def dht11_getConversionState_def split: if_splits)
  ultimately show ?thesis unfolding s0_def by blast
qed

theorem dht11_decodes_frame_witness:
  "\<forall>(M :: registers mmio) (c :: unit timer1) this h. \<exists>this' h'.
     dht11_frame M c 0 1280 sample_pulses (dht11_sendStartDone M (dht11_init_data this) h) = Some (this', h') \<and>
     dht11_isDataReady this' = 1 \<and> dht11_getTemperature this' = 22 \<and> dht11_getRelativeHumidity this' = 45 \<and> dht11_isChecksumOk this'"
proof (intro allI)
  fix M :: "registers mmio" and c :: "unit timer1" and this h
  have n: "length sample_bits = 40" by (simp add: sample_bits_def)
  then have l: "length sample_pulses = 40" by (simp add: sample_pulses_def)
  have w: "\<forall>(a, w) \<in> set sample_pulses. 0 < w \<and> w < 16000"
    by (auto simp: sample_pulses_def dest!: set_zip_rightD)
  have "map (\<lambda>p. 800 < snd p) sample_pulses = map (\<lambda>w. 800 < w) (map snd sample_pulses)" by simp
  also have "\<dots> = sample_bits" unfolding sample_pulses_def by (simp add: map_snd_zip n comp_def if_distrib cong: if_cong)
  finally have "frame_data (map (\<lambda>p. 800 < snd p) sample_pulses) = [45, 0, 22, 0, 67]"
    by (simp only:) (simp add: frame_data_def sample_bits_def byte_val_def upt_rec)
  then show "\<exists>this' h'. dht11_frame M c 0 1280 sample_pulses (dht11_sendStartDone M (dht11_init_data this) h) = Some (this', h') \<and>
     dht11_isDataReady this' = 1 \<and> dht11_getTemperature this' = 22 \<and> dht11_getRelativeHumidity this' = 45 \<and> dht11_isChecksumOk this'"
    using dht11_decodes_frame [of sample_pulses M c 0 1280 this h] l w
    by (auto simp: dht11_getTemperature_def dht11_getRelativeHumidity_def dht11_isChecksumOk_def)
qed

end
