(* ===== verification/Spi_Display.thy ===== *)
theory Spi_Display
  imports Buses
begin

text \<open>
  What the drivers of the displays need of the SPI bus, as an interface: a display takes bytes
  together with the level of its select and data lines. The lines may only change when no transfer
  is under way. The interface is met by the register model of the bus with a device that looks at
  the lines as late as it can, when the transfer ends.
\<close>

type_synonym 'h pin = "u8 \<Rightarrow> 'h \<Rightarrow> 'h"

text \<open>The levels of the two lines: the display is selected, and the bytes are data (not commands).\<close>

type_synonym lines = "bool \<times> bool"

section \<open>Transfers without an answer\<close>

text \<open>The calls of \<^verbatim>\<open>spi_io\<close> and \<^verbatim>\<open>spi_async_io\<close> whose answer is not used, and a row of them.\<close>

definition spi_put :: "'h mmio \<Rightarrow> u8 \<Rightarrow> 'h \<Rightarrow> 'h option" where
  "spi_put M b h = map_option snd (spi_io M b h)"

definition spi_put_async :: "'h mmio \<Rightarrow> u8 \<Rightarrow> 'h \<Rightarrow> 'h option" where
  "spi_put_async M b h = map_option snd (spi_async_io M b h)"

definition spi_put_end :: "'h mmio \<Rightarrow> 'h \<Rightarrow> 'h option" where
  "spi_put_end M h = map_option snd (spi_async_io_end M h)"

fun spi_puts :: "'h mmio \<Rightarrow> u8 list \<Rightarrow> 'h \<Rightarrow> 'h option" where
  "spi_puts M [] h = Some h"
| "spi_puts M (b # bs) h = do { h \<leftarrow> spi_put M b h; spi_puts M bs h }"

section \<open>Sequences of transfers\<close>

text \<open>
  A step sends some bytes if, started with the lines in a state and the bus idle or not, it returns
  and has appended exactly these bytes (with the lines at their time) to what the display takes.
\<close>

definition sends ::
    "('h \<Rightarrow> lines \<times> bool \<times> (lines \<times> u8) list) \<Rightarrow> lines \<times> bool \<Rightarrow> ('h \<Rightarrow> 'h option) \<Rightarrow> (lines \<times> u8) list \<Rightarrow> lines \<times> bool \<Rightarrow> bool" where
  "sends view s f bs s' \<longleftrightarrow>
     (\<forall>h l. view h = (fst s, snd s, l) \<longrightarrow> (\<exists>h'. f h = Some h' \<and> view h' = (fst s', snd s', l @ bs)))"

lemma sendsI:
  assumes "\<And>h l. view h = (m, i, l) \<Longrightarrow> \<exists>h'. f h = Some h' \<and> view h' = (m', i', l @ bs)"
  shows "sends view (m, i) f bs (m', i')"
  using assms by (simp add: sends_def)

lemma sendsD:
  assumes "sends view (m, i) f bs (m', i')" "view h = (m, i, l)"
  obtains h' where "f h = Some h'" "view h' = (m', i', l @ bs)"
  using assms by (auto simp: sends_def)

lemma sends_Some: "sends view s Some [] s"
  by (simp add: sends_def)

lemma sends_bind:
  assumes "sends view s f bs s'" "sends view s' g cs s''"
  shows "sends view s (\<lambda>h. Option.bind (f h) g) (bs @ cs) s''"
proof -
  have "\<exists>h'. Option.bind (f h) g = Some h' \<and> view h' = (fst s'', snd s'', l @ bs @ cs)" if v: "view h = (fst s, snd s, l)" for h l
  proof -
    obtain h1 where h1: "f h = Some h1" "view h1 = (fst s', snd s', l @ bs)" using assms(1) v unfolding sends_def by blast
    obtain h2 where "g h1 = Some h2" "view h2 = (fst s'', snd s'', (l @ bs) @ cs)" using assms(2) h1(2) unfolding sends_def by blast
    then show ?thesis using h1 by simp
  qed
  then show ?thesis by (simp add: sends_def)
qed

lemma sends_seq:
  assumes "sends view s f bs s'" "sends view s' g cs s''" "\<And>h. k h = Option.bind (f h) g" "ds = bs @ cs"
  shows "sends view s k ds s''"
proof -
  have "k = (\<lambda>h. Option.bind (f h) g)" using assms(3) by blast
  then show ?thesis using sends_bind [OF assms(1,2)] assms(4) by simp
qed

lemma sends_eq:
  assumes "sends view s f bs s'" "\<And>h. k h = f h"
  shows "sends view s k bs s'"
  using assms by (simp add: sends_def)

section \<open>The interface\<close>

locale display_link =
  fixes M :: "'h mmio" and dc cs :: "'h pin" and view :: "'h \<Rightarrow> lines \<times> bool \<times> (lines \<times> u8) list"
  assumes start: "view h = (m, True, l) \<Longrightarrow> view (wr M SPDR b h) = (m, False, l @ [(m, b)])"
    and wait: "view h = (m, i, l) \<Longrightarrow> \<exists>h'. wait_flag M SPSR 0x80 h = Some h' \<and> view h' = (m, True, l)"
    and read: "view h = (m, True, l) \<Longrightarrow> view (snd (rd M r h)) = (m, True, l)"
    and store: "view h = (m, True, l) \<Longrightarrow> r \<noteq> SPDR \<Longrightarrow> view (wr M r v h) = (m, True, l)"
    and dc: "view h = (m, True, l) \<Longrightarrow> view (dc v h) = ((fst m, v \<noteq> 0), True, l)"
    and cs: "view h = (m, True, l) \<Longrightarrow> view (cs v h) = ((v = 0, snd m), True, l)"
begin

lemma sends_io: "sends view (m, True) (spi_put M b) [(m, b)] (m, True)"
proof (rule sendsI)
  fix h l assume "view h = (m, True, l)"
  then obtain h' where "wait_flag M SPSR 0x80 (wr M SPDR b h) = Some h'" "view h' = (m, True, l @ [(m, b)])"
    using start wait by blast
  then show "\<exists>h'. spi_put M b h = Some h' \<and> view h' = (m, True, l @ [(m, b)])"
    using read [of h' m "l @ [(m, b)]" SPDR] by (simp add: spi_put_def spi_io_def)
qed

lemma sends_async_begin: "sends view (m, True) (\<lambda>h. Some (spi_async_io_begin M b h)) [(m, b)] (m, False)"
  by (rule sendsI) (simp add: spi_async_io_begin_def start)

lemma sends_async_wait: "sends view (m, i) (spi_async_io_wait M) [] (m, True)"
  by (rule sendsI) (simp add: spi_async_io_wait_def wait)

lemma sends_async: "sends view (m, i) (spi_put_async M b) [(m, b)] (m, False)"
proof (rule sendsI)
  fix h l assume "view h = (m, i, l)"
  then obtain h' where h': "wait_flag M SPSR 0x80 h = Some h'" "view h' = (m, True, l)" using wait by blast
  have "view (snd (rd M SPDR h')) = (m, True, l)" using read [OF h'(2)] .
  then have "view (wr M SPDR b (snd (rd M SPDR h'))) = (m, False, l @ [(m, b)])" by (rule start)
  then show "\<exists>h'. spi_put_async M b h = Some h' \<and> view h' = (m, False, l @ [(m, b)])"
    using h'(1) by (simp add: spi_put_async_def spi_async_io_def split_def Let_def)
qed

lemma sends_async_end: "sends view (m, i) (spi_put_end M) [] (m, True)"
proof (rule sendsI)
  fix h l assume "view h = (m, i, l)"
  then obtain h' where "wait_flag M SPSR 0x80 h = Some h'" "view h' = (m, True, l)" using wait by blast
  then show "\<exists>h'. spi_put_end M h = Some h' \<and> view h' = (m, True, l @ [])"
    using read [of h' m l SPDR] by (simp add: spi_put_end_def spi_async_io_end_def)
qed

lemma sends_dc: "sends view ((a, b), True) (\<lambda>h. Some (dc v h)) [] ((a, v \<noteq> 0), True)"
  by (rule sendsI) (simp add: dc)

lemma sends_cs: "sends view ((a, b), True) (\<lambda>h. Some (cs v h)) [] ((v = 0, b), True)"
  by (rule sendsI) (simp add: cs)

lemma sends_setup: "sends view (m, True) (\<lambda>h. Some (spi_setup M speed flags h)) [] (m, True)"
proof (rule sendsI)
  fix h l assume "view h = (m, True, l)"
  then show "\<exists>h'. Some (spi_setup M speed flags h) = Some h' \<and> view h' = (m, True, l @ [])"
    using read by (simp add: spi_setup_def Let_def split_def store)
qed

lemma sends_puts: "sends view (m, True) (spi_puts M bs) (map (Pair m) bs) (m, True)"
proof (induction bs)
  case Nil
  show ?case by (rule sendsI) simp
next
  case (Cons b bs)
  show ?case by (rule sends_seq [OF sends_io Cons.IH]) simp_all
qed

end

section \<open>A device on the bus\<close>

text \<open>
  A transfer is noticed by the processor after \<open>k\<close> more looks at the status; only then the device
  takes the byte, with the lines as they are at that time. A byte written during a transfer is lost.
\<close>

record wire =
  pins :: lines
  flight :: "(u8 \<times> nat) option"
  taken :: "(lines \<times> u8) list"

definition spi_wire :: "nat \<Rightarrow> wire mmio" where
  "spi_wire k =
     \<lparr>rd = (\<lambda>r h. if r = SPSR
              then (case flight h of
                      None \<Rightarrow> (0x80, h)
                    | Some (b, 0) \<Rightarrow> (0x80, h\<lparr>flight := None, taken := taken h @ [(pins h, b)]\<rparr>)
                    | Some (b, Suc n) \<Rightarrow> (0, h\<lparr>flight := Some (b, n)\<rparr>))
              else (0, h)),
      wr = (\<lambda>r v h. if r = SPDR \<and> flight h = None then h\<lparr>flight := Some (v, k)\<rparr> else h),
      rd16 = (\<lambda>r h. (0, h)), wr16 = (\<lambda>r v h. h)\<rparr>"

definition wire_dc :: "wire pin" where
  "wire_dc v h = h\<lparr>pins := (fst (pins h), v \<noteq> 0)\<rparr>"

definition wire_cs :: "wire pin" where
  "wire_cs v h = h\<lparr>pins := (v = 0, snd (pins h))\<rparr>"

definition wire_view :: "wire \<Rightarrow> lines \<times> bool \<times> (lines \<times> u8) list" where
  "wire_view h = (pins h, flight h = None,
     taken h @ (case flight h of None \<Rightarrow> [] | Some (b, n) \<Rightarrow> [(pins h, b)]))"

definition idle_wire :: "lines \<Rightarrow> wire" where
  "idle_wire m = \<lparr>pins = m, flight = None, taken = []\<rparr>"

lemma wire_view_idle [simp]: "wire_view (idle_wire m) = (m, True, [])"
  by (simp add: wire_view_def idle_wire_def)

lemma wire_wait:
  "\<exists>h'. wait_flag (spi_wire k) SPSR 0x80 h = Some h' \<and> wire_view h' = (fst (wire_view h), True, snd (snd (wire_view h)))"
proof (cases "flight h")
  case None
  then show ?thesis by (subst wait_flag.simps) (simp add: spi_wire_def wire_view_def)
next
  case (Some f)
  obtain b n where "f = (b, n)" by (rule prod.exhaust)
  with Some show ?thesis
  proof (induction n arbitrary: h f)
    case 0
    then show ?case by (subst wait_flag.simps) (simp add: spi_wire_def wire_view_def)
  next
    case (Suc n)
    then have "wait_flag (spi_wire k) SPSR 0x80 h = wait_flag (spi_wire k) SPSR 0x80 (h\<lparr>flight := Some (b, n)\<rparr>)"
      by (subst wait_flag.simps) (simp add: spi_wire_def)
    then show ?case using Suc.IH [of "h\<lparr>flight := Some (b, n)\<rparr>" "(b, n)"] Suc.prems by (simp add: wire_view_def)
  qed
qed

interpretation wire: display_link "spi_wire k" wire_dc wire_cs wire_view for k
proof
  fix h m i l b r v
  show "wire_view h = (m, True, l) \<Longrightarrow> wire_view (wr (spi_wire k) SPDR b h) = (m, False, l @ [(m, b)])"
    by (auto simp: wire_view_def spi_wire_def)
  show "wire_view h = (m, i, l) \<Longrightarrow> \<exists>h'. wait_flag (spi_wire k) SPSR 0x80 h = Some h' \<and> wire_view h' = (m, True, l)"
    using wire_wait [of k h] by simp
  show "wire_view h = (m, True, l) \<Longrightarrow> wire_view (snd (rd (spi_wire k) r h)) = (m, True, l)"
    by (auto simp: wire_view_def spi_wire_def)
  show "wire_view h = (m, True, l) \<Longrightarrow> r \<noteq> SPDR \<Longrightarrow> wire_view (wr (spi_wire k) r v h) = (m, True, l)"
    by (auto simp: wire_view_def spi_wire_def)
  show "wire_view h = (m, True, l) \<Longrightarrow> wire_view (wire_dc v h) = ((fst m, v \<noteq> 0), True, l)"
    by (auto simp: wire_view_def wire_dc_def)
  show "wire_view h = (m, True, l) \<Longrightarrow> wire_view (wire_cs v h) = ((v = 0, snd m), True, l)"
    by (auto simp: wire_view_def wire_cs_def)
qed

end
