(* ===== verification/Ili9341.thy ===== *)
theory Ili9341
  imports Spi_Display
begin

text \<open>
  The colour display of \<^verbatim>\<open>src/src/peripherals/lcd_ili9341.c\<close> and the menu of
  \<^verbatim>\<open>src/src/utils/ili9341_text_menu.c\<close>. The pointer to the function that drives the data line is
  an argument; the program memory, where fonts and images are, is a function of the address.
\<close>

section \<open>The driver\<close>

record bitfont =
  bf_width :: u8
  bf_height :: u8
  bf_char_size :: u8
  bf_start :: u8
  bf_end :: u8
  bf_bits :: u16

record image565 =
  im_width :: u16
  im_height :: u16
  im_bytes :: u16

record 'h lcd_ili9341_device =
  setChipSelect :: "'h pin"
  setDataCommand :: "'h pin"

type_synonym flash = "u16 \<Rightarrow> u8"

definition hi8 :: "u16 \<Rightarrow> u8" where "hi8 w = ucast (drop_bit 8 w)"

definition lo8 :: "u16 \<Rightarrow> u8" where "lo8 w = ucast (w AND 0xff)"

definition lcd_ili9341_selectDevice :: "'h lcd_ili9341_device \<Rightarrow> 'h \<Rightarrow> 'h pin \<times> 'h" where
  "lcd_ili9341_selectDevice device h =
     (let h = setChipSelect device 0 h; dc = setDataCommand device
      in (dc, dc 255 h))"

definition lcd_ili9341_deselectDevice :: "'h lcd_ili9341_device \<Rightarrow> 'h \<Rightarrow> 'h" where
  "lcd_ili9341_deselectDevice device h = setChipSelect device 255 h"

definition lcd_ili9341_sendCommand :: "'h mmio \<Rightarrow> 'h pin \<Rightarrow> u8 \<Rightarrow> 'h \<Rightarrow> 'h option" where
  "lcd_ili9341_sendCommand M dc command h = do { h \<leftarrow> spi_put M command (dc 0 h); Some (dc 255 h) }"

definition lcd_ili9341_sendCommandAsyncBegin :: "'h mmio \<Rightarrow> 'h pin \<Rightarrow> u8 \<Rightarrow> 'h \<Rightarrow> 'h option" where
  "lcd_ili9341_sendCommandAsyncBegin M dc command h =
     do { h \<leftarrow> spi_async_io_wait M (spi_async_io_begin M command (dc 0 h)); Some (dc 255 h) }"

definition lcd_ili9341_obtainBus ::
    "(u8 \<times> 'e \<Rightarrow> u8 \<times> 'e) \<Rightarrow> 'h mmio \<Rightarrow> u8 \<Rightarrow> u8 \<Rightarrow> 'e \<Rightarrow> 'h \<Rightarrow> (u8 \<times> u8 \<times> 'e \<times> 'h) option" where
  "lcd_ili9341_obtainBus env M blocking spiBusLock e h =
     do {
       (r, spiBusLock, e) \<leftarrow> spi_obtain_bus env blocking spiBusLock e;
       if r \<noteq> 0 then Some (1, spiBusLock, e, spi_setup M 4 0 h) else Some (0, spiBusLock, e, h)
     }"

definition lcd_ili9341_releaseBus :: "u8 \<Rightarrow> u8" where
  "lcd_ili9341_releaseBus spiBusLock = spi_release_bus spiBusLock"

definition lcd_ili9341_readDisplayId :: "'h mmio \<Rightarrow> 'h pin \<Rightarrow> 'h \<Rightarrow> (u8 \<times> u8 \<times> u8 \<times> 'h) option" where
  "lcd_ili9341_readDisplayId M dc h =
     do {
       h \<leftarrow> lcd_ili9341_sendCommand M dc 0x04 h;
       (manufacturer, h) \<leftarrow> spi_io M 0 h;
       (driverVersion, h) \<leftarrow> spi_io M 0 h;
       (driver, h) \<leftarrow> spi_io M 0 h;
       Some (manufacturer, driverVersion, driver, h)
     }"

text \<open>The commands of the initialisation with their parameters, in order.\<close>

definition init_commands :: "(u8 \<times> u8 list) list" where
  "init_commands =
     [(0xCB, [0x39, 0x2C, 0x00, 0x34, 0x02]),
      (0xCF, [0x00, 0xC1, 0x30]),
      (0xE8, [0x85, 0x00, 0x78]),
      (0xEA, [0x00, 0x00]),
      (0xED, [0x64, 0x03, 0x12, 0x81]),
      (0xF7, [0x20]),
      (0xC0, [0x23]),
      (0xC1, [0x10]),
      (0xC5, [0x3E, 0x28]),
      (0xC7, [0x86]),
      (0x36, [0x48]),
      (0x3A, [0x55]),
      (0xB1, [0x00, 0x18]),
      (0xB6, [0x08, 0x82, 0x27]),
      (0xF2, [0x00]),
      (0x26, [0x01]),
      (0xE0, [0x0F, 0x31, 0x2B, 0x0C, 0x0E, 0x08, 0x4E, 0xF1, 0x37, 0x07, 0x10, 0x03, 0x0E, 0x09, 0x00]),
      (0xE1, [0x00, 0x0E, 0x14, 0x03, 0x11, 0x07, 0x31, 0xC1, 0x48, 0x08, 0x0F, 0x0C, 0x31, 0x36, 0x0F]),
      (0x11, []),
      (0x29, [])]"

fun send_commands :: "'h mmio \<Rightarrow> 'h pin \<Rightarrow> (u8 \<times> u8 list) list \<Rightarrow> 'h \<Rightarrow> 'h option" where
  "send_commands M dc [] h = Some h"
| "send_commands M dc ((c, bs) # cs) h =
     do {
       h \<leftarrow> lcd_ili9341_sendCommand M dc c h;
       h \<leftarrow> spi_puts M bs h;
       send_commands M dc cs h
     }"

definition lcd_ili9341_init :: "'h mmio \<Rightarrow> 'h pin \<Rightarrow> 'h \<Rightarrow> 'h option" where
  "lcd_ili9341_init M dc h = send_commands M dc init_commands h"

definition display_mode_data :: "u8 \<Rightarrow> u8" where
  "display_mode_data mode =
     (if mode AND 0x20 \<noteq> 0
      then ((mode AND NOT 0xC0) OR push_bit 1 (mode AND 0x40)) OR drop_bit 1 (mode AND 0x80)
      else mode)"

definition lcd_ili9341_setDisplayMode :: "'h mmio \<Rightarrow> 'h pin \<Rightarrow> u8 \<Rightarrow> 'h \<Rightarrow> 'h option" where
  "lcd_ili9341_setDisplayMode M dc mode h =
     do { h \<leftarrow> lcd_ili9341_sendCommand M dc 0x36 h; spi_put M (display_mode_data mode) h }"

definition lcd_ili9341_setXAddress :: "'h mmio \<Rightarrow> 'h pin \<Rightarrow> u16 \<Rightarrow> u16 \<Rightarrow> 'h \<Rightarrow> 'h option" where
  "lcd_ili9341_setXAddress M dc st en h =
     do { h \<leftarrow> lcd_ili9341_sendCommand M dc 0x2A h; spi_puts M [hi8 st, lo8 st, hi8 en, lo8 en] h }"

definition lcd_ili9341_setYAddress :: "'h mmio \<Rightarrow> 'h pin \<Rightarrow> u16 \<Rightarrow> u16 \<Rightarrow> 'h \<Rightarrow> 'h option" where
  "lcd_ili9341_setYAddress M dc st en h =
     do { h \<leftarrow> lcd_ili9341_sendCommand M dc 0x2B h; spi_puts M [hi8 st, lo8 st, hi8 en, lo8 en] h }"

fun fill_loop :: "'h mmio \<Rightarrow> u8 \<Rightarrow> u8 \<Rightarrow> nat \<Rightarrow> 'h \<Rightarrow> 'h option" where
  "fill_loop M colourHigh colourLow 0 h = Some h"
| "fill_loop M colourHigh colourLow (Suc countN) h =
     do { h \<leftarrow> spi_put M colourHigh h; h \<leftarrow> spi_put M colourLow h; fill_loop M colourHigh colourLow countN h }"

definition lcd_ili9341_fillN :: "'h mmio \<Rightarrow> 'h pin \<Rightarrow> u16 \<Rightarrow> u16 \<Rightarrow> 'h \<Rightarrow> 'h option" where
  "lcd_ili9341_fillN M dc colour countN h =
     do { h \<leftarrow> lcd_ili9341_sendCommand M dc 0x2C h; fill_loop M (hi8 colour) (lo8 colour) (unat countN) h }"

fun fill_row :: "'h mmio \<Rightarrow> u8 \<Rightarrow> u8 \<Rightarrow> nat \<Rightarrow> 'h \<Rightarrow> 'h option" where
  "fill_row M colourHigh colourLow 0 h = Some h"
| "fill_row M colourHigh colourLow (Suc i) h =
     do { h \<leftarrow> spi_put_async M colourHigh h; h \<leftarrow> spi_put_async M colourLow h; fill_row M colourHigh colourLow i h }"

fun fill_rows :: "'h mmio \<Rightarrow> u8 \<Rightarrow> u8 \<Rightarrow> nat \<Rightarrow> nat \<Rightarrow> 'h \<Rightarrow> 'h option" where
  "fill_rows M colourHigh colourLow countM 0 h = Some h"
| "fill_rows M colourHigh colourLow countM (Suc countN) h =
     do { h \<leftarrow> fill_row M colourHigh colourLow countM h; fill_rows M colourHigh colourLow countM countN h }"

definition lcd_ili9341_fillNTimesM :: "'h mmio \<Rightarrow> 'h pin \<Rightarrow> u16 \<Rightarrow> u16 \<Rightarrow> u16 \<Rightarrow> 'h \<Rightarrow> 'h option" where
  "lcd_ili9341_fillNTimesM M dc colour countN countM h =
     do {
       h \<leftarrow> lcd_ili9341_sendCommandAsyncBegin M dc 0x2C h;
       h \<leftarrow> fill_rows M (hi8 colour) (lo8 colour) (unat countM) (unat countN) h;
       spi_put_end M h
     }"

definition lcd_ili9341_fill :: "'h mmio \<Rightarrow> 'h pin \<Rightarrow> u16 \<Rightarrow> 'h \<Rightarrow> 'h option" where
  "lcd_ili9341_fill M dc colour h =
     do {
       h \<leftarrow> lcd_ili9341_setXAddress M dc 0 239 h;
       h \<leftarrow> lcd_ili9341_setYAddress M dc 0 339 h;
       lcd_ili9341_fillNTimesM M dc colour 320 240 h
     }"

definition lcd_ili9341_drawVerticalLine :: "'h mmio \<Rightarrow> 'h pin \<Rightarrow> u16 \<Rightarrow> u16 \<Rightarrow> u16 \<Rightarrow> u16 \<Rightarrow> 'h \<Rightarrow> 'h option" where
  "lcd_ili9341_drawVerticalLine M dc colour x startY endY h =
     do {
       h \<leftarrow> lcd_ili9341_setXAddress M dc x x h;
       h \<leftarrow> lcd_ili9341_setYAddress M dc startY endY h;
       lcd_ili9341_fillN M dc colour (endY - startY + 1) h
     }"

definition lcd_ili9341_drawHorizontalLine :: "'h mmio \<Rightarrow> 'h pin \<Rightarrow> u16 \<Rightarrow> u16 \<Rightarrow> u16 \<Rightarrow> u16 \<Rightarrow> 'h \<Rightarrow> 'h option" where
  "lcd_ili9341_drawHorizontalLine M dc colour y startX endX h =
     do {
       h \<leftarrow> lcd_ili9341_setXAddress M dc startX endX h;
       h \<leftarrow> lcd_ili9341_setYAddress M dc y y h;
       lcd_ili9341_fillN M dc colour (endX - startX + 1) h
     }"

definition lcd_ili9341_drawFilledRectangle ::
    "'h mmio \<Rightarrow> 'h pin \<Rightarrow> u16 \<Rightarrow> u16 \<Rightarrow> u16 \<Rightarrow> u16 \<Rightarrow> u16 \<Rightarrow> 'h \<Rightarrow> 'h option" where
  "lcd_ili9341_drawFilledRectangle M dc colour startX endX startY endY h =
     do {
       h \<leftarrow> lcd_ili9341_setYAddress M dc startY endY h;
       h \<leftarrow> lcd_ili9341_setXAddress M dc startX endX h;
       lcd_ili9341_fillNTimesM M dc colour (endX - startX + 1) (endY - startY + 1) h
     }"

section \<open>Fonts and images\<close>

fun glyph_loop ::
    "'h mmio \<Rightarrow> flash \<Rightarrow> u8 \<times> u8 \<Rightarrow> u8 \<times> u8 \<Rightarrow> nat \<Rightarrow> u8 \<Rightarrow> u8 \<Rightarrow> u16 \<Rightarrow> 'h \<Rightarrow> 'h option" where
  "glyph_loop M pgm fg bg 0 bytePos currentByte bits h = Some h"
| "glyph_loop M pgm fg bg (Suc bitCount) bytePos currentByte bits h =
     do {
       h \<leftarrow> (if currentByte AND 128 \<noteq> 0 then spi_puts M [fst fg, snd fg] h else spi_puts M [fst bg, snd bg] h);
       if bytePos - 1 = 0 then glyph_loop M pgm fg bg bitCount 8 (pgm bits) (bits + 1) h
       else glyph_loop M pgm fg bg bitCount (bytePos - 1) (push_bit 1 currentByte) bits h
     }"

definition glyph_address :: "bitfont \<Rightarrow> u8 \<Rightarrow> u16" where
  "glyph_address font character = bf_bits font + ucast (bf_char_size font) * (ucast character - ucast (bf_start font))"

definition lcd_ili9341_drawBitFontChar ::
    "'h mmio \<Rightarrow> flash \<Rightarrow> 'h pin \<Rightarrow> u8 \<Rightarrow> u8 \<Rightarrow> u8 \<Rightarrow> bitfont \<Rightarrow> u8 \<times> u8 \<Rightarrow> u8 \<times> u8 \<Rightarrow> 'h \<Rightarrow> 'h option" where
  "lcd_ili9341_drawBitFontChar M pgm dc x y character font fg bg h =
     (let bits = glyph_address font character;
          bitCount = ucast (bf_width font) * ucast (bf_height font) :: u16
      in do {
        h \<leftarrow> lcd_ili9341_setXAddress M dc (ucast x) (ucast x + ucast (bf_width font) - 1) h;
        h \<leftarrow> lcd_ili9341_setYAddress M dc (ucast y) (ucast y + ucast (bf_height font) - 1) h;
        h \<leftarrow> lcd_ili9341_sendCommand M dc 0x2C h;
        glyph_loop M pgm fg bg (unat bitCount) 8 (pgm bits) (bits + 1) h
      })"

text \<open>A string is read up to its terminator; \<open>None\<close> if it has none.\<close>

fun string_loop ::
    "'h mmio \<Rightarrow> flash \<Rightarrow> 'h pin \<Rightarrow> u8 \<Rightarrow> u8 \<Rightarrow> u8 list \<Rightarrow> bitfont \<Rightarrow> u8 \<times> u8 \<Rightarrow> u8 \<times> u8 \<Rightarrow> 'h \<Rightarrow> 'h option" where
  "string_loop M pgm dc x y [] font fg bg h = None"
| "string_loop M pgm dc x y (character # str) font fg bg h =
     (if character = 0 then Some h
      else do {
        h \<leftarrow> lcd_ili9341_drawBitFontChar M pgm dc x y character font fg bg h;
        string_loop M pgm dc (x + bf_width font) y str font fg bg h
      })"

definition lcd_ili9341_drawBitFontString ::
    "'h mmio \<Rightarrow> flash \<Rightarrow> 'h pin \<Rightarrow> u8 \<Rightarrow> u8 \<Rightarrow> u8 list \<Rightarrow> bitfont \<Rightarrow> u16 \<Rightarrow> u16 \<Rightarrow> 'h \<Rightarrow> 'h option" where
  "lcd_ili9341_drawBitFontString M pgm dc x y str font fg bg h =
     string_loop M pgm dc x y str font (hi8 fg, lo8 fg) (hi8 bg, lo8 bg) h"

fun centered_width :: "u8 \<Rightarrow> u8 list \<Rightarrow> u16 \<Rightarrow> u16 option" where
  "centered_width fontWidth [] width = None"
| "centered_width fontWidth (c # str) width =
     (if c = 0 then Some width else centered_width fontWidth str (width - ucast fontWidth))"

definition lcd_ili9341_drawBitFontCenteredString ::
    "'h mmio \<Rightarrow> flash \<Rightarrow> 'h pin \<Rightarrow> u8 \<Rightarrow> u16 \<Rightarrow> u8 \<Rightarrow> u8 list \<Rightarrow> bitfont \<Rightarrow> u16 \<Rightarrow> u16 \<Rightarrow> 'h \<Rightarrow> 'h option" where
  "lcd_ili9341_drawBitFontCenteredString M pgm dc x width y str font fg bg h =
     do {
       width \<leftarrow> centered_width (bf_width font) str width;
       lcd_ili9341_drawBitFontString M pgm dc (ucast (ucast x + width div 2 :: u16)) y str font fg bg h
     }"

fun image_row :: "'h mmio \<Rightarrow> flash \<Rightarrow> nat \<Rightarrow> u16 \<Rightarrow> 'h \<Rightarrow> (u16 \<times> 'h) option" where
  "image_row M pgm 0 bytes h = Some (bytes, h)"
| "image_row M pgm (Suc x) bytes h =
     do {
       h \<leftarrow> spi_put_async M (pgm bytes) h;
       h \<leftarrow> spi_put_async M (pgm (bytes + 1)) h;
       image_row M pgm x (bytes + 2) h
     }"

fun image_rows :: "'h mmio \<Rightarrow> flash \<Rightarrow> nat \<Rightarrow> nat \<Rightarrow> u16 \<Rightarrow> 'h \<Rightarrow> 'h option" where
  "image_rows M pgm width 0 bytes h = Some h"
| "image_rows M pgm width (Suc y) bytes h =
     do { (bytes, h) \<leftarrow> image_row M pgm width bytes h; image_rows M pgm width y bytes h }"

definition lcd_ili9341_drawImage565 :: "'h mmio \<Rightarrow> flash \<Rightarrow> 'h pin \<Rightarrow> u16 \<Rightarrow> u16 \<Rightarrow> image565 \<Rightarrow> 'h \<Rightarrow> 'h option" where
  "lcd_ili9341_drawImage565 M pgm dc x y img h =
     do {
       h \<leftarrow> lcd_ili9341_setXAddress M dc x (x + im_width img - 1) h;
       h \<leftarrow> lcd_ili9341_setYAddress M dc y (y + im_height img - 1) h;
       h \<leftarrow> lcd_ili9341_sendCommandAsyncBegin M dc 0x2C h;
       h \<leftarrow> image_rows M pgm (unat (im_width img)) (unat (im_height img)) (im_bytes img) h;
       spi_put_end M h
     }"

section \<open>The text menu\<close>

text \<open>The items up to the null pointer; the text of an item is a terminated string.\<close>

record ili9341_TextMenu =
  menu_font :: bitfont
  bgColour :: u16
  menuColour :: u16
  fontColour :: u16
  padding :: u8
  menu_items :: "u8 list option list"
  selectedElement :: u8
  elementCount :: u8
  widestElement :: u8

fun text_width :: "u8 list \<Rightarrow> u8 \<Rightarrow> u8 option" where
  "text_width [] width = None"
| "text_width (c # str) width = (if c = 0 then Some width else text_width str (width + 1))"

fun menu_measure :: "u8 list option list \<Rightarrow> ili9341_TextMenu \<Rightarrow> ili9341_TextMenu option" where
  "menu_measure [] menu = None"
| "menu_measure (None # items) menu = Some menu"
| "menu_measure (Some str # items) menu =
     do {
       width \<leftarrow> text_width str 0;
       let menu = (if widestElement menu < width then menu\<lparr>widestElement := width\<rparr> else menu);
       menu_measure items (menu\<lparr>elementCount := elementCount menu + 1\<rparr>)
     }"

definition ili9341_textMenuInit :: "ili9341_TextMenu \<Rightarrow> ili9341_TextMenu option" where
  "ili9341_textMenuInit menu =
     menu_measure (menu_items menu) (menu\<lparr>selectedElement := 0, elementCount := 0, widestElement := 0\<rparr>)"

fun menu_draw_items ::
    "'h mmio \<Rightarrow> flash \<Rightarrow> 'h pin \<Rightarrow> ili9341_TextMenu \<Rightarrow> u16 \<Rightarrow> u16 \<Rightarrow> u8 list option list \<Rightarrow> 'h \<Rightarrow> 'h option" where
  "menu_draw_items M pgm dc menu x y [] h = None"
| "menu_draw_items M pgm dc menu x y (None # items) h = Some h"
| "menu_draw_items M pgm dc menu x y (Some str # items) h =
     do {
       h \<leftarrow> lcd_ili9341_drawBitFontString M pgm dc (ucast x) (ucast y) str (menu_font menu) (fontColour menu) (menuColour menu) h;
       menu_draw_items M pgm dc menu x (y + ucast (bf_height (menu_font menu))) items h
     }"

definition menu_extent :: "u8 \<Rightarrow> u8 \<Rightarrow> u8 \<Rightarrow> u16" where
  "menu_extent pad sz cnt = ucast pad * 2 + ucast sz * ucast cnt"

definition ili9341_textMenuDraw ::
    "'h mmio \<Rightarrow> flash \<Rightarrow> 'h pin \<Rightarrow> ili9341_TextMenu \<Rightarrow> u16 \<Rightarrow> u16 \<Rightarrow> 'h \<Rightarrow> 'h option" where
  "ili9341_textMenuDraw M pgm dc menu screenWidth screenHeight h =
     do {
       h \<leftarrow> lcd_ili9341_drawFilledRectangle M dc (bgColour menu) 0 319 0 239 h;
       let totHeight = menu_extent (padding menu) (bf_height (menu_font menu)) (elementCount menu);
       let totWidth = menu_extent (padding menu) (bf_width (menu_font menu)) (widestElement menu);
       h \<leftarrow> lcd_ili9341_drawFilledRectangle M dc (menuColour menu)
              (screenWidth div 2 - totWidth div 2) (screenWidth div 2 - totWidth div 2 + totWidth)
              (screenHeight div 2 - totHeight div 2) (screenHeight div 2 - totHeight div 2 + totHeight) h;
       let x = ucast (padding menu) + screenWidth div 2 - totWidth div 2;
       let y = ucast (padding menu) + screenHeight div 2 - totHeight div 2;
       menu_draw_items M pgm dc menu x y (menu_items menu) h
     }"

section \<open>What is sent\<close>

text \<open>A command byte and its parameters, to a display that is selected or not.\<close>

definition command_bytes :: "bool \<Rightarrow> u8 \<Rightarrow> u8 list \<Rightarrow> (lines \<times> u8) list" where
  "command_bytes a c bs = ((a, False), c) # map (Pair (a, True)) bs"

definition x_window :: "bool \<Rightarrow> u16 \<Rightarrow> u16 \<Rightarrow> (lines \<times> u8) list" where
  "x_window a st en = command_bytes a 0x2A [hi8 st, lo8 st, hi8 en, lo8 en]"

definition y_window :: "bool \<Rightarrow> u16 \<Rightarrow> u16 \<Rightarrow> (lines \<times> u8) list" where
  "y_window a st en = command_bytes a 0x2B [hi8 st, lo8 st, hi8 en, lo8 en]"

definition pixels :: "bool \<Rightarrow> (u8 \<times> u8) list \<Rightarrow> (lines \<times> u8) list" where
  "pixels a ps = command_bytes a 0x2C (concat (map (\<lambda>(hi, lo). [hi, lo]) ps))"

text \<open>A bit of a glyph: row by row, the most significant bit of a byte first.\<close>

definition glyph_bit :: "flash \<Rightarrow> u16 \<Rightarrow> nat \<Rightarrow> bool" where
  "glyph_bit pgm base k = bit (pgm (base + of_nat (k div 8))) (7 - k mod 8)"

definition glyph_pixels :: "flash \<Rightarrow> bitfont \<Rightarrow> u8 \<Rightarrow> u8 \<times> u8 \<Rightarrow> u8 \<times> u8 \<Rightarrow> (u8 \<times> u8) list" where
  "glyph_pixels pgm font c fg bg =
     map (\<lambda>k. if glyph_bit pgm (glyph_address font c) k then fg else bg)
       [0 ..< unat (ucast (bf_width font) * ucast (bf_height font) :: u16)]"

definition glyph_bytes :: "bool \<Rightarrow> flash \<Rightarrow> bitfont \<Rightarrow> u8 \<times> u8 \<Rightarrow> u8 \<times> u8 \<Rightarrow> u8 \<Rightarrow> u8 \<Rightarrow> u8 \<Rightarrow> (lines \<times> u8) list" where
  "glyph_bytes a pgm font fg bg x y c =
     x_window a (ucast x) (ucast x + ucast (bf_width font) - 1) @
     y_window a (ucast y) (ucast y + ucast (bf_height font) - 1) @
     pixels a (glyph_pixels pgm font c fg bg)"

text \<open>The glyphs of a string, one beside the other as long as they fit below column 256.\<close>

definition string_bytes :: "bool \<Rightarrow> flash \<Rightarrow> bitfont \<Rightarrow> u8 \<times> u8 \<Rightarrow> u8 \<times> u8 \<Rightarrow> u8 \<Rightarrow> u8 \<Rightarrow> u8 list \<Rightarrow> (lines \<times> u8) list" where
  "string_bytes a pgm font fg bg x y cs =
     concat (map (\<lambda>i. glyph_bytes a pgm font fg bg (x + of_nat i * bf_width font) y (cs ! i)) [0 ..< length cs])"

section \<open>The driver on a display\<close>

lemma command_bytes_append: "command_bytes a c bs = [((a, False), c)] @ map (Pair (a, True)) bs"
  by (simp add: command_bytes_def)

text \<open>The shifting loop over a glyph looks at the bits of the glyph in turn.\<close>

lemma shifted_top_bit:
  assumes "r < 8"
  shows "push_bit r (v :: u8) AND 128 \<noteq> 0 \<longleftrightarrow> bit v (7 - r)"
proof -
  have "(128 :: u8) = 2 ^ 7" by simp
  then show ?thesis using assms by (simp only: and_exp_eq_0_iff_not_bit) (simp add: bit_push_bit_iff)
qed

lemma bit_counter:
  assumes "r < 8"
  shows "(of_nat (8 - r) - 1 :: u8) = of_nat (7 - r)" "(of_nat (7 - r) :: u8) = 0 \<longleftrightarrow> r = 7"
proof -
  have "8 - r = Suc (7 - r)" using assms by simp
  then show "(of_nat (8 - r) - 1 :: u8) = of_nat (7 - r)" by (simp only: of_nat_Suc add_diff_cancel_left')
  have "(of_nat (7 - r) :: u8) = 0 \<longleftrightarrow> 256 dvd 7 - r" by (simp add: word_of_nat_eq_0_iff)
  also have "\<dots> \<longleftrightarrow> r = 7" using assms by (auto dest: dvd_imp_le)
  finally show "(of_nat (7 - r) :: u8) = 0 \<longleftrightarrow> r = 7" .
qed

definition glyph_at :: "flash \<Rightarrow> u16 \<Rightarrow> nat \<Rightarrow> u8 \<times> u8 \<times> u16" where
  "glyph_at pgm base k =
     (of_nat (8 - k mod 8), push_bit (k mod 8) (pgm (base + of_nat (k div 8))), base + of_nat (k div 8) + 1)"

lemma glyph_at_Suc:
  "glyph_at pgm base (Suc k) =
    (case glyph_at pgm base k of (pos, byte, adr) \<Rightarrow>
       if pos - 1 = 0 then (8, pgm adr, adr + 1) else (pos - 1, push_bit 1 byte, adr))"
proof (cases "k mod 8 = 7")
  case True
  then have "Suc k mod 8 = 0" "Suc k div 8 = Suc (k div 8)" by (simp_all add: mod_Suc div_Suc)
  then show ?thesis using True by (simp add: glyph_at_def algebra_simps)
next
  case False
  then have r: "k mod 8 < 7" using mod_less_divisor [of 8 k] by linarith
  then have "Suc k mod 8 = Suc (k mod 8)" "Suc k div 8 = k div 8" by (simp_all add: mod_Suc div_Suc)
  moreover have "(of_nat (8 - k mod 8) - 1 :: u8) = of_nat (7 - k mod 8)" "(of_nat (7 - k mod 8) :: u8) \<noteq> 0"
    using bit_counter [of "k mod 8"] r by simp_all
  ultimately show ?thesis by (simp add: glyph_at_def push_bit_eq_mult ac_simps)
qed

lemma concat_pixels:
  "concat (map (\<lambda>(hi, lo). [hi, lo]) (map (\<lambda>k. if P k then fg else bg) ks)) =
    concat (map (\<lambda>k. if P k then [fst fg, snd fg] else [fst bg, snd bg]) ks)"
  by (induction ks) (auto simp: split_def)

context display_link
begin

lemma sends_command:
  "sends view ((a, True), True) (lcd_ili9341_sendCommand M dc c) [((a, False), c)] ((a, True), True)"
proof (rule sendsI)
  fix h l assume "view h = ((a, True), True, l)"
  then have "view (dc 0 h) = ((a, False), True, l)" by (simp add: dc)
  then obtain h1 where "spi_put M c (dc 0 h) = Some h1" "view h1 = ((a, False), True, l @ [((a, False), c)])"
    by (rule sendsD [OF sends_io])
  then show "\<exists>h'. lcd_ili9341_sendCommand M dc c h = Some h' \<and> view h' = ((a, True), True, l @ [((a, False), c)])"
    by (simp add: lcd_ili9341_sendCommand_def dc)
qed

lemma sends_command_async:
  "sends view ((a, True), True) (lcd_ili9341_sendCommandAsyncBegin M dc c) [((a, False), c)] ((a, True), True)"
proof (rule sendsI)
  fix h l assume "view h = ((a, True), True, l)"
  then have "view (dc 0 h) = ((a, False), True, l)" by (simp add: dc)
  then have "view (spi_async_io_begin M c (dc 0 h)) = ((a, False), False, l @ [((a, False), c)])"
    by (simp add: spi_async_io_begin_def start)
  then obtain h1 where "spi_async_io_wait M (spi_async_io_begin M c (dc 0 h)) = Some h1"
      "view h1 = ((a, False), True, (l @ [((a, False), c)]) @ [])"
    by (rule sendsD [OF sends_async_wait])
  then show "\<exists>h'. lcd_ili9341_sendCommandAsyncBegin M dc c h = Some h' \<and> view h' = ((a, True), True, l @ [((a, False), c)])"
    by (simp add: lcd_ili9341_sendCommandAsyncBegin_def dc)
qed

lemma sends_setXAddress:
  "sends view ((a, True), True) (lcd_ili9341_setXAddress M dc st en) (x_window a st en) ((a, True), True)"
  by (rule sends_seq [OF sends_command [of a "0x2A"] sends_puts [of _ "[hi8 st, lo8 st, hi8 en, lo8 en]"]])
    (simp_all add: lcd_ili9341_setXAddress_def x_window_def command_bytes_append del: spi_puts.simps)

lemma sends_setYAddress:
  "sends view ((a, True), True) (lcd_ili9341_setYAddress M dc st en) (y_window a st en) ((a, True), True)"
  by (rule sends_seq [OF sends_command [of a "0x2B"] sends_puts [of _ "[hi8 st, lo8 st, hi8 en, lo8 en]"]])
    (simp_all add: lcd_ili9341_setYAddress_def y_window_def command_bytes_append del: spi_puts.simps)

lemma sends_commands:
  "sends view ((a, True), True) (send_commands M dc ops) (concat (map (\<lambda>(c, bs). command_bytes a c bs) ops)) ((a, True), True)"
proof (induction ops)
  case Nil
  show ?case by (rule sendsI) simp
next
  case (Cons op ops)
  obtain c bs where op: "op = (c, bs)" by (rule prod.exhaust)
  show ?case unfolding op
    by (rule sends_seq [OF sends_command sends_bind [OF sends_puts Cons.IH]]) (simp_all add: command_bytes_append)
qed

lemma sends_fill_loop:
  "sends view (m, True) (fill_loop M hi lo n) (map (Pair m) (concat (replicate n [hi, lo]))) (m, True)"
proof (induction n)
  case 0
  show ?case by (rule sendsI) simp
next
  case (Suc n)
  show ?case by (rule sends_seq [OF sends_io sends_bind [OF sends_io Suc.IH]]) simp_all
qed

lemma sends_fill_row:
  "sends view (m, i) (fill_row M hi lo n) (map (Pair m) (concat (replicate n [hi, lo]))) (m, i \<and> n = 0)"
proof (induction n arbitrary: i)
  case 0
  show ?case by (rule sendsI) simp
next
  case (Suc n)
  have "sends view (m, i) (fill_row M hi lo (Suc n)) (map (Pair m) (concat (replicate (Suc n) [hi, lo]))) (m, False \<and> n = 0)"
    by (rule sends_seq [OF sends_async [of _ _ hi] sends_bind [OF sends_async [of _ _ lo] Suc.IH]]) simp_all
  then show ?case by (simp del: fill_row.simps)
qed

lemma sends_fill_rows:
  "sends view (m, i) (fill_rows M hi lo c n) (map (Pair m) (concat (replicate (n * c) [hi, lo]))) (m, i \<and> n * c = 0)"
proof (induction n arbitrary: i)
  case 0
  show ?case by (rule sendsI) simp
next
  case (Suc n)
  have "sends view (m, i) (\<lambda>h. Option.bind (fill_row M hi lo c h) (fill_rows M hi lo c n))
    (map (Pair m) (concat (replicate c [hi, lo])) @ map (Pair m) (concat (replicate (n * c) [hi, lo]))) (m, (i \<and> c = 0) \<and> n * c = 0)"
    by (rule sends_bind [OF sends_fill_row Suc.IH])
  then show ?case by (simp add: replicate_add algebra_simps conj_commute cong: conj_cong)
qed

lemma sends_glyph_loop:
  "sends view (m, True) (\<lambda>h. case glyph_at pgm base k of (pos, byte, adr) \<Rightarrow> glyph_loop M pgm fg bg n pos byte adr h)
    (map (Pair m) (concat (map (\<lambda>j. if glyph_bit pgm base j then [fst fg, snd fg] else [fst bg, snd bg]) [k ..< k + n]))) (m, True)"
proof (induction n arbitrary: k)
  case 0
  show ?case by (rule sendsI) (simp add: split_def)
next
  case (Suc n)
  obtain pos byte adr where at: "glyph_at pgm base k = (pos, byte, adr)" by (rule prod_cases3)
  have top: "byte AND 128 \<noteq> 0 \<longleftrightarrow> glyph_bit pgm base k"
    using at shifted_top_bit [of "k mod 8"] by (auto simp: glyph_at_def glyph_bit_def)
  have "sends view (m, True) (\<lambda>h. Option.bind (spi_puts M (if glyph_bit pgm base k then [fst fg, snd fg] else [fst bg, snd bg]) h)
      (\<lambda>h. case glyph_at pgm base (Suc k) of (pos, byte, adr) \<Rightarrow> glyph_loop M pgm fg bg n pos byte adr h))
    (map (Pair m) (if glyph_bit pgm base k then [fst fg, snd fg] else [fst bg, snd bg]) @
     map (Pair m) (concat (map (\<lambda>j. if glyph_bit pgm base j then [fst fg, snd fg] else [fst bg, snd bg]) [Suc k ..< Suc k + n]))) (m, True)"
    by (rule sends_bind [OF sends_puts Suc.IH])
  moreover have "[k ..< k + Suc n] = k # [Suc k ..< Suc k + n]" by (simp add: upt_rec)
  moreover have "(case glyph_at pgm base k of (pos, byte, adr) \<Rightarrow> glyph_loop M pgm fg bg (Suc n) pos byte adr h) =
    Option.bind (spi_puts M (if glyph_bit pgm base k then [fst fg, snd fg] else [fst bg, snd bg]) h)
      (\<lambda>h. case glyph_at pgm base (Suc k) of (pos, byte, adr) \<Rightarrow> glyph_loop M pgm fg bg n pos byte adr h)" for h
    unfolding glyph_at_Suc at by (simp add: top)
  ultimately show ?case by (simp only: list.map concat.simps map_append)
qed

lemma sends_drawBitFontChar:
  "sends view ((a, True), True) (lcd_ili9341_drawBitFontChar M pgm dc x y c font fg bg)
    (glyph_bytes a pgm font fg bg x y c) ((a, True), True)"
proof (rule sends_seq [OF sends_setXAddress sends_bind [OF sends_setYAddress sends_bind [OF sends_command
        sends_glyph_loop [where pgm = pgm and base = "glyph_address font c" and k = 0 and fg = fg and bg = bg
          and n = "unat (ucast (bf_width font) * ucast (bf_height font) :: u16)"]]]])
  fix h
  show "lcd_ili9341_drawBitFontChar M pgm dc x y c font fg bg h =
    Option.bind (lcd_ili9341_setXAddress M dc (ucast x) (ucast x + ucast (bf_width font) - 1) h)
      (\<lambda>h. Option.bind (lcd_ili9341_setYAddress M dc (ucast y) (ucast y + ucast (bf_height font) - 1) h)
        (\<lambda>h. Option.bind (lcd_ili9341_sendCommand M dc 0x2C h)
          (\<lambda>h. case glyph_at pgm (glyph_address font c) 0 of (pos, byte, adr) \<Rightarrow>
            glyph_loop M pgm fg bg (unat (ucast (bf_width font) * ucast (bf_height font) :: u16)) pos byte adr h)))"
    by (simp add: lcd_ili9341_drawBitFontChar_def Let_def glyph_at_def)
next
  show "glyph_bytes a pgm font fg bg x y c =
    x_window a (ucast x) (ucast x + ucast (bf_width font) - 1) @ y_window a (ucast y) (ucast y + ucast (bf_height font) - 1) @
    [((a, False), 0x2C)] @ map (Pair (a, True)) (concat (map (\<lambda>j. if glyph_bit pgm (glyph_address font c) j
      then [fst fg, snd fg] else [fst bg, snd bg]) [0 ..< 0 + unat (ucast (bf_width font) * ucast (bf_height font) :: u16)]))"
    by (simp add: glyph_bytes_def pixels_def glyph_pixels_def command_bytes_def concat_pixels del: map_map)
qed

lemma sends_string_loop:
  assumes "0 \<notin> set str"
  shows "sends view ((a, True), True) (\<lambda>h. string_loop M pgm dc x y (str @ 0 # rest) font fg bg h)
    (string_bytes a pgm font fg bg x y str) ((a, True), True)"
  using assms
proof (induction str arbitrary: x)
  case Nil
  show ?case by (rule sendsI) (simp add: string_bytes_def)
next
  case (Cons c str)
  have "string_bytes a pgm font fg bg x y (c # str) =
    glyph_bytes a pgm font fg bg x y c @ string_bytes a pgm font fg bg (x + bf_width font) y str"
    unfolding string_bytes_def by (simp only: length_Cons map_upt_Suc concat.simps) (simp add: algebra_simps)
  moreover have "0 \<notin> set str" "c \<noteq> 0" using Cons.prems by auto
  ultimately show ?case using sends_bind [OF sends_drawBitFontChar Cons.IH] by simp
qed

lemma sends_fillN:
  "sends view ((a, True), True) (lcd_ili9341_fillN M dc colour n)
    (pixels a (replicate (unat n) (hi8 colour, lo8 colour))) ((a, True), True)"
  by (rule sends_seq [OF sends_command [of _ "0x2C"] sends_fill_loop]) (simp_all add: lcd_ili9341_fillN_def pixels_def command_bytes_append)

lemma sends_fillNTimesM:
  "sends view ((a, True), True) (lcd_ili9341_fillNTimesM M dc colour n k)
    (pixels a (replicate (unat n * unat k) (hi8 colour, lo8 colour))) ((a, True), True)"
  by (rule sends_seq [OF sends_command_async [of _ "0x2C"] sends_bind [OF sends_fill_rows [where n = "unat n" and c = "unat k"] sends_async_end]])
    (simp_all add: lcd_ili9341_fillNTimesM_def pixels_def command_bytes_append)

lemma sends_drawFilledRectangle:
  "sends view ((a, True), True) (lcd_ili9341_drawFilledRectangle M dc colour x0 x1 y0 y1)
    (y_window a y0 y1 @ x_window a x0 x1 @ pixels a (replicate (unat (x1 - x0 + 1) * unat (y1 - y0 + 1)) (hi8 colour, lo8 colour)))
    ((a, True), True)"
  by (rule sends_seq [OF sends_setYAddress sends_bind [OF sends_setXAddress sends_fillNTimesM]])
    (simp_all add: lcd_ili9341_drawFilledRectangle_def)

text \<open>Clearing the screen asks for 340 lines of a display of 320.\<close>

lemma sends_fill:
  "sends view ((a, True), True) (lcd_ili9341_fill M dc colour)
    (x_window a 0 239 @ y_window a 0 339 @ pixels a (replicate (320 * 240) (hi8 colour, lo8 colour))) ((a, True), True)"
  by (rule sends_seq [OF sends_setXAddress [of a 0 239] sends_bind [OF sends_setYAddress [of a 0 339] sends_fillNTimesM [of a colour 320 240]]])
    (simp_all add: lcd_ili9341_fill_def)

lemma sends_init:
  "sends view ((a, True), True) (lcd_ili9341_init M dc) (concat (map (\<lambda>(c, bs). command_bytes a c bs) init_commands)) ((a, True), True)"
  by (rule sends_eq [OF sends_commands]) (simp add: lcd_ili9341_init_def)

end

text \<open>The texts of a menu, one below the other.\<close>

definition menu_texts :: "u8 list list \<Rightarrow> u8 list option list" where
  "menu_texts texts = map (\<lambda>t. Some (t @ [0])) texts @ [None]"

definition menu_lines :: "bool \<Rightarrow> flash \<Rightarrow> ili9341_TextMenu \<Rightarrow> u16 \<Rightarrow> u16 \<Rightarrow> u8 list list \<Rightarrow> (lines \<times> u8) list" where
  "menu_lines a pgm menu x y texts =
     concat (map (\<lambda>i. string_bytes a pgm (menu_font menu) (hi8 (fontColour menu), lo8 (fontColour menu)) (hi8 (menuColour menu), lo8 (menuColour menu))
       (ucast x) (ucast (y + of_nat i * ucast (bf_height (menu_font menu)))) (texts ! i)) [0 ..< length texts])"

definition rectangle_bytes :: "bool \<Rightarrow> u16 \<Rightarrow> u16 \<Rightarrow> u16 \<Rightarrow> u16 \<Rightarrow> u16 \<Rightarrow> (lines \<times> u8) list" where
  "rectangle_bytes a colour x0 x1 y0 y1 =
     y_window a y0 y1 @ x_window a x0 x1 @
     pixels a (replicate (unat (x1 - x0 + 1) * unat (y1 - y0 + 1)) (hi8 colour, lo8 colour))"

definition menu_bytes :: "bool \<Rightarrow> flash \<Rightarrow> ili9341_TextMenu \<Rightarrow> u16 \<Rightarrow> u16 \<Rightarrow> nat \<Rightarrow> nat \<Rightarrow> u8 list list \<Rightarrow> (lines \<times> u8) list" where
  "menu_bytes a pgm menu sw sh rows columns texts =
     (let th = of_nat (2 * unat (padding menu) + unat (bf_height (menu_font menu)) * rows) :: u16;
          tw = of_nat (2 * unat (padding menu) + unat (bf_width (menu_font menu)) * columns) :: u16;
          x = sw div 2 - tw div 2; y = sh div 2 - th div 2
      in rectangle_bytes a (bgColour menu) 0 319 0 239 @
         rectangle_bytes a (menuColour menu) x (x + tw) y (y + th) @
         menu_lines a pgm menu (x + ucast (padding menu)) (y + ucast (padding menu)) texts)"

lemma text_width_eq: "0 \<notin> set t \<Longrightarrow> text_width (t @ [0]) w = Some (w + of_nat (length t))"
  by (induction t arbitrary: w) (auto simp: algebra_simps)

definition widest :: "u8 list list \<Rightarrow> nat" where
  "widest texts = foldr (\<lambda>t. max (length t)) texts 0"

lemma menu_measure_eq:
  assumes "\<forall>t \<in> set texts. 0 \<notin> set t \<and> length t < 256"
  shows "menu_measure (menu_texts texts) menu =
    Some (menu\<lparr>widestElement := of_nat (max (unat (widestElement menu)) (widest texts)),
      elementCount := elementCount menu + of_nat (length texts)\<rparr>)"
  using assms
proof (induction texts arbitrary: menu)
  case Nil
  then show ?case by (simp add: menu_texts_def widest_def)
next
  case (Cons t texts)
  define m where "m = menu\<lparr>widestElement := of_nat (max (unat (widestElement menu)) (length t)), elementCount := elementCount menu + 1\<rparr>"
  have l: "length t < 256" and z: "0 \<notin> set t" using Cons.prems by auto
  have u: "unat (of_nat (length t) :: u8) = length t" unfolding unat_of_nat using l by simp
  have m: "max (unat (widestElement menu)) (length t) < 256" using l unat_less_u8 [of "widestElement menu"] by simp
  have "widestElement menu < of_nat (length t) \<longleftrightarrow> unat (widestElement menu) < length t" by (simp add: word_less_nat_alt u)
  then have "(if widestElement menu < of_nat (length t) then menu\<lparr>widestElement := of_nat (length t)\<rparr> else menu)\<lparr>elementCount := elementCount menu + 1\<rparr> = m"
    by (simp add: m_def max_def)
  moreover have "elementCount (if widestElement menu < of_nat (length t) then menu\<lparr>widestElement := of_nat (length t)\<rparr> else menu) = elementCount menu" by simp
  ultimately have "menu_measure (menu_texts (t # texts)) menu = menu_measure (menu_texts texts) m"
    using z by (simp add: menu_texts_def text_width_eq Let_def)
  also have "\<dots> = Some (m\<lparr>widestElement := of_nat (max (unat (widestElement m)) (widest texts)),
      elementCount := elementCount m + of_nat (length texts)\<rparr>)" using Cons by simp
  also have "unat (widestElement m) = max (unat (widestElement menu)) (length t)"
    unfolding m_def using word_of_nat_unat_u8 [OF m] by simp
  finally show ?case by (simp add: m_def widest_def max.assoc algebra_simps)
qed

context display_link
begin

lemma sends_menu_items:
  assumes "\<forall>t \<in> set texts. 0 \<notin> set t"
  shows "sends view ((a, True), True) (\<lambda>h. menu_draw_items M pgm dc menu x y (menu_texts texts) h)
    (menu_lines a pgm menu x y texts) ((a, True), True)"
  using assms
proof (induction texts arbitrary: y)
  case Nil
  show ?case by (rule sendsI) (simp add: menu_texts_def menu_lines_def)
next
  case (Cons t texts)
  have l: "menu_lines a pgm menu x y (t # texts) =
    string_bytes a pgm (menu_font menu) (hi8 (fontColour menu), lo8 (fontColour menu)) (hi8 (menuColour menu), lo8 (menuColour menu)) (ucast x) (ucast y) t @
    menu_lines a pgm menu x (y + ucast (bf_height (menu_font menu))) texts"
    unfolding menu_lines_def by (simp only: length_Cons map_upt_Suc concat.simps) (simp add: algebra_simps)
  have z: "0 \<notin> set t" using Cons.prems by simp
  have ih: "sends view ((a, True), True) (\<lambda>h. menu_draw_items M pgm dc menu x (y + ucast (bf_height (menu_font menu))) (menu_texts texts) h)
    (menu_lines a pgm menu x (y + ucast (bf_height (menu_font menu))) texts) ((a, True), True)" using Cons by simp
  show ?case
    by (rule sends_seq [OF sends_string_loop [OF z, of a pgm "ucast x" "ucast y" "[]" "menu_font menu"
            "(hi8 (fontColour menu), lo8 (fontColour menu))" "(hi8 (menuColour menu), lo8 (menuColour menu))"] ih])
      (simp_all add: l menu_texts_def lcd_ili9341_drawBitFontString_def)
qed

lemma sends_textMenuDraw:
  assumes "\<forall>t \<in> set texts. 0 \<notin> set t" "menu_items menu = menu_texts texts"
    "elementCount menu = of_nat rows" "widestElement menu = of_nat columns" "rows < 256" "columns < 256"
  shows "sends view ((a, True), True) (ili9341_textMenuDraw M pgm dc menu sw sh)
    (menu_bytes a pgm menu sw sh rows columns texts) ((a, True), True)"
proof -
  have ext: "menu_extent p s (of_nat n) = of_nat (2 * unat p + unat s * n)" if "n < 256" for p s n
  proof -
    have "unat (of_nat n :: u8) = n" unfolding unat_of_nat using that by simp
    then have "ucast (of_nat n :: u8) = (of_nat n :: u16)" by (simp add: unsigned_of_nat take_bit_nat_eq_self that)
    then show ?thesis by (simp add: menu_extent_def algebra_simps)
  qed
  define th where "th = (of_nat (2 * unat (padding menu) + unat (bf_height (menu_font menu)) * rows) :: u16)"
  define tw where "tw = (of_nat (2 * unat (padding menu) + unat (bf_width (menu_font menu)) * columns) :: u16)"
  have e: "menu_extent (padding menu) (bf_height (menu_font menu)) (elementCount menu) = th"
    "menu_extent (padding menu) (bf_width (menu_font menu)) (widestElement menu) = tw"
    unfolding th_def tw_def assms(3,4) using ext assms(5,6) by blast+
  have shift: "p + c - d = c - d + p" for p c d :: u16 by simp
  show ?thesis
  proof (rule sends_seq [OF sends_drawFilledRectangle sends_bind [OF sends_drawFilledRectangle sends_menu_items [OF assms(1)]]])
    fix h
    show "ili9341_textMenuDraw M pgm dc menu sw sh h =
      Option.bind (lcd_ili9341_drawFilledRectangle M dc (bgColour menu) 0 319 0 239 h)
       (\<lambda>h. Option.bind (lcd_ili9341_drawFilledRectangle M dc (menuColour menu) (sw div 2 - tw div 2) (sw div 2 - tw div 2 + tw)
              (sh div 2 - th div 2) (sh div 2 - th div 2 + th) h)
         (\<lambda>h. menu_draw_items M pgm dc menu (sw div 2 - tw div 2 + ucast (padding menu)) (sh div 2 - th div 2 + ucast (padding menu)) (menu_texts texts) h))"
      unfolding ili9341_textMenuDraw_def Let_def e assms(2) shift ..
  qed (simp add: menu_bytes_def Let_def rectangle_bytes_def th_def tw_def)
qed

end

lemma widest_less: "\<forall>t \<in> set texts. length t < 256 \<Longrightarrow> widest texts < 256"
  by (induction texts) (auto simp: widest_def)

section \<open>Properties\<close>

text \<open>
  (C23) Text on the display. A string is drawn as one window and one block of pixels per
  character, at the columns \<open>x + i * width\<close> (as far as they are below 256), and every pixel has the
  foreground colour exactly if its bit of the glyph is set, the bits being taken row by row and
  from the most significant bit of each byte of the font. Commands and data are told apart by the
  data line at the time the display takes a byte, and the driver returns with the bus idle.
\<close>

theorem text_on_display:
  assumes "wire_view h = ((a, True), True, l)" "0 \<notin> set str"
  shows "\<exists>h'. lcd_ili9341_drawBitFontString (spi_wire k) pgm wire_dc x y (str @ 0 # rest) font fg bg h = Some h' \<and>
    wire_view h' = ((a, True), True, l @ string_bytes a pgm font (hi8 fg, lo8 fg) (hi8 bg, lo8 bg) x y str)"
  by (rule sendsD [OF wire.sends_string_loop [OF assms(2)] assms(1)]) (auto simp: lcd_ili9341_drawBitFontString_def)

definition sample_font :: bitfont where
  "sample_font = \<lparr>bf_width = 2, bf_height = 2, bf_char_size = 1, bf_start = 0x41, bf_end = 0x42, bf_bits = 0x100\<rparr>"

definition sample_flash :: flash where
  "sample_flash adr = (if adr = 0x101 then 0x90 else 0)"

theorem text_on_display_witness:
  "\<exists>h'. lcd_ili9341_drawBitFontString (spi_wire 3) sample_flash wire_dc 5 7 [0x42, 0] sample_font 0xF81F 0x0001 (idle_wire (True, True)) = Some h' \<and>
    map snd (snd (snd (wire_view h'))) =
      [0x2A, 0, 5, 0, 6, 0x2B, 0, 7, 0, 8, 0x2C, 0xF8, 0x1F, 0, 1, 0, 1, 0xF8, 0x1F]"
proof -
  have "map snd (string_bytes True sample_flash sample_font (hi8 0xF81F, lo8 0xF81F) (hi8 0x0001, lo8 0x0001) 5 7 [0x42]) =
    [0x2A, 0, 5, 0, 6, 0x2B, 0, 7, 0, 8, 0x2C, 0xF8, 0x1F, 0, 1, 0, 1, 0xF8, 0x1F]"
    by code_simp
  then show ?thesis
    using text_on_display [where h = "idle_wire (True, True)" and l = "[]" and a = True and str = "[0x42]" and k = 3 and pgm = sample_flash
        and x = 5 and y = 7 and rest = "[]" and font = sample_font and fg = "0xF81F" and bg = 1] by auto
qed

text \<open>
  (C30) The text menu. Measuring counts the items and finds the widest one; drawing then clears the
  screen, draws one rectangle for the menu and the texts below each other inside of it, for every
  menu of fewer than 256 texts that are shorter than 256 characters.
\<close>

theorem menu_on_display:
  assumes "wire_view h = ((a, True), True, l)" "menu_items menu = menu_texts texts" "length texts < 256"
    "\<forall>t \<in> set texts. 0 \<notin> set t \<and> length t < 256"
  shows "\<exists>menu' h'. ili9341_textMenuInit menu = Some menu' \<and>
    selectedElement menu' = 0 \<and> unat (elementCount menu') = length texts \<and> unat (widestElement menu') = widest texts \<and>
    ili9341_textMenuDraw (spi_wire k) pgm wire_dc menu' sw sh h = Some h' \<and>
    wire_view h' = ((a, True), True, l @ menu_bytes a pgm menu sw sh (length texts) (widest texts) texts)"
proof -
  define menu' where "menu' = menu\<lparr>selectedElement := 0, elementCount := of_nat (length texts), widestElement := of_nat (widest texts)\<rparr>"
  have w: "widest texts < 256" using assms(4) by (intro widest_less) blast
  have i: "ili9341_textMenuInit menu = Some menu'"
    unfolding ili9341_textMenuInit_def assms(2) menu_measure_eq [OF assms(4)] by (simp add: menu'_def)
  have z: "\<forall>t \<in> set texts. 0 \<notin> set t" using assms(4) by blast
  have snd: "sends wire_view ((a, True), True) (ili9341_textMenuDraw (spi_wire k) pgm wire_dc menu' sw sh)
      (menu_bytes a pgm menu' sw sh (length texts) (widest texts) texts) ((a, True), True)"
    by (rule wire.sends_textMenuDraw [OF z]) (simp_all add: menu'_def assms(2,3) w)
  have same: "menu_bytes a pgm menu' sw sh (length texts) (widest texts) texts = menu_bytes a pgm menu sw sh (length texts) (widest texts) texts"
    by (simp add: menu_bytes_def menu_lines_def menu'_def)
  obtain h' where "ili9341_textMenuDraw (spi_wire k) pgm wire_dc menu' sw sh h = Some h'"
      "wire_view h' = ((a, True), True, l @ menu_bytes a pgm menu sw sh (length texts) (widest texts) texts)"
    using sendsD [OF snd assms(1)] unfolding same by blast
  then show ?thesis using i w assms(3) by (auto simp: menu'_def)
qed

definition sample_menu :: ili9341_TextMenu where
  "sample_menu = \<lparr>menu_font = sample_font, bgColour = 0, menuColour = 0x07E0, fontColour = 0xFFFF, padding = 4,
     menu_items = menu_texts [[0x41], [0x42, 0x41]], selectedElement = 9, elementCount = 9, widestElement = 9\<rparr>"

theorem menu_on_display_witness:
  "\<exists>menu' h'. ili9341_textMenuInit sample_menu = Some menu' \<and> unat (elementCount menu') = 2 \<and> unat (widestElement menu') = 2 \<and>
    ili9341_textMenuDraw (spi_wire 3) sample_flash wire_dc menu' 320 240 (idle_wire (True, True)) = Some h'"
  using menu_on_display [where h = "idle_wire (True, True)" and l = "[]" and a = True and menu = sample_menu and
      texts = "[[0x41], [0x42, 0x41]]" and k = 3 and pgm = sample_flash and sw = 320 and sh = 240]
  by (auto simp: sample_menu_def widest_def)

end
