(* ===== verification/Pcd8544.thy ===== *)
theory Pcd8544
  imports Ili9341
begin

text \<open>
  The monochrome display of \<^verbatim>\<open>src/src/peripherals/pcd8544.c\<close>. The functions the client supplies for
  the lines of the display are functions on the state of the hardware; the copy of their pointers
  that the driver keeps is an argument. The lock of the bus is passed along.
\<close>

section \<open>The driver\<close>

record 'h pcd8544_io =
  assert_reset :: "'h \<Rightarrow> 'h"
  desert_reset :: "'h \<Rightarrow> 'h"
  assert_chip_delect :: "'h \<Rightarrow> 'h"
  desert_chip_select :: "'h \<Rightarrow> 'h"
  assert_command :: "'h \<Rightarrow> 'h"
  desert_command :: "'h \<Rightarrow> 'h"

record vertical_byte_font =
  vf_width :: u8
  vf_height :: u8
  vf_start :: u8
  vf_end :: u8
  vf_bytes :: u16


definition with_bus :: "('h \<Rightarrow> 'h option) \<Rightarrow> (u8 \<times> 'e \<Rightarrow> u8 \<times> 'e) \<Rightarrow> u8 \<times> 'e \<Rightarrow> 'h \<Rightarrow> ((u8 \<times> 'e) \<times> 'h) option" where
  "with_bus body env le h =
     do {
       (r, spiBusLock, e) \<leftarrow> spi_obtain_bus env 1 (fst le) (snd le);
       h \<leftarrow> body h;
       Some ((spi_release_bus spiBusLock, e), h)
     }"

definition pcd8544_init_body :: "'h mmio \<Rightarrow> 'h pcd8544_io \<Rightarrow> u8 \<Rightarrow> 'h \<Rightarrow> 'h option" where
  "pcd8544_init_body M io_copy contrast h =
     do {
       let h = assert_command io_copy h;
       let h = assert_chip_delect io_copy h;
       let h = spi_setup M 0 0 h;
       h \<leftarrow> spi_puts M [0x20 OR 0x01, 0x80 OR contrast, 0x04 OR 0, 0x10 OR 4, 0x20 OR 0x02, 0x0C] h;
       let h = desert_command io_copy h;
       Some (desert_chip_select io_copy h)
     }"

definition pcd8544_init ::
    "'h mmio \<Rightarrow> 'h pcd8544_io \<Rightarrow> u8 \<Rightarrow> (u8 \<times> 'e \<Rightarrow> u8 \<times> 'e) \<Rightarrow> u8 \<times> 'e \<Rightarrow> 'h \<Rightarrow> ('h pcd8544_io \<times> (u8 \<times> 'e) \<times> 'h) option" where
  "pcd8544_init M io contrast env le h =
     (let h = assert_reset io h; io_copy = io; h = desert_reset io_copy h
      in do {
        (le, h) \<leftarrow> with_bus (pcd8544_init_body M io_copy contrast) env le h;
        Some (io_copy, le, h)
      })"

fun repeat_put :: "'h mmio \<Rightarrow> u8 \<Rightarrow> nat \<Rightarrow> 'h \<Rightarrow> 'h option" where
  "repeat_put M pattern 0 h = Some h"
| "repeat_put M pattern (Suc n) h = do { h \<leftarrow> spi_put M pattern h; repeat_put M pattern n h }"

definition pcd8544_fill_body :: "'h mmio \<Rightarrow> 'h pcd8544_io \<Rightarrow> u8 \<Rightarrow> 'h \<Rightarrow> 'h option" where
  "pcd8544_fill_body M io_copy pattern h =
     do {
       let h = assert_command io_copy h;
       let h = assert_chip_delect io_copy h;
       let h = spi_setup M 0 0 h;
       h \<leftarrow> spi_put M 0x40 h;
       h \<leftarrow> spi_put M 0x80 h;
       let h = desert_command io_copy h;
       h \<leftarrow> repeat_put M pattern 250 h;
       h \<leftarrow> repeat_put M pattern 254 h;
       Some (desert_chip_select io_copy h)
     }"

definition pcd8544_test ::
    "'h mmio \<Rightarrow> 'h pcd8544_io \<Rightarrow> u8 \<Rightarrow> (u8 \<times> 'e \<Rightarrow> u8 \<times> 'e) \<Rightarrow> u8 \<times> 'e \<Rightarrow> 'h \<Rightarrow> ((u8 \<times> 'e) \<times> 'h) option" where
  "pcd8544_test M io_copy pattern = (let pattern = push_bit (unat pattern) 1 in with_bus (pcd8544_fill_body M io_copy pattern))"

definition pcd8544_fill_screen ::
    "'h mmio \<Rightarrow> 'h pcd8544_io \<Rightarrow> u8 \<Rightarrow> (u8 \<times> 'e \<Rightarrow> u8 \<times> 'e) \<Rightarrow> u8 \<times> 'e \<Rightarrow> 'h \<Rightarrow> ((u8 \<times> 'e) \<times> 'h) option" where
  "pcd8544_fill_screen M io_copy pattern = with_bus (pcd8544_fill_body M io_copy pattern)"

fun print_rows :: "'h mmio \<Rightarrow> flash \<Rightarrow> nat \<Rightarrow> u16 \<Rightarrow> 'h \<Rightarrow> 'h option" where
  "print_rows M pgm 0 bytes h = Some h"
| "print_rows M pgm (Suc j) bytes h = do { h \<leftarrow> spi_put M (pgm bytes) h; print_rows M pgm j (bytes + 1) h }"

fun print_columns :: "'h mmio \<Rightarrow> flash \<Rightarrow> 'h pcd8544_io \<Rightarrow> u8 \<Rightarrow> u8 \<Rightarrow> nat \<Rightarrow> u8 \<Rightarrow> u16 \<Rightarrow> 'h \<Rightarrow> 'h option" where
  "print_columns M pgm io_copy height yIndex 0 x bytes h = Some h"
| "print_columns M pgm io_copy height yIndex (Suc i) x bytes h =
     do {
       let h = assert_command io_copy h;
       h \<leftarrow> spi_put M yIndex h;
       h \<leftarrow> spi_put M x h;
       let h = desert_command io_copy h;
       h \<leftarrow> print_rows M pgm (unat height) bytes h;
       print_columns M pgm io_copy height yIndex i (x + 1) (bytes + ucast height) h
     }"

definition vertical_address :: "vertical_byte_font \<Rightarrow> u8 \<Rightarrow> u16" where
  "vertical_address font data =
     vf_bytes font + (ucast data - ucast (vf_start font)) * (ucast (vf_width font) * ucast (vf_height font))"

fun print_chars :: "'h mmio \<Rightarrow> flash \<Rightarrow> 'h pcd8544_io \<Rightarrow> u8 \<Rightarrow> vertical_byte_font \<Rightarrow> u8 \<Rightarrow> u8 list \<Rightarrow> 'h \<Rightarrow> 'h option" where
  "print_chars M pgm io_copy yIndex font x [] h = None"
| "print_chars M pgm io_copy yIndex font x (data # str) h =
     (if data = 0 then Some h
      else do {
        h \<leftarrow> print_columns M pgm io_copy (vf_height font) yIndex (unat (vf_width font)) x (vertical_address font data) h;
        print_chars M pgm io_copy yIndex font (x + vf_width font) str h
      })"

definition pcd8544_print_body :: "'h mmio \<Rightarrow> flash \<Rightarrow> 'h pcd8544_io \<Rightarrow> u8 \<Rightarrow> u8 \<Rightarrow> u8 list \<Rightarrow> vertical_byte_font \<Rightarrow> 'h \<Rightarrow> 'h option" where
  "pcd8544_print_body M pgm io_copy x yIndex str font h =
     do {
       let h = assert_chip_delect io_copy h;
       let h = spi_setup M 0 0 h;
       h \<leftarrow> print_chars M pgm io_copy (yIndex + 0x40) font (x + 0x80) str h;
       Some (desert_chip_select io_copy h)
     }"

definition pcd8544_print ::
    "'h mmio \<Rightarrow> flash \<Rightarrow> 'h pcd8544_io \<Rightarrow> u8 \<Rightarrow> u8 \<Rightarrow> u8 list \<Rightarrow> vertical_byte_font \<Rightarrow> (u8 \<times> 'e \<Rightarrow> u8 \<times> 'e) \<Rightarrow> u8 \<times> 'e \<Rightarrow> 'h \<Rightarrow>
     ((u8 \<times> 'e) \<times> 'h) option" where
  "pcd8544_print M pgm io_copy x yIndex str font = with_bus (pcd8544_print_body M pgm io_copy x yIndex str font)"

section \<open>What is sent\<close>

text \<open>Functions for the lines that drive the two lines of a link, the display being selected by a low level.\<close>

definition line_io :: "'h pin \<Rightarrow> 'h pin \<Rightarrow> 'h pcd8544_io" where
  "line_io dc cs = \<lparr>assert_reset = id, desert_reset = id, assert_chip_delect = cs 0, desert_chip_select = cs 255,
     assert_command = dc 0, desert_command = dc 255\<rparr>"

definition column_bytes :: "flash \<Rightarrow> vertical_byte_font \<Rightarrow> u8 \<Rightarrow> u8 \<Rightarrow> u16 \<Rightarrow> (lines \<times> u8) list" where
  "column_bytes pgm font y x adr =
     [((True, False), y + 0x40), ((True, False), x + 0x80)] @
     map (\<lambda>j. ((True, True), pgm (adr + of_nat j))) [0 ..< unat (vf_height font)]"

definition char_bytes :: "flash \<Rightarrow> vertical_byte_font \<Rightarrow> u8 \<Rightarrow> u8 \<Rightarrow> u8 \<Rightarrow> (lines \<times> u8) list" where
  "char_bytes pgm font y x c =
     concat (map (\<lambda>i. column_bytes pgm font y (x + of_nat i) (vertical_address font c + of_nat i * ucast (vf_height font)))
       [0 ..< unat (vf_width font)])"

definition text_bytes :: "flash \<Rightarrow> vertical_byte_font \<Rightarrow> u8 \<Rightarrow> u8 \<Rightarrow> u8 list \<Rightarrow> (lines \<times> u8) list" where
  "text_bytes pgm font y x str =
     concat (map (\<lambda>n. char_bytes pgm font y (x + of_nat n * vf_width font) (str ! n)) [0 ..< length str])"

section \<open>The driver on a display\<close>

context display_link
begin

lemma sends_after_lines:
  "sends view ((s, True), True) g bs t \<Longrightarrow> sends view ((s, d), True) (\<lambda>h. g (dc 255 h)) bs t"
  "sends view ((s, False), True) g bs t \<Longrightarrow> sends view ((s, d), True) (\<lambda>h. g (dc 0 h)) bs t"
  "sends view ((False, d), True) g bs t \<Longrightarrow> sends view ((s, d), True) (\<lambda>h. g (cs 255 h)) bs t"
  "sends view ((True, d), True) g bs t \<Longrightarrow> sends view ((s, d), True) (\<lambda>h. g (cs 0 h)) bs t"
  using sends_bind [OF sends_dc [of s d 255]] sends_bind [OF sends_dc [of s d 0]]
    sends_bind [OF sends_cs [of s d 255]] sends_bind [OF sends_cs [of s d 0]] by simp_all

lemma sends_after_setup:
  "sends view (m, True) g bs t \<Longrightarrow> sends view (m, True) (\<lambda>h. g (spi_setup M speed flags h)) bs t"
  by (rule sends_seq [OF sends_setup [of m speed flags]]) simp_all

lemma sends_repeat: "sends view (m, True) (repeat_put M b n) (replicate n (m, b)) (m, True)"
proof (induction n)
  case 0
  show ?case by (rule sendsI) simp
next
  case (Suc n)
  show ?case by (rule sends_seq [OF sends_io [of m b] Suc.IH]) simp_all
qed

lemma sends_print_rows:
  "sends view (m, True) (print_rows M pgm n adr) (map (\<lambda>j. (m, pgm (adr + of_nat j))) [0 ..< n]) (m, True)"
proof (induction n arbitrary: adr)
  case 0
  show ?case by (rule sendsI) simp
next
  case (Suc n)
  show ?case by (rule sends_seq [OF sends_io [of m "pgm adr"] Suc.IH [of "adr + 1"]]) (simp_all only: map_upt_Suc, simp_all add: algebra_simps)
qed

lemma sends_print_columns:
  "sends view ((True, True), True) (print_columns M pgm (line_io dc cs) (vf_height font) (y + 0x40) n (x + 0x80) adr)
    (concat (map (\<lambda>i. column_bytes pgm font y (x + of_nat i) (adr + of_nat i * ucast (vf_height font))) [0 ..< n])) ((True, True), True)"
proof (induction n arbitrary: x adr)
  case 0
  show ?case by (rule sendsI) simp
next
  case (Suc n)
  have tail: "sends view ((True, False), True) (\<lambda>h. Option.bind (print_rows M pgm (unat (vf_height font)) adr (dc 255 h))
      (print_columns M pgm (line_io dc cs) (vf_height font) (y + 0x40) n (x + 1 + 0x80) (adr + ucast (vf_height font))))
    (map (\<lambda>j. ((True, True), pgm (adr + of_nat j))) [0 ..< unat (vf_height font)] @
     concat (map (\<lambda>i. column_bytes pgm font y (x + 1 + of_nat i) (adr + ucast (vf_height font) + of_nat i * ucast (vf_height font))) [0 ..< n]))
    ((True, True), True)"
    by (rule sends_after_lines(1)) (rule sends_bind [OF sends_print_rows Suc.IH])
  have "sends view ((True, False), True) (\<lambda>h. Option.bind (spi_put M (y + 0x40) h) (\<lambda>h. Option.bind (spi_put M (x + 0x80) h)
      (\<lambda>h. Option.bind (print_rows M pgm (unat (vf_height font)) adr (dc 255 h))
      (print_columns M pgm (line_io dc cs) (vf_height font) (y + 0x40) n (x + 1 + 0x80) (adr + ucast (vf_height font))))))
    (column_bytes pgm font y x adr @
     concat (map (\<lambda>i. column_bytes pgm font y (x + 1 + of_nat i) (adr + ucast (vf_height font) + of_nat i * ucast (vf_height font))) [0 ..< n]))
    ((True, True), True)"
    by (rule sends_seq [OF sends_io sends_bind [OF sends_io tail]]) (simp_all add: column_bytes_def)
  from sends_after_lines(2) [OF this, of True]
  have "sends view ((True, True), True) (print_columns M pgm (line_io dc cs) (vf_height font) (y + 0x40) (Suc n) (x + 0x80) adr)
    (column_bytes pgm font y x adr @
     concat (map (\<lambda>i. column_bytes pgm font y (x + 1 + of_nat i) (adr + ucast (vf_height font) + of_nat i * ucast (vf_height font))) [0 ..< n]))
    ((True, True), True)"
    by (rule sends_eq) (simp add: line_io_def Let_def algebra_simps)
  then show ?case by (simp only: map_upt_Suc concat.simps) (simp add: algebra_simps del: print_columns.simps)
qed

lemma sends_print_chars:
  assumes "0 \<notin> set str"
  shows "sends view ((True, True), True) (print_chars M pgm (line_io dc cs) (y + 0x40) font (x + 0x80) (str @ 0 # rest))
    (text_bytes pgm font y x str) ((True, True), True)"
  using assms
proof (induction str arbitrary: x)
  case Nil
  show ?case by (rule sendsI) (simp add: text_bytes_def)
next
  case (Cons c str)
  have b: "text_bytes pgm font y x (c # str) = char_bytes pgm font y x c @ text_bytes pgm font y (x + vf_width font) str"
    unfolding text_bytes_def by (simp only: length_Cons map_upt_Suc concat.simps) (simp add: algebra_simps)
  have ih: "sends view ((True, True), True) (print_chars M pgm (line_io dc cs) (y + 0x40) font (x + vf_width font + 0x80) (str @ 0 # rest))
    (text_bytes pgm font y (x + vf_width font) str) ((True, True), True)" using Cons by simp
  show ?case
    by (rule sends_seq [OF sends_print_columns [of pgm font y "unat (vf_width font)" x "vertical_address font c"] ih])
      (use Cons.prems in \<open>simp_all add: b char_bytes_def algebra_simps\<close>)
qed

lemma sends_print:
  assumes "0 \<notin> set str"
  shows "sends view ((s, True), True) (pcd8544_print_body M pgm (line_io dc cs) x y (str @ 0 # rest) font)
    (text_bytes pgm font y x str) ((False, True), True)"
proof -
  have "sends view ((True, True), True) (\<lambda>h. Option.bind (print_chars M pgm (line_io dc cs) (y + 0x40) font (x + 0x80) (str @ 0 # rest) h)
      (\<lambda>h. Some (cs 255 h))) (text_bytes pgm font y x str @ []) ((False, True), True)"
    by (rule sends_bind [OF sends_print_chars [OF assms] sends_after_lines(3)]) (rule sends_Some)
  from sends_after_lines(4) [OF sends_after_setup [OF this, of 0 0], of s] show ?thesis
    by (simp only: append_Nil2) (erule sends_eq, simp add: pcd8544_print_body_def line_io_def Let_def)
qed

lemma sends_fill_pattern:
  "sends view ((s, d), True) (pcd8544_fill_body M (line_io dc cs) b)
    ([((True, False), 0x40), ((True, False), 0x80)] @ replicate 504 ((True, True), b)) ((False, True), True)"
proof -
  have "sends view ((True, True), True) (\<lambda>h. Option.bind (repeat_put M b 250 h) (\<lambda>h. Option.bind (repeat_put M b 254 h) (\<lambda>h. Some (cs 255 h))))
      (replicate 250 ((True, True), b) @ replicate 254 ((True, True), b) @ []) ((False, True), True)"
    by (rule sends_bind [OF sends_repeat sends_bind [OF sends_repeat sends_after_lines(3)]]) (rule sends_Some)
  from sends_bind [OF sends_io [of "(True, False)" "0x40"] sends_bind [OF sends_io [of "(True, False)" "0x80"] sends_after_lines(1) [OF this, of False]]]
  have "sends view ((True, False), True) (\<lambda>h. Option.bind (spi_put M 0x40 h) (\<lambda>h. Option.bind (spi_put M 0x80 h) (\<lambda>h.
      Option.bind (repeat_put M b 250 (dc 255 h)) (\<lambda>h. Option.bind (repeat_put M b 254 h) (\<lambda>h. Some (cs 255 h))))))
      ([((True, False), 0x40), ((True, False), 0x80)] @ replicate 504 ((True, True), b)) ((False, True), True)"
    by (simp add: replicate_add [symmetric] del: replicate.simps)
  from sends_after_lines(2) [OF sends_after_lines(4) [OF sends_after_setup [OF this, of 0 0], of s], of d] show ?thesis
    by (rule sends_eq) (simp add: pcd8544_fill_body_def line_io_def Let_def)
qed

end

section \<open>Properties\<close>

lemma with_bus_sends:
  assumes "sends wire_view (m, True) body bs (m', True)" "wire_view h = (m, True, l)"
    "spi_obtain_bus env 1 lk e = Some (r, lk', e')"
  shows "\<exists>h'. with_bus body env (lk, e) h = Some ((0, e'), h') \<and> wire_view h' = (m', True, l @ bs)"
  by (rule sendsD [OF assms(1,2)]) (simp add: with_bus_def assms(3) spi_release_bus_def)

text \<open>
  (C28) Once the driver has the bus, printing a string sends, for every column of every character, the
  address of the column as commands and the bytes of the column as data, from left to right; filling
  sends the address of the first column and 504 data bytes, which are all bytes of the display. Both
  return with the display unselected, the line in data mode and the bus released, which is the state
  the routines start from.
\<close>

theorem pcd8544_draws:
  assumes "wire_view h = ((False, True), True, l)" "0 \<notin> set str" "spi_obtain_bus env 1 lk e = Some (r, lk', e')"
  shows "(\<exists>h'. pcd8544_print (spi_wire k) pgm (line_io wire_dc wire_cs) x y (str @ 0 # rest) font env (lk, e) h = Some ((0, e'), h') \<and>
      wire_view h' = ((False, True), True, l @ text_bytes pgm font y x str)) \<and>
    (\<exists>h'. pcd8544_fill_screen (spi_wire k) (line_io wire_dc wire_cs) b env (lk, e) h = Some ((0, e'), h') \<and>
      wire_view h' = ((False, True), True, l @ [((True, False), 0x40), ((True, False), 0x80)] @ replicate (84 * 6) ((True, True), b)))"
proof (rule conjI)
  show "\<exists>h'. pcd8544_print (spi_wire k) pgm (line_io wire_dc wire_cs) x y (str @ 0 # rest) font env (lk, e) h = Some ((0, e'), h') \<and>
      wire_view h' = ((False, True), True, l @ text_bytes pgm font y x str)"
    unfolding pcd8544_print_def by (rule with_bus_sends [OF wire.sends_print [OF assms(2)] assms(1,3)])
  have "84 * 6 = (504 :: nat)" by simp
  then show "\<exists>h'. pcd8544_fill_screen (spi_wire k) (line_io wire_dc wire_cs) b env (lk, e) h = Some ((0, e'), h') \<and>
      wire_view h' = ((False, True), True, l @ [((True, False), 0x40), ((True, False), 0x80)] @ replicate (84 * 6) ((True, True), b))"
    unfolding pcd8544_fill_screen_def by (simp only:) (rule with_bus_sends [OF wire.sends_fill_pattern assms(1,3)])
qed

definition sample_columns :: vertical_byte_font where
  "sample_columns = \<lparr>vf_width = 2, vf_height = 1, vf_start = 0x41, vf_end = 0x42, vf_bytes = 0x100\<rparr>"

theorem pcd8544_draws_witness:
  "\<exists>h'. pcd8544_print (spi_wire 3) (\<lambda>adr. ucast adr) (line_io wire_dc wire_cs) 5 2 [0x42, 0x41, 0] sample_columns id (0, ()) (idle_wire (False, True)) =
      Some ((0, ()), h') \<and>
    map snd (snd (snd (wire_view h'))) = [0x42, 0x85, 2, 0x42, 0x86, 3, 0x42, 0x87, 0, 0x42, 0x88, 1]"
proof -
  have bytes: "map snd (text_bytes (\<lambda>adr. ucast adr) sample_columns 2 5 [0x42, 0x41]) = [0x42, 0x85, 2, 0x42, 0x86, 3, 0x42, 0x87, 0, 0x42, 0x88, 1]"
    by code_simp
  have free: "spi_obtain_bus id 1 0 () = Some (1, 1, ())" by (rule spi_lock.free) simp
  have "0 \<notin> set [0x42 :: u8, 0x41]" by simp
  from pcd8544_draws [OF wire_view_idle this free, THEN conjunct1, of 3 "\<lambda>adr. ucast adr" 5 2 "[]" sample_columns]
  obtain h' where h': "pcd8544_print (spi_wire 3) (\<lambda>adr. ucast adr) (line_io wire_dc wire_cs) 5 2 ([0x42, 0x41] @ 0 # []) sample_columns id (0, ()) (idle_wire (False, True)) =
      Some ((0, ()), h')" "wire_view h' = ((False, True), True, [] @ text_bytes (\<lambda>adr. ucast adr) sample_columns 2 5 [0x42, 0x41])" by blast
  show ?thesis by (rule exI [of _ h']) (use h' bytes in simp)
qed

end
