(* ===== verification/Lcd_44780.thy ===== *)
theory Lcd_44780
  imports Mmio
begin

text \<open>
  The character display of \<^verbatim>\<open>src/src/peripherals/lcd_44780.c\<close>, driven through port D in nibbles:
  bit 4 is the register select, bit 5 read/write and bit 6 the enable line. The delays are counting
  loops without an effect; waiting for the display may never end, which is \<open>None\<close>.
\<close>

section \<open>The driver\<close>

primrec lcd_44780_delay :: "nat \<Rightarrow> 'h \<Rightarrow> 'h" where
  "lcd_44780_delay 0 h = h"
| "lcd_44780_delay (Suc loops) h = lcd_44780_delay loops h"

definition lcd_44780_data_in :: "'h mmio \<Rightarrow> 'h \<Rightarrow> 'h" where
  "lcd_44780_data_in M h = and_reg M DDRD 0xF0 h"

definition lcd_44780_data_out :: "'h mmio \<Rightarrow> 'h \<Rightarrow> 'h" where
  "lcd_44780_data_out M h = or_reg M DDRD 0x0F h"

definition lcd_44780_read_nibble :: "'h mmio \<Rightarrow> u8 \<Rightarrow> 'h \<Rightarrow> u8 \<times> 'h" where
  "lcd_44780_read_nibble M ty h =
     (let h = wr M PORTD (ty OR 0x20) h;
          h = wr M PORTD (0x40 OR ty OR 0x20) h;
          (result, h) = rd M PIND h
      in (result AND 0x0F, wr M PORTD (ty OR 0x20) h))"

partial_function (option) display_busy_loop :: "'h mmio \<Rightarrow> 'h \<Rightarrow> 'h option" where
  "display_busy_loop M h =
     (case lcd_44780_read_nibble M 0 h of (busy, h) \<Rightarrow>
      case lcd_44780_read_nibble M 0 h of (_, h) \<Rightarrow>
        if busy AND 8 \<noteq> 0 then display_busy_loop M h else Some h)"

definition lcd_44780_wait_for_display :: "'h mmio \<Rightarrow> 'h \<Rightarrow> 'h option" where
  "lcd_44780_wait_for_display M h =
     do { h \<leftarrow> display_busy_loop M (lcd_44780_data_in M h); Some (lcd_44780_data_out M h) }"

definition lcd_44780_write_nibble :: "'h mmio \<Rightarrow> u8 \<Rightarrow> u8 \<Rightarrow> 'h \<Rightarrow> 'h" where
  "lcd_44780_write_nibble M data ty h =
     (let h = wr M PORTD (ty OR (data AND 0x0F)) h;
          h = wr M PORTD (0x40 OR ty OR (data AND 0x0F)) h
      in wr M PORTD (ty OR (data AND 0x0F)) h)"

definition lcd_44780_write_byte :: "'h mmio \<Rightarrow> u8 \<Rightarrow> bool \<Rightarrow> 'h \<Rightarrow> 'h option" where
  "lcd_44780_write_byte M data is_command h =
     (let ty = (if is_command then 0 else 0x10)
      in do {
        h \<leftarrow> lcd_44780_wait_for_display M h;
        let h = lcd_44780_write_nibble M (drop_bit 4 data) ty h;
        let h = lcd_44780_delay 50 h;
        Some (lcd_44780_write_nibble M (data AND 0x0F) ty h)
      })"

definition lcd_44780_command :: "'h mmio \<Rightarrow> u8 \<Rightarrow> 'h \<Rightarrow> 'h option" where
  "lcd_44780_command M command h = lcd_44780_write_byte M command True h"

definition lcd_44780_init :: "'h mmio \<Rightarrow> 'h \<Rightarrow> 'h option" where
  "lcd_44780_init M h =
     do {
       let h = and_reg M PORTD (NOT 0x7F) h;
       let h = or_reg M DDRD 0x7F h;
       let h = lcd_44780_delay 20000 (lcd_44780_write_nibble M 3 0 h);
       let h = lcd_44780_delay 20000 (lcd_44780_write_nibble M 3 0 h);
       let h = lcd_44780_delay 20000 (lcd_44780_write_nibble M 3 0 h);
       let h = lcd_44780_write_nibble M 2 0 h;
       h \<leftarrow> lcd_44780_command M 0x28 h;
       h \<leftarrow> lcd_44780_command M 0x08 h;
       h \<leftarrow> lcd_44780_command M 0x06 h;
       h \<leftarrow> lcd_44780_command M 0x01 h;
       lcd_44780_command M 0x0C h
     }"

definition lcd_44780_power_up_delay :: "'h \<Rightarrow> 'h" where
  "lcd_44780_power_up_delay h = ((lcd_44780_delay 65000) ^^ 6) h"

text \<open>A string is read up to its terminator; \<open>None\<close> if it has none.\<close>

fun lcd_44780_print :: "'h mmio \<Rightarrow> u8 list \<Rightarrow> 'h \<Rightarrow> 'h option" where
  "lcd_44780_print M [] h = None"
| "lcd_44780_print M (c # str) h =
     (if c = 0 then Some h else do { h \<leftarrow> lcd_44780_write_byte M c False h; lcd_44780_print M str h })"

fun write_data_bytes :: "'h mmio \<Rightarrow> u8 list \<Rightarrow> 'h \<Rightarrow> 'h option" where
  "write_data_bytes M [] h = Some h"
| "write_data_bytes M (b # bs) h = do { h \<leftarrow> lcd_44780_write_byte M b False h; write_data_bytes M bs h }"

definition lcd_44780_set_custom_char :: "'h mmio \<Rightarrow> u8 \<Rightarrow> u8 list \<Rightarrow> 'h \<Rightarrow> 'h option" where
  "lcd_44780_set_custom_char M index graphics h =
     (if length graphics < 8 then None
      else do {
        h \<leftarrow> lcd_44780_command M (push_bit 3 index + 64) h;
        write_data_bytes M (take 8 graphics) h
      })"

section \<open>A display\<close>

text \<open>
  The display takes a nibble when the enable line falls during a write, together with the level of the
  register select line, and reports that it is busy for a number of reads.
\<close>

record hd44780 =
  port_d :: u8
  latched :: "(bool \<times> u8) list"
  busy_reads :: nat

definition hd44780_bus :: "hd44780 mmio" where
  "hd44780_bus =
     \<lparr>rd = (\<lambda>r h. if r = PIND then (if busy_reads h = 0 then 0 else 8, h\<lparr>busy_reads := busy_reads h - 1\<rparr>)
                  else if r = PORTD then (port_d h, h) else (0, h)),
      wr = (\<lambda>r v h. if r = PORTD
                    then h\<lparr>port_d := v, latched := latched h @
                           (if bit (port_d h) 6 \<and> \<not> bit v 6 \<and> \<not> bit (port_d h) 5 then [(bit (port_d h) 4, port_d h AND 0x0F)] else [])\<rparr>
                    else h),
      rd16 = (\<lambda>r h. (0, h)), wr16 = (\<lambda>r v h. h)\<rparr>"

lemma hd44780_rd [simp]:
  "rd hd44780_bus PIND h = (if busy_reads h = 0 then 0 else 8, h\<lparr>busy_reads := busy_reads h - 1\<rparr>)"
  "rd hd44780_bus DDRD h = (0, h)" "wr hd44780_bus DDRD v h = h"
  by (simp_all add: hd44780_bus_def)

lemma hd44780_wr [simp]:
  "wr hd44780_bus PORTD v h = h\<lparr>port_d := v, latched := latched h @
     (if bit (port_d h) 6 \<and> \<not> bit v 6 \<and> \<not> bit (port_d h) 5 then [(bit (port_d h) 4, port_d h AND 0x0F)] else [])\<rparr>"
  by (simp add: hd44780_bus_def)

text \<open>The enable line is low between the operations of the driver.\<close>

definition enable_low :: "hd44780 \<Rightarrow> bool" where
  "enable_low h \<longleftrightarrow> \<not> bit (port_d h) 6"

lemma delay_id [simp]: "lcd_44780_delay n h = h"
  by (induction n) simp_all

lemma low_nibble_bits: "\<not> bit (d AND 0x0F :: u8) 4" "\<not> bit (d AND 0x0F :: u8) 5" "\<not> bit (d AND 0x0F :: u8) 6"
  by (simp_all add: bit_and_iff)

lemma write_nibble_latches:
  assumes "enable_low h" "ty = 0 \<or> ty = 0x10"
  shows "latched (lcd_44780_write_nibble hd44780_bus d ty h) = latched h @ [(ty \<noteq> 0, d AND 0x0F)]"
    "enable_low (lcd_44780_write_nibble hd44780_bus d ty h)"
    "busy_reads (lcd_44780_write_nibble hd44780_bus d ty h) = busy_reads h"
  using assms low_nibble_bits [of d]
  by (auto simp: lcd_44780_write_nibble_def Let_def enable_low_def bit_or_iff and.assoc bit.conj_disj_distrib2)

lemma read_nibble_display:
  assumes "enable_low h"
  shows "\<exists>h'. lcd_44780_read_nibble hd44780_bus 0 h = (if busy_reads h = 0 then 0 else 8, h') \<and>
    latched h' = latched h \<and> enable_low h' \<and> busy_reads h' = busy_reads h - 1"
  using assms by (simp add: lcd_44780_read_nibble_def Let_def enable_low_def)

lemma display_busy_returns:
  "enable_low h \<Longrightarrow> \<exists>h'. display_busy_loop hd44780_bus h = Some h' \<and> latched h' = latched h \<and> enable_low h'"
proof (induction "busy_reads h" arbitrary: h rule: less_induct)
  case less
  obtain h1 where h1: "lcd_44780_read_nibble hd44780_bus 0 h = (if busy_reads h = 0 then 0 else 8, h1)"
    "latched h1 = latched h" "enable_low h1" "busy_reads h1 = busy_reads h - 1" using read_nibble_display [OF less.prems] by blast
  obtain h2 where h2: "lcd_44780_read_nibble hd44780_bus 0 h1 = (if busy_reads h1 = 0 then 0 else 8, h2)"
    "latched h2 = latched h1" "enable_low h2" "busy_reads h2 = busy_reads h1 - 1" using read_nibble_display [OF h1(3)] by blast
  show ?case
  proof (cases "busy_reads h = 0")
    case True
    then show ?thesis using h1 h2 by (subst display_busy_loop.simps) simp
  next
    case False
    then have "display_busy_loop hd44780_bus h = display_busy_loop hd44780_bus h2" using h1 h2 by (subst display_busy_loop.simps) simp
    then show ?thesis using less.hyps [of h2] h1 h2 False by simp
  qed
qed

lemma write_byte_latches:
  assumes "enable_low h"
  shows "\<exists>h'. lcd_44780_write_byte hd44780_bus d is_command h = Some h' \<and> enable_low h' \<and>
    latched h' = latched h @ [(\<not> is_command, drop_bit 4 d), (\<not> is_command, d AND 0x0F)]"
proof -
  define ty where "ty = (if is_command then 0 else 0x10 :: u8)"
  have ty: "ty = 0 \<or> ty = 0x10" "ty \<noteq> 0 \<longleftrightarrow> \<not> is_command" by (simp_all add: ty_def)
  obtain h1 where h1: "display_busy_loop hd44780_bus h = Some h1" "latched h1 = latched h" "enable_low h1"
    using display_busy_returns [OF assms] by blast
  have "(0x0F :: u8) = mask 4" by (simp add: mask_eq_exp_minus_1)
  then have "drop_bit 4 d AND 0x0F = take_bit 4 (drop_bit 4 d)" by (simp only: take_bit_eq_mask)
  also have "\<dots> = drop_bit 4 d"
    by (rule bit_word_eqI) (auto simp: bit_take_bit_iff bit_drop_bit_eq dest: bit_imp_le_length)
  finally have "drop_bit 4 d AND 0x0F = drop_bit 4 d" .
  then show ?thesis
    using h1 write_nibble_latches [OF h1(3) ty(1), of "drop_bit 4 d"]
      write_nibble_latches [OF write_nibble_latches(2) [OF h1(3) ty(1), of "drop_bit 4 d"] ty(1), of "d AND 0x0F"] ty(2)
    by (simp add: lcd_44780_write_byte_def lcd_44780_wait_for_display_def lcd_44780_data_in_def lcd_44780_data_out_def
        reg_ops modify_reg_def Let_def ty_def [symmetric] and.assoc)
qed

text \<open>A string reaches the display: two nibbles per character with the register select line high.\<close>

lemma print_latches:
  assumes "enable_low h" "0 \<notin> set str"
  shows "\<exists>h'. lcd_44780_print hd44780_bus (str @ 0 # rest) h = Some h' \<and> enable_low h' \<and>
    latched h' = latched h @ concat (map (\<lambda>c. [(True, drop_bit 4 c), (True, c AND 0x0F)]) str)"
  using assms
proof (induction str arbitrary: h)
  case (Cons c str)
  obtain h1 where h1: "lcd_44780_write_byte hd44780_bus c False h = Some h1" "enable_low h1"
    "latched h1 = latched h @ [(True, drop_bit 4 c), (True, c AND 0x0F)]"
    using write_byte_latches [OF Cons.prems(1), of c False] by auto
  then show ?case using Cons.IH [OF h1(2)] Cons.prems(2) by auto
qed simp

end
