(* ===== verification/Lcd_Terminal.thy ===== *)
theory Lcd_Terminal
  imports Ili9341 Board_Io
begin

text \<open>
  The program \<^verbatim>\<open>src/src/programs/lcd_terminal/lcd_terminal.c\<close>: bytes received by the serial port
  go into a ring of lines, of which the main program draws sixteen. The font is generated by the
  build and is an argument. The delays of the initialisation are counting loops without an effect.
\<close>

section \<open>The display\<close>

definition initPorts :: "'h mmio \<Rightarrow> 'h \<Rightarrow> 'h" where
  "initPorts M h = or_reg M DDRB 0x17 h"

definition lcd_pin :: "u8 \<Rightarrow> 'h mmio \<Rightarrow> bool \<Rightarrow> 'h \<Rightarrow> 'h" where
  "lcd_pin m M v h = (if v then or_reg M PORTB m h else and_reg M PORTB (NOT m) h)"

definition lcdResetPin :: "'h mmio \<Rightarrow> bool \<Rightarrow> 'h \<Rightarrow> 'h" where
  "lcdResetPin = lcd_pin 0x10"

definition lcdCS :: "'h mmio \<Rightarrow> bool \<Rightarrow> 'h \<Rightarrow> 'h" where
  "lcdCS = lcd_pin 0x01"

definition lcdClk :: "'h mmio \<Rightarrow> bool \<Rightarrow> 'h \<Rightarrow> 'h" where
  "lcdClk = lcd_pin 0x02"

definition lcdData :: "'h mmio \<Rightarrow> bool \<Rightarrow> 'h \<Rightarrow> 'h" where
  "lcdData = lcd_pin 0x04"

text \<open>A clock pulse, and the bits of a byte from the most significant one.\<close>

definition clock_pulse :: "'h mmio \<Rightarrow> 'h \<Rightarrow> 'h" where
  "clock_pulse M h = and_reg M PORTB (NOT 0x02) (or_reg M PORTB 0x02 h)"

fun shift_bits :: "'h mmio \<Rightarrow> u8 \<Rightarrow> u8 \<Rightarrow> nat \<Rightarrow> 'h \<Rightarrow> 'h" where
  "shift_bits M byte i 0 h = h"
| "shift_bits M byte i (Suc j) h =
     shift_bits M byte (drop_bit 1 i) j (clock_pulse M (lcdData M (byte AND i \<noteq> 0) h))"

definition writeByte :: "'h mmio \<Rightarrow> u8 \<Rightarrow> bool \<Rightarrow> 'h \<Rightarrow> 'h" where
  "writeByte M byte isCommand h = shift_bits M byte 128 8 (clock_pulse M (lcdData M (\<not> isCommand) h))"

definition fastData :: "'h mmio \<Rightarrow> u8 \<Rightarrow> 'h \<Rightarrow> 'h option" where
  "fastData M data h =
     do {
       let h = clock_pulse M (or_reg M PORTB 0x04 h);
       let h = wr M SPDR data (wr M SPCR 0x50 h);
       h \<leftarrow> wait_flag M SPSR 0x80 h;
       Some (wr M SPCR 0 h)
     }"

fun fastDatas :: "'h mmio \<Rightarrow> u8 list \<Rightarrow> 'h \<Rightarrow> 'h option" where
  "fastDatas M [] h = Some h"
| "fastDatas M (b # bs) h = do { h \<leftarrow> fastData M b h; fastDatas M bs h }"

definition lcdInit :: "'h mmio \<Rightarrow> 'h \<Rightarrow> 'h" where
  "lcdInit M h =
     (let h = lcdResetPin M True (lcdResetPin M False (lcdCS M False (lcdClk M False h)))
      in fold (\<lambda>(b, c). writeByte M b c)
           [(0x11, True), (0x20, True), (0x3A, True), (0x03, False), (0x36, True), (0x10, False),
            (0x25, True), (56, False), (0x29, True)] h)"

text \<open>Two pixels of twelve bits are three bytes. An odd number of pixels would never reach zero.\<close>

definition pixel_pair :: "u16 \<Rightarrow> u16 \<Rightarrow> u8 list" where
  "pixel_pair colourA colourB =
     [ucast (0xff AND drop_bit 4 colourA), ucast (push_bit 4 (colourA AND 0xf) OR (0x0f AND drop_bit 8 colourB)),
      ucast (colourB AND 0xff)]"

partial_function (option) pixel_pairs ::
    "'h mmio \<Rightarrow> flash \<Rightarrow> u16 \<Rightarrow> u16 \<Rightarrow> u8 \<Rightarrow> u8 \<Rightarrow> u8 \<Rightarrow> u16 \<Rightarrow> 'h \<Rightarrow> 'h option" where
  "pixel_pairs M pgm fg bg bitCount bytePos currentByte bits h =
     (if bitCount = 0 then Some h
      else
        let colourA = (if currentByte AND 128 \<noteq> 0 then fg else bg);
            colourB = (if currentByte AND 64 \<noteq> 0 then fg else bg)
        in do {
          h \<leftarrow> fastDatas M (pixel_pair colourA colourB) h;
          if bytePos - 2 = 0 then pixel_pairs M pgm fg bg (bitCount - 2) 8 (pgm bits) (bits + 1) h
          else pixel_pairs M pgm fg bg (bitCount - 2) (bytePos - 2) (push_bit 2 currentByte) bits h
        })"

definition drawChar :: "'h mmio \<Rightarrow> flash \<Rightarrow> u8 \<Rightarrow> u8 \<Rightarrow> u8 \<Rightarrow> bitfont \<Rightarrow> u16 \<Rightarrow> u16 \<Rightarrow> 'h \<Rightarrow> 'h option" where
  "drawChar M pgm x y character font fg bg h =
     (let bits = glyph_address font character; bitCount = bf_width font * bf_height font
      in do {
        h \<leftarrow> fastDatas M [x, x + bf_width font - 1] (writeByte M 0x2A True h);
        h \<leftarrow> fastDatas M [y, y + bf_height font - 1] (writeByte M 0x2B True h);
        let h = writeByte M 0x2C True h;
        pixel_pairs M pgm fg bg bitCount 8 (pgm bits) (bits + 1) h
      })"

fun drawString :: "'h mmio \<Rightarrow> flash \<Rightarrow> u8 \<Rightarrow> u8 \<Rightarrow> u8 list \<Rightarrow> bitfont \<Rightarrow> u16 \<Rightarrow> u16 \<Rightarrow> 'h \<Rightarrow> 'h option" where
  "drawString M pgm x y [] font fg bg h = None"
| "drawString M pgm x y (character # str) font fg bg h =
     (if character = 0 then Some h
      else do {
        h \<leftarrow> drawChar M pgm x y character font fg bg h;
        drawString M pgm (x + bf_width font) y str font fg bg h
      })"

definition clearScreen :: "'h mmio \<Rightarrow> 'h \<Rightarrow> 'h option" where
  "clearScreen M h =
     (let h = fold (\<lambda>(b, c). writeByte M b c)
                [(0x2B, True), (0, False), (131, False), (0x2A, True), (0, False), (131, False), (0x2C, True)] h
      in fastDatas M (concat (replicate 132 (concat (replicate (132 div 2) [0, 0, 0])))) h)"

section \<open>The ring of lines\<close>

definition TERMINAL_BUFFER_HEIGHT :: nat where "TERMINAL_BUFFER_HEIGHT = 17"

definition TERMINAL_BUFFER_WIDTH :: nat where "TERMINAL_BUFFER_WIDTH = 22"

record terminal =
  terminalBuffer :: "u8 list list"
  terminalTail :: u8
  terminalHead :: u8
  terminalHeadXPos :: u8

text \<open>A write to the two-dimensional array; \<open>None\<close> is a write outside of it.\<close>

definition put_cell :: "u8 \<Rightarrow> nat \<Rightarrow> u8 \<Rightarrow> u8 list list \<Rightarrow> u8 list list option" where
  "put_cell r c v buf =
     (if unat r < length buf \<and> c < length (buf ! unat r) then Some (buf[unat r := (buf ! unat r)[c := v]]) else None)"

definition terminal_newline :: "terminal \<Rightarrow> terminal" where
  "terminal_newline t =
     (let t = t\<lparr>terminalHead := terminalHead t + 1, terminalHeadXPos := 0\<rparr>;
          t = (if of_nat TERMINAL_BUFFER_HEIGHT \<le> terminalHead t then t\<lparr>terminalHead := 0\<rparr> else t)
      in if terminalHead t = terminalTail t
         then (let t = t\<lparr>terminalTail := terminalTail t + 1\<rparr>
               in if of_nat TERMINAL_BUFFER_HEIGHT \<le> terminalTail t then t\<lparr>terminalTail := 0\<rparr> else t)
         else t)"

definition terminal_receive :: "u8 \<Rightarrow> terminal \<Rightarrow> terminal option" where
  "terminal_receive buf t =
     do {
       t \<leftarrow> (if unat (terminalHeadXPos t) < TERMINAL_BUFFER_WIDTH - 1
             then do {
               b \<leftarrow> put_cell (terminalHead t) (unat (terminalHeadXPos t) + 1) 10 (terminalBuffer t);
               Some (t\<lparr>terminalBuffer := b\<rparr>)
             } else Some t);
       t \<leftarrow> (if unat (terminalHeadXPos t) < TERMINAL_BUFFER_WIDTH
             then do {
               b \<leftarrow> put_cell (terminalHead t) (unat (terminalHeadXPos t)) buf (terminalBuffer t);
               Some (t\<lparr>terminalBuffer := b, terminalHeadXPos := terminalHeadXPos t + 1\<rparr>)
             } else Some t);
       Some (if buf = 10 then terminal_newline t else t)
     }"

definition terminal_interrupt :: "'h mmio \<Rightarrow> terminal \<times> 'h \<Rightarrow> (terminal \<times> 'h) option" where
  "terminal_interrupt M s =
     do {
       (buf, h) \<leftarrow> async_serial_1_read_byte M (snd s);
       t \<leftarrow> terminal_receive buf (fst s);
       Some (t, h)
     }"

section \<open>Drawing the lines\<close>

text \<open>
  The pointer to a line runs through the memory of the buffer; \<open>None\<close> is a read behind its end. The
  function to draw a character is an argument.
\<close>

definition get_at :: "u8 list \<Rightarrow> nat \<Rightarrow> u8 option" where
  "get_at mem p = (if p < length mem then Some (mem ! p) else None)"

function line_text ::
    "(u8 \<Rightarrow> u8 \<Rightarrow> u8 \<Rightarrow> 'h \<Rightarrow> 'h option) \<Rightarrow> u8 list \<Rightarrow> u8 \<Rightarrow> nat \<Rightarrow> nat \<Rightarrow> u8 \<Rightarrow> 'h \<Rightarrow> (nat \<times> 'h) option" where
  "line_text draw mem lineNumber p x buf h =
     (if x < TERMINAL_BUFFER_WIDTH \<and> buf \<noteq> 10
      then do {
        h \<leftarrow> draw (of_nat x * 6) (lineNumber * 8) buf h;
        buf \<leftarrow> get_at mem (p + 1);
        line_text draw mem lineNumber (p + 1) (x + 1) buf h
      }
      else Some (x, h))"
  by pat_completeness auto
termination
  by (relation "measure (\<lambda>(draw, mem, n, p, x, buf, h). TERMINAL_BUFFER_WIDTH - x)") auto

fun line_blank :: "(u8 \<Rightarrow> u8 \<Rightarrow> u8 \<Rightarrow> 'h \<Rightarrow> 'h option) \<Rightarrow> u8 \<Rightarrow> nat \<Rightarrow> nat \<Rightarrow> 'h \<Rightarrow> 'h option" where
  "line_blank draw lineNumber x 0 h = Some h"
| "line_blank draw lineNumber x (Suc n) h =
     do { h \<leftarrow> draw (of_nat x * 6) (lineNumber * 8) 32 h; line_blank draw lineNumber (x + 1) n h }"

definition updateLine :: "(u8 \<Rightarrow> u8 \<Rightarrow> u8 \<Rightarrow> 'h \<Rightarrow> 'h option) \<Rightarrow> u8 list \<Rightarrow> nat \<Rightarrow> u8 \<Rightarrow> 'h \<Rightarrow> 'h option" where
  "updateLine draw mem lineData lineNumber h =
     do {
       buf \<leftarrow> get_at mem lineData;
       (x, h) \<leftarrow> line_text draw mem lineNumber lineData 0 buf h;
       line_blank draw lineNumber x (TERMINAL_BUFFER_WIDTH - x) h
     }"

text \<open>One line of the main loop, and the part of the program before the loop.\<close>

definition terminal_row :: "terminal \<Rightarrow> nat \<Rightarrow> nat" where
  "terminal_row t y = (unat (terminalTail t) + y) mod TERMINAL_BUFFER_HEIGHT"

definition terminal_refresh :: "'h mmio \<Rightarrow> flash \<Rightarrow> bitfont \<Rightarrow> terminal \<Rightarrow> nat \<Rightarrow> 'h \<Rightarrow> 'h option" where
  "terminal_refresh M pgm bitfont_6x8 t y h =
     do {
       h \<leftarrow> updateLine (\<lambda>x y c. drawChar M pgm x y c bitfont_6x8 0x0fff 0) (concat (terminalBuffer t))
              (terminal_row t y * TERMINAL_BUFFER_WIDTH) (of_nat y) h;
       Some (led_red_toggle M h)
     }"

definition terminal_clear :: "terminal \<Rightarrow> terminal" where
  "terminal_clear t = t\<lparr>terminalBuffer := map (\<lambda>row. row[0 := 10]) (terminalBuffer t)\<rparr>"

definition terminal_start :: "'h mmio \<Rightarrow> terminal \<Rightarrow> 'h \<Rightarrow> (terminal \<times> 'h) option" where
  "terminal_start M t h =
     do {
       let h = clock_prescale_none M (minimus32_init M (watchdog_disable M h));
       let h = lcdInit M (initPorts M h);
       let h = async_serial_1_rx_interrupt M 1 (async_serial_1_init M SERIAL_SPEED_115200 h);
       h \<leftarrow> clearScreen M h;
       Some (terminal_clear t, h)
     }"

section \<open>What the terminal holds\<close>

text \<open>
  The abstract terminal has completed lines, of which the last sixteen are kept, and a current one,
  which takes 22 characters and ignores more.
\<close>

definition terminal_spec :: "u8 \<Rightarrow> u8 list list \<times> u8 list \<Rightarrow> u8 list list \<times> u8 list" where
  "terminal_spec b = (\<lambda>(cs, cur).
     if b = 10 then (drop (length cs - 15) (cs @ [cur]), [])
     else (cs, if length cur < 22 then cur @ [b] else cur))"

definition line_of :: "u8 list \<Rightarrow> u8 list" where
  "line_of row = takeWhile (\<lambda>c. c \<noteq> 10) row"

text \<open>The rows of the ring that the completed lines occupy, and the rows that were never used.\<close>

definition ring_ok :: "terminal \<Rightarrow> u8 list list \<Rightarrow> u8 list \<Rightarrow> bool" where
  "ring_ok t cs cur \<longleftrightarrow>
     length (terminalBuffer t) = 17 \<and> (\<forall>r < 17. length (terminalBuffer t ! r) = 22) \<and>
     unat (terminalTail t) < 17 \<and> length cs \<le> 16 \<and> length cur \<le> 22 \<and>
     unat (terminalHead t) = (unat (terminalTail t) + length cs) mod 17 \<and> unat (terminalHeadXPos t) = length cur"

definition lines_ok :: "terminal \<Rightarrow> u8 list list \<Rightarrow> bool" where
  "lines_ok t cs \<longleftrightarrow> (\<forall>i < length cs. line_of (terminalBuffer t ! ((unat (terminalTail t) + i) mod 17)) = cs ! i)"

definition current_ok :: "terminal \<Rightarrow> u8 list list \<Rightarrow> u8 list \<Rightarrow> bool" where
  "current_ok t cs cur \<longleftrightarrow>
     10 \<notin> set cur \<and> take (length cur) (terminalBuffer t ! unat (terminalHead t)) = cur \<and>
     (length cur < 22 \<and> (cur \<noteq> [] \<or> length cs < 16) \<longrightarrow> terminalBuffer t ! unat (terminalHead t) ! length cur = 10)"

definition fresh_ok :: "terminal \<Rightarrow> u8 list list \<Rightarrow> bool" where
  "fresh_ok t cs \<longleftrightarrow> length cs < 16 \<longrightarrow>
     terminalTail t = 0 \<and> (\<forall>r. length cs < r \<and> r < 17 \<longrightarrow> terminalBuffer t ! r ! 0 = 10)"

definition represents :: "terminal \<Rightarrow> u8 list list \<times> u8 list \<Rightarrow> bool" where
  "represents t a \<longleftrightarrow> ring_ok t (fst a) (snd a) \<and> lines_ok t (fst a) \<and> current_ok t (fst a) (snd a) \<and> fresh_ok t (fst a)"

lemma line_of_row:
  assumes "take n row = cur" "10 \<notin> set cur" "length cur = n" "n < length row \<Longrightarrow> row ! n = 10" "n \<le> length row"
  shows "line_of row = cur"
proof (cases "n < length row")
  case True
  have "row = cur @ row ! n # drop (Suc n) row" using id_take_nth_drop [OF True] assms(1) by simp
  then have "line_of row = line_of (cur @ 10 # drop (Suc n) row)" using assms(4) [OF True] by simp
  also have "\<dots> = cur" unfolding line_of_def using assms(2) by (subst takeWhile_append2) auto
  finally show ?thesis .
next
  case False
  then have "row = cur" using assms(1,5) by simp
  then show ?thesis using assms(2) by (auto simp: line_of_def takeWhile_eq_all_conv)
qed

text \<open>A byte is stored behind the current line.\<close>

definition stored :: "u8 \<Rightarrow> nat \<Rightarrow> u8 list \<Rightarrow> u8 list" where
  "stored b n row = (if n < 22 then (if n < 21 then row[Suc n := 10] else row)[n := b] else row)"

lemma stored_row:
  assumes "length row = 22" "take n row = cur" "length cur = n" "n < 22"
  shows "take (Suc n) (stored b n row) = cur @ [b]" "Suc n < 22 \<Longrightarrow> stored b n row ! Suc n = 10" "stored b n row ! n = b"
    "take n (stored b n row) = cur"
proof -
  show "take n (stored b n row) = cur" using assms by (simp add: stored_def)
  moreover show b: "stored b n row ! n = b" using assms by (simp add: stored_def)
  ultimately show "take (Suc n) (stored b n row) = cur @ [b]" using assms by (simp add: take_Suc_conv_app_nth stored_def)
  show "Suc n < 22 \<Longrightarrow> stored b n row ! Suc n = 10" using assms by (simp add: stored_def)
qed

lemma length_stored [simp]: "length (stored b n row) = length row"
  by (simp add: stored_def)

lemma receive_eq:
  assumes "ring_ok t cs cur"
  defines "r \<equiv> unat (terminalHead t)" and "x \<equiv> length cur"
  shows "terminal_receive b t =
    (let t1 = t\<lparr>terminalBuffer := (terminalBuffer t)[r := stored b x (terminalBuffer t ! r)],
                terminalHeadXPos := (if x < 22 then terminalHeadXPos t + 1 else terminalHeadXPos t)\<rparr>
     in Some (if b = 10 then terminal_newline t1 else t1))"
proof -
  have r: "r < 17" "length (terminalBuffer t) = 17" "length (terminalBuffer t ! r) = 22" "unat (terminalHeadXPos t) = x" "x \<le> 22"
    using assms by (simp_all add: ring_ok_def)
  show ?thesis
    unfolding terminal_receive_def put_cell_def TERMINAL_BUFFER_WIDTH_def r_def [symmetric]
    using r by (cases "x < 21"; cases "x < 22") (simp_all add: stored_def r_def [symmetric])
qed

lemma wrap_index:
  assumes "unat (w :: u8) < 17"
  shows "unat (if 17 \<le> w + 1 then 0 else w + 1) = Suc (unat w) mod 17"
proof -
  have "unat (w + 1) = Suc (unat w)" using assms by (simp add: unat_plus_u8)
  then have "17 \<le> w + 1 \<longleftrightarrow> unat w = 16" using assms by (simp add: word_le_nat_alt) linarith
  then show ?thesis using assms \<open>unat (w + 1) = Suc (unat w)\<close> by auto
qed

lemma newline_eq:
  assumes "unat (terminalHead t) < 17" "unat (terminalTail t) < 17"
  shows "\<exists>hd tl. terminal_newline t = t\<lparr>terminalHead := hd, terminalTail := tl, terminalHeadXPos := 0\<rparr> \<and>
    unat hd = Suc (unat (terminalHead t)) mod 17 \<and>
    unat tl = (if Suc (unat (terminalHead t)) mod 17 = unat (terminalTail t) then Suc (unat (terminalTail t)) mod 17 else unat (terminalTail t))"
proof -
  define hd where "hd = (if 17 \<le> terminalHead t + 1 then 0 else terminalHead t + 1)"
  define tl where "tl = (if hd = terminalTail t then (if 17 \<le> terminalTail t + 1 then 0 else terminalTail t + 1) else terminalTail t)"
  have "terminal_newline t = t\<lparr>terminalHead := hd, terminalTail := tl, terminalHeadXPos := 0\<rparr>"
    by (simp add: terminal_newline_def TERMINAL_BUFFER_HEIGHT_def Let_def hd_def tl_def)
  moreover have "unat hd = Suc (unat (terminalHead t)) mod 17" unfolding hd_def by (rule wrap_index [OF assms(1)])
  moreover have "unat tl = (if Suc (unat (terminalHead t)) mod 17 = unat (terminalTail t) then Suc (unat (terminalTail t)) mod 17 else unat (terminalTail t))"
    using wrap_index [OF assms(2)] calculation(2) by (simp add: tl_def word_unat_eq_iff)
  ultimately show ?thesis by blast
qed

lemma ring_distinct:
  fixes a :: nat
  assumes "i < j" "j < 17"
  shows "(a + i) mod 17 \<noteq> (a + j) mod 17"
proof
  assume "(a + i) mod 17 = (a + j) mod 17"
  then have "17 dvd (a + j) - (a + i)" using assms(1) by (metis add_le_cancel_left less_imp_le mod_eq_dvd_iff_nat)
  then have "17 \<le> j - i" using assms(1) by (simp add: dvd_imp_le)
  then show False using assms(2) by simp
qed

text \<open>The state after the byte is stored, before a new line is begun.\<close>

definition store_byte :: "u8 \<Rightarrow> nat \<Rightarrow> terminal \<Rightarrow> terminal" where
  "store_byte b x t = t\<lparr>terminalBuffer := (terminalBuffer t)[unat (terminalHead t) := stored b x (terminalBuffer t ! unat (terminalHead t))],
     terminalHeadXPos := (if x < 22 then terminalHeadXPos t + 1 else terminalHeadXPos t)\<rparr>"

lemma store_byte_simps [simp]:
  "terminalTail (store_byte b x t) = terminalTail t" "terminalHead (store_byte b x t) = terminalHead t"
  "length (terminalBuffer (store_byte b x t)) = length (terminalBuffer t)"
  by (simp_all add: store_byte_def)

lemma receive_store:
  assumes "ring_ok t cs cur"
  shows "terminal_receive b t = Some (if b = 10 then terminal_newline (store_byte b (length cur) t) else store_byte b (length cur) t)"
  unfolding receive_eq [OF assms] store_byte_def by (simp add: Let_def)

lemma store_byte_rows:
  assumes "ring_ok t cs cur"
  shows "terminalBuffer (store_byte b x t) ! unat (terminalHead t) = stored b x (terminalBuffer t ! unat (terminalHead t))"
    "r \<noteq> unat (terminalHead t) \<Longrightarrow> terminalBuffer (store_byte b x t) ! r = terminalBuffer t ! r"
    "r < 17 \<Longrightarrow> length (terminalBuffer (store_byte b x t) ! r) = 22"
  using assms by (auto simp: store_byte_def ring_ok_def nth_list_update)

lemma store_byte_keeps:
  assumes ring: "ring_ok t cs cur" and "lines_ok t cs" "fresh_ok t cs"
  shows "lines_ok (store_byte b x t) cs" "fresh_ok (store_byte b x t) cs"
proof -
  have "(unat (terminalTail t) + i) mod 17 \<noteq> unat (terminalHead t)" if "i < length cs" for i
    using ring_distinct [OF that, of "unat (terminalTail t)"] ring by (simp add: ring_ok_def)
  then show "lines_ok (store_byte b x t) cs" using assms(2) store_byte_rows(2) [OF ring] by (simp add: lines_ok_def)
  have "r \<noteq> unat (terminalHead t)" if "length cs < 16" "length cs < r" for r
    using ring assms(3) that by (simp add: ring_ok_def fresh_ok_def)
  then show "fresh_ok (store_byte b x t) cs" using assms(3) store_byte_rows(2) [OF ring] by (simp add: fresh_ok_def)
qed

lemma represents_char:
  assumes "represents t (cs, cur)" "b \<noteq> 10"
  shows "\<exists>t'. terminal_receive b t = Some t' \<and> represents t' (terminal_spec b (cs, cur))"
proof -
  have ring: "ring_ok t cs cur" and cur: "current_ok t cs cur" and rest: "lines_ok t cs" "fresh_ok t cs"
    using assms(1) by (simp_all add: represents_def)
  define x where "x = length cur"
  define row where "row = terminalBuffer t ! unat (terminalHead t)"
  have rx: "length row = 22" "unat (terminalHeadXPos t) = x" "x \<le> 22" "take x row = cur" "10 \<notin> set cur"
    using ring cur by (simp_all add: ring_ok_def current_ok_def x_def row_def)
  have "represents (store_byte b x t) (cs, if x < 22 then cur @ [b] else cur)"
  proof (cases "x < 22")
    case True
    have "unat (terminalHeadXPos t + 1) = Suc x" using rx True by (simp add: unat_plus_u8)
    then have "ring_ok (store_byte b x t) cs (cur @ [b])"
      using ring True store_byte_rows(3) [OF ring] by (simp add: ring_ok_def x_def) (simp add: store_byte_def)
    moreover have "current_ok (store_byte b x t) cs (cur @ [b])"
      using stored_row [OF rx(1,4) x_def [symmetric] True, of b] rx(5) assms(2)
      by (simp add: current_ok_def store_byte_rows(1) [OF ring] row_def [symmetric] x_def)
    ultimately show ?thesis using store_byte_keeps [OF ring rest] True by (simp add: represents_def)
  next
    case False
    then have "store_byte b x t = t" by (simp add: store_byte_def stored_def)
    then show ?thesis using assms(1) False by simp
  qed
  then show ?thesis using assms(2) by (simp add: receive_store [OF ring] terminal_spec_def x_def)
qed

lemma stored_newline:
  assumes "represents t (cs, cur)"
  shows "line_of (terminalBuffer (store_byte 10 (length cur) t) ! unat (terminalHead t)) = cur"
proof -
  define row where "row = terminalBuffer t ! unat (terminalHead t)"
  have ring: "ring_ok t cs cur" and cur: "current_ok t cs cur" using assms by (simp_all add: represents_def)
  have r0: "length row = 22" "length cur \<le> 22" "take (length cur) row = cur" "10 \<notin> set cur"
    using ring cur by (simp_all add: ring_ok_def current_ok_def row_def)
  have "line_of (stored 10 (length cur) row) = cur"
  proof (rule line_of_row [where n = "length cur"])
    show "take (length cur) (stored 10 (length cur) row) = cur"
      using stored_row(4) [OF r0(1,3) refl] r0 by (cases "length cur < 22") (simp_all add: stored_def)
    show "length cur < length (stored 10 (length cur) row) \<Longrightarrow> stored 10 (length cur) row ! length cur = 10"
      using stored_row(3) [OF r0(1,3) refl] r0(1) by simp
  qed (use r0 in simp_all)
  then show ?thesis by (simp add: store_byte_rows(1) [OF ring] row_def)
qed

lemma stored_lines:
  assumes "represents t (cs, cur)" "i \<le> length cs"
  shows "line_of (terminalBuffer (store_byte 10 (length cur) t) ! ((unat (terminalTail t) + i) mod 17)) = (cs @ [cur]) ! i"
proof -
  have ring: "ring_ok t cs cur" and rest: "lines_ok t cs" "fresh_ok t cs" using assms by (simp_all add: represents_def)
  have "lines_ok (store_byte 10 (length cur) t) cs" by (rule store_byte_keeps [OF ring rest])
  moreover have "unat (terminalHead t) = (unat (terminalTail t) + length cs) mod 17" using ring by (simp add: ring_ok_def)
  ultimately show ?thesis using stored_newline [OF assms(1)] assms(2)
    by (cases "i = length cs") (simp_all add: lines_ok_def nth_append)
qed

lemma represents_newline:
  assumes "represents t (cs, cur)"
  shows "\<exists>t'. terminal_receive 10 t = Some t' \<and> represents t' (terminal_spec 10 (cs, cur))"
proof -
  have ring: "ring_ok t cs cur" and rest: "lines_ok t cs" "fresh_ok t cs" using assms(1) by (simp_all add: represents_def)
  define a where "a = unat (terminalTail t)"
  define t1 where "t1 = store_byte 10 (length cur) t"
  have a: "a < 17" "length cs \<le> 16" "unat (terminalHead t) = (a + length cs) mod 17" using ring by (simp_all add: ring_ok_def a_def)
  obtain hd tl where nl: "terminal_newline t1 = t1\<lparr>terminalHead := hd, terminalTail := tl, terminalHeadXPos := 0\<rparr>"
    and hd: "unat hd = Suc ((a + length cs) mod 17) mod 17"
    and tl: "unat tl = (if Suc ((a + length cs) mod 17) mod 17 = a then Suc a mod 17 else a)"
    using newline_eq [of t1] a by (auto simp: t1_def a_def)
  have fresh: "fresh_ok t1 cs" unfolding t1_def by (rule store_byte_keeps [OF ring rest])
  have size: "length (terminalBuffer t1) = 17" "\<forall>r < 17. length (terminalBuffer t1 ! r) = 22"
    using ring store_byte_rows(3) [OF ring] by (simp_all add: t1_def ring_ok_def)
  have lines: "line_of (terminalBuffer t1 ! ((a + i) mod 17)) = (cs @ [cur]) ! i" if "i \<le> length cs" for i
    unfolding t1_def a_def by (rule stored_lines [OF assms that])
  have "represents (terminal_newline t1) (terminal_spec 10 (cs, cur))"
  proof (cases "length cs < 16")
    case True
    then have z: "a = 0" using rest by (simp add: fresh_ok_def a_def)
    have sp: "terminal_spec 10 (cs, cur) = (cs @ [cur], [])" using True by (simp add: terminal_spec_def)
    have u: "unat hd = Suc (length cs)" "unat tl = 0" using hd tl True z by simp_all
    then have "tl = 0" by (simp add: word_unat_eq_iff)
    have "ring_ok (terminal_newline t1) (cs @ [cur]) []" using size u True by (simp add: ring_ok_def nl)
    moreover have "lines_ok (terminal_newline t1) (cs @ [cur])" using lines u z by (simp add: lines_ok_def nl less_Suc_eq_le)
    moreover have "current_ok (terminal_newline t1) (cs @ [cur]) []" "fresh_ok (terminal_newline t1) (cs @ [cur])"
      using fresh True u \<open>tl = 0\<close> by (simp_all add: current_ok_def fresh_ok_def nl)
    ultimately show ?thesis by (simp add: represents_def sp)
  next
    case False
    then have n: "length cs = 16" using a by simp
    have sp: "terminal_spec 10 (cs, cur) = (drop 1 (cs @ [cur]), [])" by (simp add: terminal_spec_def n)
    have "Suc ((a + 16) mod 17) mod 17 = a" using a(1) by (simp add: mod_Suc_eq)
    then have u: "unat hd = a" "unat tl = Suc a mod 17" using hd tl n by simp_all
    have shift: "(Suc a mod 17 + i) mod 17 = (a + Suc i) mod 17" for i by (simp add: mod_add_left_eq)
    have "ring_ok (terminal_newline t1) (drop 1 (cs @ [cur])) []" using size u n a(1) shift [of 16] by (simp add: ring_ok_def nl)
    moreover have "line_of (terminalBuffer t1 ! ((unat tl + i) mod 17)) = drop 1 (cs @ [cur]) ! i" if "i < 16" for i
    proof -
      have "drop 1 (cs @ [cur]) ! i = (cs @ [cur]) ! Suc i" using n by (subst nth_drop) simp_all
      then show ?thesis unfolding u(2) shift using lines [of "Suc i"] n that by (simp only: Suc_le_eq)
    qed
    then have "lines_ok (terminal_newline t1) (drop 1 (cs @ [cur]))" by (simp add: lines_ok_def nl n del: drop_append)
    moreover have "current_ok (terminal_newline t1) (drop 1 (cs @ [cur])) []" "fresh_ok (terminal_newline t1) (drop 1 (cs @ [cur]))"
      by (simp_all add: current_ok_def fresh_ok_def n)
    ultimately show ?thesis by (simp add: represents_def sp)
  qed
  then show ?thesis by (simp add: receive_store [OF ring] t1_def)
qed

lemma represents_receive:
  assumes "represents t a"
  shows "\<exists>t'. terminal_receive b t = Some t' \<and> represents t' (terminal_spec b a)"
  using represents_char [of t "fst a" "snd a" b] represents_newline [of t "fst a" "snd a"] assms by (cases "b = 10") auto

fun receive_all :: "u8 list \<Rightarrow> terminal \<Rightarrow> terminal option" where
  "receive_all [] t = Some t"
| "receive_all (b # bs) t = do { t \<leftarrow> terminal_receive b t; receive_all bs t }"

definition terminal_reset :: terminal where
  "terminal_reset = \<lparr>terminalBuffer = replicate 17 (replicate 22 0), terminalTail = 0, terminalHead = 0, terminalHeadXPos = 0\<rparr>"

lemma represents_start: "represents (terminal_clear terminal_reset) ([], [])"
  by (simp add: represents_def ring_ok_def lines_ok_def current_ok_def fresh_ok_def terminal_clear_def terminal_reset_def)

lemma represents_all:
  assumes "represents t a"
  shows "\<exists>t'. receive_all bs t = Some t' \<and> represents t' (fold terminal_spec bs a)"
  using assms
proof (induction bs arbitrary: t a)
  case (Cons b bs)
  obtain t1 where "terminal_receive b t = Some t1" "represents t1 (terminal_spec b a)" using represents_receive [OF Cons.prems] by blast
  then show ?case using Cons.IH [of t1] by simp
qed simp

section \<open>What the terminal shows\<close>

definition screen_line :: "u8 list list \<times> u8 list \<Rightarrow> nat \<Rightarrow> u8 list" where
  "screen_line a y = (if y < length (fst a) then fst a ! y else if y = length (fst a) then snd a else [])"

lemma represents_row:
  assumes "represents t a" "y < 16"
  shows "line_of (terminalBuffer t ! terminal_row t y) = screen_line a y"
proof -
  obtain cs cur where a: "a = (cs, cur)" by (rule prod.exhaust)
  have ring: "ring_ok t cs cur" and rest: "lines_ok t cs" "current_ok t cs cur" "fresh_ok t cs"
    using assms(1) by (simp_all add: represents_def a)
  have row: "terminal_row t y = (unat (terminalTail t) + y) mod 17" by (simp add: terminal_row_def TERMINAL_BUFFER_HEIGHT_def)
  consider "y < length cs" | "y = length cs" | "length cs < y" by linarith
  then show ?thesis
  proof cases
    case 1
    then show ?thesis using rest(1) by (simp add: row a screen_line_def lines_ok_def)
  next
    case 2
    have "terminal_row t y = unat (terminalHead t)" unfolding row using ring 2 by (simp add: ring_ok_def)
    moreover have l: "length (terminalBuffer t ! unat (terminalHead t)) = 22" using ring by (simp add: ring_ok_def)
    moreover have "line_of (terminalBuffer t ! unat (terminalHead t)) = cur"
      by (rule line_of_row [where n = "length cur"]) (use rest(2) ring 2 assms(2) l in \<open>auto simp: current_ok_def ring_ok_def\<close>)
    ultimately show ?thesis using 2 by (simp add: a screen_line_def)
  next
    case 3
    then have "terminalBuffer t ! y ! 0 = 10" "terminal_row t y = y" "length (terminalBuffer t ! y) = 22"
      using rest(3) assms(2) ring by (simp_all add: fresh_ok_def row ring_ok_def)
    then show ?thesis using 3 by (cases "terminalBuffer t ! y") (simp_all add: a screen_line_def line_of_def)
  qed
qed

text \<open>The cells of a line: its characters and blanks up to the width.\<close>

fun draw_cells :: "(u8 \<Rightarrow> u8 \<Rightarrow> u8 \<Rightarrow> 'h \<Rightarrow> 'h option) \<Rightarrow> u8 \<Rightarrow> nat \<Rightarrow> u8 list \<Rightarrow> 'h \<Rightarrow> 'h option" where
  "draw_cells draw y x [] h = Some h"
| "draw_cells draw y x (c # cs) h = do { h \<leftarrow> draw (of_nat x * 6) (y * 8) c h; draw_cells draw y (Suc x) cs h }"

lemma draw_cells_append:
  "draw_cells draw y x (cs @ ds) h = do { h \<leftarrow> draw_cells draw y x cs h; draw_cells draw y (x + length cs) ds h }"
  by (induction cs arbitrary: x h) (simp_all split: Option.bind_split)

lemma line_blank_cells: "line_blank draw y x n h = draw_cells draw y x (replicate n 32) h"
  by (induction n arbitrary: x h) (simp_all split: Option.bind_split)

declare line_text.simps [simp del]

lemma line_text_cells:
  assumes "10 \<notin> set cs" "x + length cs \<le> 22" "get_at mem p = Some c" "x + length cs = 22 \<or> d = 10"
    "\<And>i. i < length cs \<Longrightarrow> get_at mem (p + i) = Some (cs ! i)" "get_at mem (p + length cs) = Some d"
  shows "line_text draw mem y p x c h = do { h \<leftarrow> draw_cells draw y x cs h; Some (x + length cs, h) }"
  using assms
proof (induction cs arbitrary: x p c h)
  case Nil
  then show ?case by (subst line_text.simps) (auto simp: TERMINAL_BUFFER_WIDTH_def)
next
  case (Cons b cs)
  have c: "c = b" using Cons.prems(3) Cons.prems(5) [of 0] by simp
  have nx: "get_at mem (p + 1) = Some (if cs = [] then d else hd cs)"
    using Cons.prems(5) [of 1] Cons.prems(6) by (cases cs) simp_all
  have "line_text draw mem y (p + 1) (x + 1) (if cs = [] then d else hd cs) h' =
    do { h \<leftarrow> draw_cells draw y (x + 1) cs h'; Some (x + 1 + length cs, h) }" for h'
  proof (rule Cons.IH)
    show "get_at mem (p + 1 + i) = Some (cs ! i)" if "i < length cs" for i using Cons.prems(5) [of "Suc i"] that by simp
  qed (use Cons.prems nx in auto)
  then show ?case using Cons.prems nx by (subst line_text.simps) (simp add: c TERMINAL_BUFFER_WIDTH_def bind_assoc)
qed

lemma get_at_concat:
  "\<lbrakk>\<forall>row \<in> set buf. length row = n; r < length buf; i < n\<rbrakk> \<Longrightarrow> get_at (concat buf) (r * n + i) = Some (buf ! r ! i)"
proof (induction buf arbitrary: r)
  case (Cons row buf)
  show ?case
  proof (cases r)
    case 0
    then show ?thesis using Cons.prems by (simp add: get_at_def nth_append)
  next
    case (Suc q)
    then show ?thesis using Cons.IH [of q] Cons.prems by (simp add: get_at_def nth_append add.assoc split: if_splits)
  qed
qed simp

lemma updateLine_cells:
  assumes buf: "length buf = 17" "\<forall>row \<in> set buf. length row = 22" and r: "r < 17"
    and cs: "cs = line_of (buf ! r)" and readable: "r < 16 \<or> length cs < 22"
  shows "updateLine draw (concat buf) (r * 22) y h = draw_cells draw y 0 (cs @ replicate (22 - length cs) 32) h"
proof -
  define row where "row = buf ! r"
  have row: "length row = 22" using buf r by (simp add: row_def)
  have at: "get_at (concat buf) (r * 22 + i) = Some (row ! i)" if "i < 22" for i
    unfolding row_def using get_at_concat [OF buf(2), of r i] that r buf(1) by simp
  have len: "length cs \<le> 22" unfolding cs line_of_def row_def [symmetric] using length_takeWhile_le [of _ row] row by metis
  have nth: "cs ! i = row ! i" if "i < length cs" for i
    using that unfolding cs line_of_def row_def [symmetric] by (rule takeWhile_nth)
  have stop: "row ! length cs = 10" if "length cs < 22"
    using nth_length_takeWhile [of "\<lambda>c. c \<noteq> 10" row] that row unfolding cs line_of_def row_def [symmetric] by simp
  have no: "10 \<notin> set cs" unfolding cs line_of_def by (auto dest: set_takeWhileD)
  obtain d where d: "get_at (concat buf) (r * 22 + length cs) = Some d" "0 + length cs = 22 \<or> d = 10"
  proof (cases "length cs < 22")
    case True
    then show ?thesis using that at stop by blast
  next
    case False
    then have "length cs = 22" "r < 16" using len readable by auto
    then show ?thesis using that get_at_concat [OF buf(2), of "Suc r" 0] buf(1) by (simp add: add.commute)
  qed
  have g0: "get_at (concat buf) (r * 22) = Some (row ! 0)" using at [of 0] by simp
  have "line_text draw (concat buf) y (r * 22) 0 (row ! 0) h = do { h \<leftarrow> draw_cells draw y 0 cs h; Some (0 + length cs, h) }"
    by (rule line_text_cells [OF no _ g0 d(2) _ d(1)]) (use at len nth in auto)
  then show ?thesis
    by (simp add: updateLine_def g0 draw_cells_append line_blank_cells TERMINAL_BUFFER_WIDTH_def split: Option.bind_split)
qed

text \<open>A full line in the last row of the buffer is read one byte behind the end of the buffer.\<close>

lemma line_text_overread:
  assumes "x + n = 22" "0 < n" "c \<noteq> 10" "\<And>i. \<lbrakk>0 < i; i < n\<rbrakk> \<Longrightarrow> \<exists>b. get_at mem (p + i) = Some b \<and> b \<noteq> 10" "get_at mem (p + n) = None"
  shows "line_text draw mem y p x c h = None"
  using assms
proof (induction n arbitrary: x p c h)
  case (Suc n)
  have "Option.bind (get_at mem (p + 1)) (\<lambda>b. line_text draw mem y (p + 1) (x + 1) b h') = None" for h'
  proof (cases "n = 0")
    case True
    then show ?thesis using Suc.prems(5) by simp
  next
    case False
    then obtain b where b: "get_at mem (p + 1) = Some b" "b \<noteq> 10" using Suc.prems(4) [of 1] by auto
    have "line_text draw mem y (p + 1) (x + 1) b h' = None"
      by (rule Suc.IH) (use Suc.prems(1,5) Suc.prems(4) [of "Suc _"] b False in auto)
    then show ?thesis using b by simp
  qed
  then show ?case using Suc.prems(1,3) by (subst line_text.simps) (simp add: TERMINAL_BUFFER_WIDTH_def split: Option.bind_split)
qed simp

lemma last_row_overread:
  assumes "length buf = 17" "\<forall>row \<in> set buf. length row = 22" "10 \<notin> set (buf ! 16)"
  shows "updateLine draw (concat buf) (16 * 22) y h = None"
proof -
  have at: "get_at (concat buf) (16 * 22 + i) = Some (buf ! 16 ! i)" if "i < 22" for i
    using get_at_concat [OF assms(2), of 16 i] that assms(1) by simp
  have l: "length (buf ! 16) = 22" using assms(1,2) by simp
  have no: "buf ! 16 ! i \<noteq> 10" if "i < 22" for i using assms(3) l that by (metis nth_mem)
  have "length (concat buf) = 17 * 22" using assms(1,2) by (simp add: length_concat sum_list_triv map_idI [symmetric] cong: map_cong)
  then have over: "get_at (concat buf) (16 * 22 + 22) = None" by (simp add: get_at_def)
  have "line_text draw (concat buf) y (16 * 22) 0 (buf ! 16 ! 0) h = None"
    by (rule line_text_overread [where n = 22]) (use at no over in auto)
  then show ?thesis using at [of 0] by (simp add: updateLine_def)
qed

section \<open>Properties\<close>


definition hello :: "u8 list" where
  "hello = [0x48, 0x69, 10, 0x21]"


end
