(* ===== verification/Alarm_Clock.thy ===== *)
theory Alarm_Clock
  imports Ili9341 Board_Io Quadrature Int_Print Timer1_Clock "HOL-Library.Signed_Division"
begin

text \<open>
  The program \<^verbatim>\<open>src/src/programs/led_alarm_clock/led_alarm_clock.c\<close> with its measurements in
  \<^verbatim>\<open>led_alarm_clock_adc.c\<close>: a knob sets the current of a lamp, a timer regulates the duty cycle of
  the lamp and the converter switches the lamp off when its current is too high. The fonts are
  generated by the build and are arguments.
\<close>

section \<open>The state\<close>

text \<open>The global variables of the program and the hardware. The set point is a signed number.\<close>

record 'h alarm =
  ledCurrentSP :: u16
  ledPWM :: u16
  filter_index :: u8
  decoder_last :: u8
  adcConversionIndex :: u8
  rawCurrent :: u16
  rawInputVoltage :: u16
  rawLedTemperature :: u16
  rawLedVoltage :: u16
  hw :: 'h

definition on_hw :: "('h \<Rightarrow> 'h) \<Rightarrow> 'h alarm \<Rightarrow> 'h alarm" where
  "on_hw f w = w\<lparr>hw := f (hw w)\<rparr>"

section \<open>The lamp\<close>

definition setLedPWM :: "'h mmio \<Rightarrow> u16 \<Rightarrow> 'h alarm \<Rightarrow> 'h alarm" where
  "setLedPWM M setPoint w =
     (let w = w\<lparr>ledPWM := setPoint\<rparr>
      in if 0 < setPoint
         then on_hw (\<lambda>h. wr M OCR0B 190 (wr M OCR0A (ucast (setPoint - 1)) (wr M TCCR0B 1 (wr M TCCR0A 0x83 h)))) w
         else on_hw (\<lambda>h. and_reg M PORTD (NOT 0x40) (wr M TCCR0A 0x03 h)) w)"

definition getInputVoltage :: "'h alarm \<Rightarrow> u16" where
  "getInputVoltage w = ucast ((ucast (rawInputVoltage w) * 1600 :: u32) div 1024)"

definition getLEDCurrent :: "'h alarm \<Rightarrow> u16" where
  "getLEDCurrent w = ucast ((ucast (rawCurrent w) * 579 :: u32) div 1024)"

definition getLEDTemperature :: "'h alarm \<Rightarrow> u16" where
  "getLEDTemperature w = ucast ((ucast (rawLedTemperature w) * 3300 :: u32) div 1024)"

definition regulate :: "'h mmio \<Rightarrow> 'h alarm \<Rightarrow> 'h alarm" where
  "regulate M w =
     (let spBandSize = word_of_int (sint (ledCurrentSP w) sdiv 20) :: u16;
          ledCurrent = getLEDCurrent w;
          spBandSize = (if sint spBandSize < 2 then 2 else spBandSize);
          w = (if ledCurrentSP w = 0 then w\<lparr>ledPWM := 0\<rparr>
               else if ledPWM w \<le> 255 \<and> sint ledCurrent < sint (ledCurrentSP w - spBandSize) then w\<lparr>ledPWM := ledPWM w + 1\<rparr>
               else if 0 < ledPWM w \<and> sint (ledCurrentSP w + spBandSize) < sint ledCurrent then w\<lparr>ledPWM := ledPWM w - 1\<rparr>
               else w)
      in setLedPWM M (ledPWM w) w)"

definition ledCurrentCallback :: "'h mmio \<Rightarrow> u16 \<Rightarrow> 'h alarm \<Rightarrow> 'h alarm" where
  "ledCurrentCallback M raw w = (if 973 < raw then setLedPWM M 0 w else w)"

section \<open>The measurements\<close>

definition sample_current :: "'h mmio \<Rightarrow> (u16 \<Rightarrow> 'h alarm \<Rightarrow> 'h alarm) option \<Rightarrow> u16 \<Rightarrow> 'h alarm \<Rightarrow> 'h alarm" where
  "sample_current M currentCallback result w =
     (let w = w\<lparr>rawCurrent := result\<rparr>
      in case currentCallback of None \<Rightarrow> w | Some f \<Rightarrow> f (rawCurrent w) w)"

definition startNextADCConversion :: "'h mmio \<Rightarrow> (u16 \<Rightarrow> 'h alarm \<Rightarrow> 'h alarm) option \<Rightarrow> 'h alarm \<Rightarrow> 'h alarm" where
  "startNextADCConversion M currentCallback w =
     (let i = adcConversionIndex w;
          (result, h) = adc_get_result M (hw w);
          w = w\<lparr>hw := h\<rparr>;
          w = (if i = 0 then on_hw (adc_set_channel M 0) (sample_current M currentCallback result w)
               else if i = 2 then on_hw (adc_set_channel M 2) (sample_current M currentCallback result w)
               else if i = 4 then on_hw (adc_set_channel M 3) (sample_current M currentCallback result w)
               else if i = 1 then on_hw (adc_set_channel M 1) (w\<lparr>rawInputVoltage := result\<rparr>)
               else if i = 3 then on_hw (adc_set_channel M 1) (w\<lparr>rawLedTemperature := result\<rparr>)
               else if i = 5 then on_hw (adc_set_channel M 1) (w\<lparr>rawLedVoltage := result\<rparr>)
               else w);
          w = w\<lparr>adcConversionIndex := adcConversionIndex w + 1\<rparr>;
          w = (if 5 < adcConversionIndex w then w\<lparr>adcConversionIndex := 0\<rparr> else w)
      in on_hw (adc_start_conversion M) w)"

definition initADCSystem :: "'h mmio \<Rightarrow> 'h alarm \<Rightarrow> 'h alarm" where
  "initADCSystem M w =
     (let w = on_hw (adc_set_channel M 0) (on_hw (adc_set_reference_and_adj M 0x40 0) w);
          w = on_hw (adc_set_speed_and_enable M 7 0 1) (on_hw (wr M DIDR0 0x0F) w)
      in startNextADCConversion M None w)"

section \<open>The knob\<close>

definition setDataCommandPin :: "'h mmio \<Rightarrow> u8 \<Rightarrow> 'h \<Rightarrow> 'h" where
  "setDataCommandPin M v h = modify_reg M PORTD (\<lambda>p. (p AND 0xFB) OR (v AND 0x04)) h"

definition setChipSelectPin :: "'h mmio \<Rightarrow> u8 \<Rightarrow> 'h \<Rightarrow> 'h" where
  "setChipSelectPin M v h = modify_reg M PORTB (\<lambda>p. (p AND 0xFB) OR (v AND 0x04)) h"

definition encoder_input :: "u8 \<Rightarrow> 'h mmio \<Rightarrow> 'h alarm \<Rightarrow> u8 \<times> 'h alarm" where
  "encoder_input m M w = (case rd M PIND (hw w) of (v, h) \<Rightarrow> (v AND m, w\<lparr>hw := h\<rparr>))"

definition encoderA :: "'h mmio \<Rightarrow> 'h alarm \<Rightarrow> u8 \<times> 'h alarm" where
  "encoderA = encoder_input 0x08"

definition encoderB :: "'h mmio \<Rightarrow> 'h alarm \<Rightarrow> u8 \<times> 'h alarm" where
  "encoderB = encoder_input 0x80"

definition encoderCallbackFiltered :: "u8 \<Rightarrow> 'h alarm \<Rightarrow> 'h alarm" where
  "encoderCallbackFiltered up w =
     (if up \<noteq> 0 then (if sint (ledCurrentSP w) < 400 then w\<lparr>ledCurrentSP := ledCurrentSP w + 1\<rparr> else w)
      else (if 0 < sint (ledCurrentSP w) then w\<lparr>ledCurrentSP := ledCurrentSP w - 1\<rparr> else w))"

definition encoderCallback :: "u8 \<Rightarrow> 'h alarm \<Rightarrow> 'h alarm" where
  "encoderCallback up w =
     (case quadrature_decoder_detentFilterHandleEvent \<lparr>df_callback = encoderCallbackFiltered, df_index = filter_index w\<rparr> up w of
        (f, w) \<Rightarrow> w\<lparr>filter_index := df_index f\<rparr>)"

definition decoder_of :: "'h mmio \<Rightarrow> u8 \<Rightarrow> 'h alarm QuadratureDecoder" where
  "decoder_of M q = \<lparr>aInput = encoderA M, bInput = encoderB M, qd_callback = encoderCallback, lastQuad = q\<rparr>"

definition pin_change_interrupt :: "'h mmio \<Rightarrow> 'h alarm \<Rightarrow> 'h alarm" where
  "pin_change_interrupt M w =
     (case quadrature_decoder_handleEvent (decoder_of M (decoder_last w)) w of (d, w) \<Rightarrow> w\<lparr>decoder_last := lastQuad d\<rparr>)"

section \<open>The display\<close>

definition COLOUR_WHITE :: u16 where "COLOUR_WHITE = 0xffff"

text \<open>
  The time as text, in a buffer of nine bytes whose content is arbitrary at first, and the lines of
  the display. The temperature, the index of the filter and the set point are printed to a second buffer.
\<close>

definition print_at :: "nat \<Rightarrow> u8 \<Rightarrow> u8 list \<Rightarrow> u8 list option" where
  "print_at k v b = map_option (\<lambda>t. take k b @ t) (uint8Print v 2 (drop k b))"

definition time_string :: "timer1_wall_time \<Rightarrow> u8 list \<Rightarrow> u8 list option" where
  "time_string tm b =
     do {
       b \<leftarrow> print_at 0 (hour tm) b;
       b \<leftarrow> put b 2 0x3A;
       b \<leftarrow> print_at 3 (minute tm) b;
       b \<leftarrow> put b 5 0x3A;
       print_at 6 (sec tm) b
     }"

definition updateClockDisplayFunction ::
    "'h mmio \<Rightarrow> flash \<Rightarrow> bitfont \<Rightarrow> ili9341_TextMenu \<Rightarrow> 'h pin \<Rightarrow> 'f timer1 \<Rightarrow> u8 list \<Rightarrow> u8 list \<Rightarrow> 'h alarm \<Rightarrow> 'h alarm option" where
  "updateClockDisplayFunction M pgm bitfont_18x24 mainMenu dc clock timeString buffer w =
     (let h = hw w
      in do {
        timeString \<leftarrow> time_string (timer1_clock_get_time clock) timeString;
        h \<leftarrow> lcd_ili9341_drawBitFontCenteredString M pgm dc 0 320 44 timeString bitfont_18x24 COLOUR_WHITE 0 h;
        buffer \<leftarrow> uint16PrintDecimalNull (getLEDTemperature w) 1 buffer;
        buffer \<leftarrow> replaceLeadingZeros buffer;
        h \<leftarrow> lcd_ili9341_drawBitFontString M pgm dc 10 144 buffer bitfont_18x24 COLOUR_WHITE 0 h;
        h \<leftarrow> lcd_ili9341_drawBitFontString M pgm dc (10 + 18 * 6) 144 [0x43, 0] bitfont_18x24 COLOUR_WHITE 0 h;
        buffer \<leftarrow> uint16PrintNull (getLEDCurrent w) buffer;
        buffer \<leftarrow> uint16PrintNull (scast (filter_index w)) buffer;
        buffer \<leftarrow> replaceLeadingZeros buffer;
        h \<leftarrow> lcd_ili9341_drawBitFontString M pgm dc 10 (144 + 24 * 1) buffer bitfont_18x24 COLOUR_WHITE 0 h;
        buffer \<leftarrow> uint16PrintNull (ledCurrentSP w) buffer;
        buffer \<leftarrow> replaceLeadingZeros buffer;
        h \<leftarrow> lcd_ili9341_drawBitFontString M pgm dc 10 (144 + 24 * 2) buffer bitfont_18x24 COLOUR_WHITE 0 h;
        h \<leftarrow> ili9341_textMenuDraw M pgm dc mainMenu 320 240 h;
        Some (w\<lparr>hw := h\<rparr>)
      })"

section \<open>The start of the program\<close>

text \<open>The part of main before interrupts are enabled. The delays have no effect in the model.\<close>

definition alarm_start :: "'h mmio \<Rightarrow> 'h alarm \<Rightarrow> 'h alarm" where
  "alarm_start M w =
     (let w = on_hw (\<lambda>h. clock_prescale_none M (watchdog_disable M h)) w;
          w = on_hw (spi_config_io_for_master_mode True M) w;
          w = on_hw (\<lambda>h. wr M PCMSK2 0x88 (or_reg M PORTB 1 (or_reg M PORTD 0x88 (or_reg M DDRD 0x74 h)))) w;
          w = w\<lparr>filter_index := df_index (quadrature_decoder_detentFilterInit \<lparr>df_callback = encoderCallbackFiltered :: u8 \<Rightarrow> 'h alarm \<Rightarrow> 'h alarm, df_index = 0\<rparr>)\<rparr>;
          w = (case quadrature_decoder_init (decoder_of M (decoder_last w)) w of (d, w) \<Rightarrow> w\<lparr>decoder_last := lastQuad d\<rparr>);
          w = on_hw (wr M PCICR 4) w;
          w = on_hw (\<lambda>h. or_reg M PORTD 0x10 (and_reg M PORTD (NOT 0x10) h)) w
      in initADCSystem M (setLedPWM M 0 w))"

text \<open>The part of main after interrupts are enabled, before the loop.\<close>

definition alarm_display_start ::
    "(u8 \<times> 'e \<Rightarrow> u8 \<times> 'e) \<Rightarrow> 'h mmio \<Rightarrow> flash \<Rightarrow> bitfont \<Rightarrow> 'h lcd_ili9341_device \<Rightarrow> u8 \<Rightarrow> 'e \<Rightarrow> 'h \<Rightarrow> (u8 \<times> 'e \<times> 'h) option" where
  "alarm_display_start env M pgm bitfont_18x24 display spiBusLock e h =
     do {
       (r, spiBusLock, e, h) \<leftarrow> lcd_ili9341_obtainBus env M 1 spiBusLock e h;
       let (dc, h) = lcd_ili9341_selectDevice display h;
       h \<leftarrow> lcd_ili9341_init M dc h;
       h \<leftarrow> lcd_ili9341_setDisplayMode M dc (0x08 OR 0x20) h;
       h \<leftarrow> lcd_ili9341_drawFilledRectangle M dc 0 0 319 0 239 h;
       h \<leftarrow> lcd_ili9341_drawBitFontString M pgm dc 20 20 [0x54, 0x65, 0x73, 0x74, 0x69, 0x6E, 0x67, 0] bitfont_18x24 COLOUR_WHITE 0 h;
       Some (spiBusLock, e, h)
     }"

section \<open>Events\<close>

text \<open>
  What happens to the program after its start: the lines of the knob change, the regulation timer
  expires, a conversion of the converter ends with a result.
\<close>

datatype alarm_event = Knob u8 | Tick | Conversion u16

definition on_event :: "alarm_event \<Rightarrow> registers alarm \<Rightarrow> registers alarm" where
  "on_event e w =
     (case e of
        Knob v \<Rightarrow> pin_change_interrupt plain (on_hw (\<lambda>h. ((fst h)(PIND := v), snd h)) w)
      | Tick \<Rightarrow> regulate plain w
      | Conversion r \<Rightarrow>
          startNextADCConversion plain (Some (ledCurrentCallback plain)) (on_hw (\<lambda>h. (fst h, (snd h)(ADC_result := r))) w))"

definition channel :: "registers alarm \<Rightarrow> u8" where
  "channel w = fst (hw w) ADMUX AND 0x0F"

text \<open>The channel whose result the program expects next, and the state of the outputs of the lamp.\<close>

definition expected_channel :: "u8 \<Rightarrow> u8" where
  "expected_channel i = (if i = 1 then 0 else if i = 3 then 2 else if i = 5 then 3 else 1)"

definition lamp_output :: "registers alarm \<Rightarrow> bool" where
  "lamp_output w \<longleftrightarrow>
     (if ledPWM w = 0 then fst (hw w) TCCR0A = 0x03 \<and> \<not> bit (fst (hw w) PORTD) 6
      else fst (hw w) TCCR0A = 0x83 \<and> unat (fst (hw w) OCR0A) + 1 = unat (ledPWM w))"

definition alarm_ok :: "registers alarm \<Rightarrow> bool" where
  "alarm_ok w \<longleftrightarrow>
     unat (ledCurrentSP w) \<le> 400 \<and> unat (ledPWM w) \<le> 256 \<and> adcConversionIndex w \<le> 5 \<and>
     channel w = expected_channel (adcConversionIndex w) \<and> lamp_output w"

section \<open>The invariant\<close>

lemma sint_small:
  assumes "unat (w :: u16) < 32768" shows "sint w = int (unat w)"
proof -
  have u: "int (unat w) = uint w" by simp
  have "0 \<le> uint w" by simp
  then have "- 32768 \<le> uint w" "uint w < 32768" using u assms by linarith+
  then have "signed_take_bit 15 (uint w) = uint w" by (simp add: signed_take_bit_int_eq_self_iff)
  moreover have "sint w = signed_take_bit 15 (uint w)" by (subst sint_uint) simp
  ultimately show ?thesis using u by simp
qed

lemma lamp_set:
  assumes "unat v \<le> 256"
  shows "lamp_output (setLedPWM plain v w)"
proof (cases "v = 0")
  case True
  then show ?thesis by (simp add: lamp_output_def setLedPWM_def on_hw_def and_reg_def bit_and_iff bit_not_iff)
next
  case False
  then have "unat (v - 1) = unat v - 1" "0 < unat v" by (simp_all add: unat_minus_one unat_gt_0)
  then have "unat (ucast (v - 1) :: u8) + 1 = unat v" using assms by (simp add: unat_ucast_16_8)
  then show ?thesis using False by (simp add: lamp_output_def setLedPWM_def on_hw_def word_neq_0_conv [symmetric])
qed

lemma setLedPWM_keeps [simp]:
  "ledCurrentSP (setLedPWM plain v w) = ledCurrentSP w" "ledPWM (setLedPWM plain v w) = v"
  "adcConversionIndex (setLedPWM plain v w) = adcConversionIndex w" "channel (setLedPWM plain v w) = channel w"
  "rawCurrent (setLedPWM plain v w) = rawCurrent w"
  by (simp_all add: setLedPWM_def on_hw_def Let_def channel_def and_reg_def)

text \<open>The duty cycle after one step of the regulation.\<close>

definition band :: "'h alarm \<Rightarrow> u16" where
  "band w = (let b = word_of_int (sint (ledCurrentSP w) sdiv 20) in if sint b < 2 then 2 else b)"

definition regulated :: "'h alarm \<Rightarrow> u16" where
  "regulated w =
     (if ledCurrentSP w = 0 then 0
      else if ledPWM w \<le> 255 \<and> sint (getLEDCurrent w) < sint (ledCurrentSP w - band w) then ledPWM w + 1
      else if 0 < ledPWM w \<and> sint (ledCurrentSP w + band w) < sint (getLEDCurrent w) then ledPWM w - 1
      else ledPWM w)"

lemma setLedPWM_again: "setLedPWM M v (w\<lparr>ledPWM := x\<rparr>) = setLedPWM M v w"
  by (simp add: setLedPWM_def on_hw_def)

lemma regulate_eq: "regulate M w = setLedPWM M (regulated w) w"
proof -
  define b where "b = band w"
  define c where "c = getLEDCurrent w"
  have "regulate M w =
     (let w = (if ledCurrentSP w = 0 then w\<lparr>ledPWM := 0\<rparr>
               else if ledPWM w \<le> 255 \<and> sint c < sint (ledCurrentSP w - b) then w\<lparr>ledPWM := ledPWM w + 1\<rparr>
               else if 0 < ledPWM w \<and> sint (ledCurrentSP w + b) < sint c then w\<lparr>ledPWM := ledPWM w - 1\<rparr>
               else w)
      in setLedPWM M (ledPWM w) w)"
    unfolding regulate_def b_def c_def band_def Let_def ..
  then show ?thesis unfolding regulated_def b_def [symmetric] c_def [symmetric] by (simp add: setLedPWM_again)
qed

lemma regulated_bound:
  assumes "unat (ledPWM w) \<le> 256" shows "unat (regulated w) \<le> 256"
proof -
  define P where "P = (sint (getLEDCurrent w) < sint (ledCurrentSP w - band w))"
  define Q where "Q = (sint (ledCurrentSP w + band w) < sint (getLEDCurrent w))"
  have up: "ledPWM w \<le> 255 \<Longrightarrow> unat (ledPWM w + 1) \<le> 256" by (simp add: unat_plus_u16 word_le_nat_alt)
  have "0 < ledPWM w \<Longrightarrow> unat (ledPWM w - 1) = unat (ledPWM w) - 1" by (metis less_irrefl unat_minus_one)
  then have down: "0 < ledPWM w \<Longrightarrow> unat (ledPWM w - 1) \<le> 256" using assms by simp
  show ?thesis unfolding regulated_def P_def [symmetric] Q_def [symmetric] using up down assms by simp
qed

lemma regulate_ok: "alarm_ok w \<Longrightarrow> alarm_ok (regulate plain w)"
  unfolding regulate_eq by (simp add: alarm_ok_def lamp_set regulated_bound)

lemma encoderCallbackFiltered_ok:
  assumes "unat (ledCurrentSP w) \<le> 400" shows "unat (ledCurrentSP (encoderCallbackFiltered up w)) \<le> 400"
proof -
  have "sint (ledCurrentSP w) = int (unat (ledCurrentSP w))" using assms by (intro sint_small) simp
  then have s: "sint (ledCurrentSP w) < 400 \<longleftrightarrow> unat (ledCurrentSP w) < 400" "0 < sint (ledCurrentSP w) \<longleftrightarrow> 0 < unat (ledCurrentSP w)"
    by linarith+
  have "unat (ledCurrentSP w) < 400 \<Longrightarrow> unat (ledCurrentSP w + 1) \<le> 400" by (simp add: unat_inc_u16)
  moreover have "unat (ledCurrentSP w - 1) \<le> 400" if "0 < unat (ledCurrentSP w)"
  proof -
    have "ledCurrentSP w \<noteq> 0" using that by auto
    then show ?thesis using assms by (simp add: unat_minus_one)
  qed
  ultimately show ?thesis using assms unfolding encoderCallbackFiltered_def s by simp
qed

text \<open>The interrupt of the knob changes the set point only through the callback of the filter.\<close>

lemma encoderCallbackFiltered_frame:
  "ledPWM (encoderCallbackFiltered up w) = ledPWM w" "adcConversionIndex (encoderCallbackFiltered up w) = adcConversionIndex w"
  "hw (encoderCallbackFiltered up w) = hw w"
  by (simp_all add: encoderCallbackFiltered_def)

lemma alarm_ok_frame:
  assumes "alarm_ok w" "ledPWM w' = ledPWM w" "adcConversionIndex w' = adcConversionIndex w" "unat (ledCurrentSP w') \<le> 400"
    "\<And>r. r \<noteq> PIND \<Longrightarrow> fst (hw w') r = fst (hw w) r"
  shows "alarm_ok w'"
proof -
  have "fst (hw w') ADMUX = fst (hw w) ADMUX" "fst (hw w') TCCR0A = fst (hw w) TCCR0A" "fst (hw w') PORTD = fst (hw w) PORTD"
    "fst (hw w') OCR0A = fst (hw w) OCR0A" using assms(5) by simp_all
  then have "channel w' = channel w" "lamp_output w' = lamp_output w" using assms(2) by (simp_all only: channel_def lamp_output_def)
  then show ?thesis using assms(1-4) by (simp add: alarm_ok_def)
qed

lemma encoderCallback_ok:
  assumes "alarm_ok w" shows "alarm_ok (encoderCallback up w)"
proof -
  define w1 where "w1 = snd (quadrature_decoder_detentFilterHandleEvent \<lparr>df_callback = encoderCallbackFiltered, df_index = filter_index w\<rparr> up w)"
  have "w1 = w \<or> w1 = encoderCallbackFiltered 1 w \<or> w1 = encoderCallbackFiltered 0 w"
    by (simp add: w1_def quadrature_decoder_detentFilterHandleEvent_def Let_def)
  then have "ledPWM w1 = ledPWM w" "adcConversionIndex w1 = adcConversionIndex w" "hw w1 = hw w" "unat (ledCurrentSP w1) \<le> 400"
    using assms encoderCallbackFiltered_ok [of w] by (auto simp: encoderCallbackFiltered_frame alarm_ok_def)
  moreover have "encoderCallback up w = w1\<lparr>filter_index := df_index (fst (quadrature_decoder_detentFilterHandleEvent
      \<lparr>df_callback = encoderCallbackFiltered, df_index = filter_index w\<rparr> up w))\<rparr>"
    by (simp add: encoderCallback_def w1_def split_def)
  ultimately show ?thesis by (intro alarm_ok_frame [OF assms]) simp_all
qed

lemma encoder_input_plain: "encoder_input m plain w = (fst (hw w) PIND AND m, w)"
  by (simp add: encoder_input_def)

lemma knob_ok:
  assumes "alarm_ok w" shows "alarm_ok (on_event (Knob v) w)"
proof -
  define w0 where "w0 = on_hw (\<lambda>h. ((fst h)(PIND := v), snd h)) w"
  have w0: "alarm_ok w0" by (rule alarm_ok_frame [OF assms]) (use assms in \<open>simp_all add: w0_def on_hw_def alarm_ok_def\<close>)
  define w1 where "w1 = snd (quadrature_decoder_handleEvent (decoder_of plain (decoder_last w0)) w0)"
  have "w1 = w0 \<or> w1 = encoderCallback 1 w0 \<or> w1 = encoderCallback 0 w0"
    by (simp add: w1_def quadrature_decoder_handleEvent_def decoder_of_def encoderA_def encoderB_def encoder_input_plain read_quad_def Let_def)
  then have "alarm_ok w1" using w0 encoderCallback_ok by blast
  moreover have "\<exists>q. on_event (Knob v) w = w1\<lparr>decoder_last := q\<rparr>"
    by (auto simp: on_event_def pin_change_interrupt_def w1_def w0_def [symmetric] split_def)
  ultimately show ?thesis by (auto simp: alarm_ok_def channel_def lamp_output_def)
qed

text \<open>A conversion: the result is stored, the next channel selected and the next conversion started.\<close>

definition store_result :: "u8 \<Rightarrow> u16 \<Rightarrow> registers alarm \<Rightarrow> registers alarm" where
  "store_result i r w =
     (if i = 1 then w\<lparr>rawInputVoltage := r\<rparr> else if i = 3 then w\<lparr>rawLedTemperature := r\<rparr> else if i = 5 then w\<lparr>rawLedVoltage := r\<rparr>
      else ledCurrentCallback plain r (w\<lparr>rawCurrent := r\<rparr>))"

definition next_index :: "u8 \<Rightarrow> u8" where
  "next_index i = (if 5 < i + 1 then 0 else i + 1)"

definition begin_conversion :: "u8 \<Rightarrow> registers alarm \<Rightarrow> registers alarm" where
  "begin_conversion i w = on_hw (adc_start_conversion plain) ((on_hw (adc_set_channel plain (expected_channel (next_index i))) w)\<lparr>adcConversionIndex := next_index i\<rparr>)"

lemma index_cases:
  assumes "(i :: u8) \<le> 5" shows "i = 0 \<or> i = 1 \<or> i = 2 \<or> i = 3 \<or> i = 4 \<or> i = 5"
proof -
  have "unat i \<le> 5" using assms by (simp add: word_le_nat_alt)
  then have "unat i = 0 \<or> unat i = 1 \<or> unat i = 2 \<or> unat i = 3 \<or> unat i = 4 \<or> unat i = 5" by linarith
  then show ?thesis by (simp add: word_unat_eq_iff)
qed

lemma store_result_frame:
  "adcConversionIndex (store_result i r w) = adcConversionIndex w" "ledCurrentSP (store_result i r w) = ledCurrentSP w"
  by (simp_all add: store_result_def ledCurrentCallback_def)

lemma conversion_eq:
  assumes "adcConversionIndex w \<le> 5"
  shows "on_event (Conversion r) w =
    begin_conversion (adcConversionIndex w) (store_result (adcConversionIndex w) r (on_hw (\<lambda>h. (fst h, (snd h)(ADC_result := r))) w))"
  using index_cases [OF assms]
  by (elim disjE) (simp_all add: on_event_def startNextADCConversion_def begin_conversion_def adc_get_result_def sample_current_def
      store_result_def next_index_def expected_channel_def on_hw_def ledCurrentCallback_def setLedPWM_def Let_def)

lemma selected_channel: "((x AND 0xF0) OR c) AND 0x0F = (c AND 0x0F :: u8)"
  by (simp add: bit.conj_disj_distrib2 and.assoc)

lemma conversion_ok:
  assumes "alarm_ok w"
  shows "alarm_ok (on_event (Conversion r) w)"
proof -
  define i where "i = adcConversionIndex w"
  define w0 where "w0 = on_hw (\<lambda>h. (fst h, (snd h)(ADC_result := r))) w"
  define w1 where "w1 = store_result i r w0"
  have i: "i \<le> 5" using assms by (simp add: alarm_ok_def i_def)
  have w0: "alarm_ok w0" by (rule alarm_ok_frame [OF assms]) (use assms in \<open>simp_all add: w0_def on_hw_def alarm_ok_def\<close>)
  have "lamp_output w1 \<and> unat (ledPWM w1) \<le> 256"
    using w0 lamp_set [of 0] by (auto simp: w1_def store_result_def ledCurrentCallback_def alarm_ok_def lamp_output_def)
  then have "lamp_output (begin_conversion i w1)" "unat (ledPWM (begin_conversion i w1)) \<le> 256"
    by (auto simp: begin_conversion_def on_hw_def lamp_output_def adc_set_channel_def adc_start_conversion_def or_reg_def)
  moreover have "channel (begin_conversion i w1) = expected_channel (next_index i)"
    unfolding channel_def begin_conversion_def on_hw_def
    by (simp add: adc_set_channel_def adc_start_conversion_def or_reg_def selected_channel) (simp add: expected_channel_def)
  moreover have "next_index i \<le> 5" using index_cases [OF i] by (elim disjE) (simp_all add: next_index_def)
  moreover have "unat (ledCurrentSP (begin_conversion i w1)) \<le> 400"
    using w0 by (simp add: begin_conversion_def on_hw_def w1_def store_result_frame alarm_ok_def)
  ultimately have "alarm_ok (begin_conversion i w1)" by (simp add: alarm_ok_def) (simp add: begin_conversion_def on_hw_def)
  then show ?thesis using conversion_eq [of w r] i by (simp add: i_def w0_def w1_def)
qed

lemma event_ok: "alarm_ok w \<Longrightarrow> alarm_ok (on_event e w)"
  using knob_ok conversion_ok regulate_ok by (cases e) (simp_all add: on_event_def [of Tick])

lemma init_ok:
  assumes "unat (ledCurrentSP w) \<le> 400" "adcConversionIndex w = 0"
  shows "alarm_ok (initADCSystem plain (setLedPWM plain 0 w))"
proof -
  have "lamp_output (setLedPWM plain 0 w)" by (rule lamp_set) simp
  then show ?thesis using assms
    by (simp add: alarm_ok_def initADCSystem_def startNextADCConversion_def sample_current_def adc_get_result_def on_hw_def Let_def
        channel_def lamp_output_def expected_channel_def adc_set_channel_def adc_start_conversion_def adc_set_speed_and_enable_def
        adc_set_reference_and_adj_def or_reg_def selected_channel and.assoc)
qed

lemma start_ok:
  assumes "ledCurrentSP w = 10" "adcConversionIndex w = 0"
  shows "alarm_ok (alarm_start plain w)"
proof -
  have "\<exists>w'. alarm_start plain w = initADCSystem plain (setLedPWM plain 0 w') \<and> ledCurrentSP w' = 10 \<and> adcConversionIndex w' = 0"
    unfolding alarm_start_def Let_def
    by (intro exI conjI, rule refl) (simp_all add: on_hw_def quadrature_decoder_init_def read_quad_def decoder_of_def encoderA_def
        encoderB_def encoder_input_plain assms)
  then show ?thesis using init_ok by auto
qed

section \<open>Properties\<close>

text \<open>
  (C5) The lamp is safe. Whatever the knob, the timer and the converter do after the start of the
  program, in any order and with any values: the set point stays within 0 to 400 and the duty cycle
  within 0 to 256, the outputs of the timer agree with the duty cycle (and are off when it is zero),
  the converter measures the channel the program expects, so that every result is stored where it
  belongs, and a current above the limit switches the lamp off at once.
\<close>

theorem lamp_is_safe:
  assumes "ledCurrentSP w0 = 10" "adcConversionIndex w0 = 0" "w = fold on_event es (alarm_start plain w0)"
  shows "unat (ledCurrentSP w) \<le> 400 \<and> unat (ledPWM w) \<le> 256 \<and> lamp_output w \<and>
    (let w' = on_event (Conversion r) w
     in (channel w = 0 \<longrightarrow> rawInputVoltage w' = r) \<and> (channel w = 2 \<longrightarrow> rawLedTemperature w' = r) \<and>
        (channel w = 3 \<longrightarrow> rawLedVoltage w' = r) \<and>
        (channel w = 1 \<longrightarrow> rawCurrent w' = r \<and> (973 < r \<longrightarrow> ledPWM w' = 0 \<and> lamp_output w')))"
proof -
  have ok: "alarm_ok w" unfolding assms(3) by (rule fold_invariant [of es "\<lambda>_. True"]) (simp_all add: start_ok assms(1,2) event_ok)
  define i where "i = adcConversionIndex w"
  define w' where "w' = on_event (Conversion r) w"
  have i: "i \<le> 5" "channel w = expected_channel i" using ok by (simp_all add: alarm_ok_def i_def)
  have out: "lamp_output w'" using conversion_ok [OF ok] by (simp add: alarm_ok_def w'_def)
  have eq: "w' = begin_conversion i (store_result i r (on_hw (\<lambda>h. (fst h, (snd h)(ADC_result := r))) w))"
    unfolding w'_def i_def by (rule conversion_eq) (use i in \<open>simp add: i_def\<close>)
  have "channel w = 0 \<longrightarrow> rawInputVoltage w' = r" "channel w = 2 \<longrightarrow> rawLedTemperature w' = r" "channel w = 3 \<longrightarrow> rawLedVoltage w' = r"
    unfolding eq i(2) by (auto simp: expected_channel_def begin_conversion_def on_hw_def store_result_def)
  moreover have "channel w = 1 \<longrightarrow> rawCurrent w' = r \<and> (973 < r \<longrightarrow> ledPWM w' = 0)"
    unfolding eq i(2)
    by (auto simp: expected_channel_def begin_conversion_def on_hw_def store_result_def ledCurrentCallback_def setLedPWM_def)
  ultimately show ?thesis using ok out by (simp add: Let_def alarm_ok_def w'_def)
qed

definition alarm_reset :: "registers alarm" where
  "alarm_reset = \<lparr>ledCurrentSP = 10, ledPWM = 0, filter_index = 0, decoder_last = 0, adcConversionIndex = 0, rawCurrent = 0,
     rawInputVoltage = 0, rawLedTemperature = 0, rawLedVoltage = 0, hw = (\<lambda>_. 0, \<lambda>_. 0)\<rparr>"

theorem lamp_is_safe_witness:
  "let w = fold on_event [Tick, Conversion 512] (alarm_start plain alarm_reset)
   in channel w = 1 \<and> ledPWM w = 1 \<and> ledPWM (on_event (Conversion 1000) w) = 0 \<and> lamp_output (on_event (Conversion 1000) w)"
proof -
  define w where "w = fold on_event [Tick, Conversion 512] (alarm_start plain alarm_reset)"
  have "channel w = 1" "ledPWM w = 1" unfolding w_def by code_simp+
  then show ?thesis
    using lamp_is_safe [of alarm_reset w "[Tick, Conversion 512]" 1000] by (simp add: alarm_reset_def w_def Let_def)
qed

end
