(* ===== verification/Mmc_Diskio.thy ===== *)
theory Mmc_Diskio
  imports Pff_Fat Mmio
begin

text \<open>
  The disk functions of \<^verbatim>\<open>src/src/utils/petit_fat_fs/mmc_diskio.c\<close> for cards on an SPI port. The functions
  that move a byte are written in assembler outside of the sources, the function that forwards a
  byte is only declared, and the macro that would deselect the card is not defined under the name the
  code uses: all of them are parameters. On a card they keep the contract \<open>disk_reader\<close> of the file
  system.
\<close>

section \<open>The port\<close>

record 'h mmc_bus =
  init_spi :: "'h \<Rightarrow> 'h"
  dly_100us :: "'h \<Rightarrow> 'h"
  xmit_spi :: "u8 \<Rightarrow> 'h \<Rightarrow> 'h"
  rcv_spi :: "'h \<Rightarrow> u8 \<times> 'h"
  DESELECT :: "'h \<Rightarrow> 'h"
  FORWARD :: "u8 \<Rightarrow> 'h \<Rightarrow> 'h"
  port :: "'h mmio"

text \<open>The static variables of the module and the hardware.\<close>

record 'h mmc =
  CardType :: u8
  wc :: u16
  hw :: 'h

definition SELECT :: "'h mmc_bus \<Rightarrow> 'h \<Rightarrow> 'h" where
  "SELECT B h = and_reg (port B) PORTB (NOT 1) h"

definition MMC_SEL :: "'h mmc_bus \<Rightarrow> 'h \<Rightarrow> bool \<times> 'h" where
  "MMC_SEL B h = (case rd (port B) PORTB h of (v, h) \<Rightarrow> (v AND 8 = 0, h))"

text \<open>Bytes received in a row, bytes sent in a row, and the number of rounds of a loop \<^verbatim>\<open>do ... while (--n)\<close>.\<close>

fun rcv_bytes :: "'h mmc_bus \<Rightarrow> nat \<Rightarrow> 'h \<Rightarrow> u8 list \<times> 'h" where
  "rcv_bytes B 0 h = ([], h)"
| "rcv_bytes B (Suc n) h =
     (case rcv_spi B h of (b, h) \<Rightarrow> case rcv_bytes B n h of (bs, h) \<Rightarrow> (b # bs, h))"

fun xmit_bytes :: "'h mmc_bus \<Rightarrow> u8 list \<Rightarrow> 'h \<Rightarrow> 'h" where
  "xmit_bytes B [] h = h"
| "xmit_bytes B (b # bs) h = xmit_bytes B bs (xmit_spi B b h)"

fun forward_bytes :: "'h mmc_bus \<Rightarrow> nat \<Rightarrow> 'h \<Rightarrow> u8 list \<times> 'h" where
  "forward_bytes B 0 h = ([], h)"
| "forward_bytes B (Suc n) h =
     (case rcv_spi B h of (b, h) \<Rightarrow> case forward_bytes B n (FORWARD B b h) of (bs, h) \<Rightarrow> (b # bs, h))"

definition rounds :: "u16 \<Rightarrow> nat" where
  "rounds n = (if n = 0 then 65536 else unat n)"

section \<open>Commands\<close>

text \<open>A byte is received until it satisfies a condition, with a number of further attempts.\<close>

fun rcv_while :: "'h mmc_bus \<Rightarrow> (u8 \<Rightarrow> bool) \<Rightarrow> nat \<Rightarrow> 'h \<Rightarrow> u8 \<times> 'h" where
  "rcv_while B again 0 h = rcv_spi B h"
| "rcv_while B again (Suc n) h =
     (case rcv_spi B h of (res, h) \<Rightarrow> if again res then rcv_while B again n h else (res, h))"

definition packet_crc :: "u8 \<Rightarrow> u8" where
  "packet_crc cmd = (let n = 0x01; n = (if cmd = 0x40 then 0x95 else n) in if cmd = 0x48 then 0x87 else n)"

definition packet_bytes :: "u8 \<Rightarrow> u32 \<Rightarrow> u8 list" where
  "packet_bytes cmd arg =
     [cmd, ucast (drop_bit 24 arg), ucast (drop_bit 16 arg), ucast (drop_bit 8 arg), ucast arg, packet_crc cmd]"

definition send_packet :: "'h mmc_bus \<Rightarrow> u8 \<Rightarrow> u32 \<Rightarrow> 'h \<Rightarrow> u8 \<times> 'h" where
  "send_packet B cmd arg h =
     (let h = snd (rcv_spi B (DESELECT B h));
          h = snd (rcv_spi B (SELECT B h));
          h = xmit_bytes B (packet_bytes cmd arg) h
      in rcv_while B (\<lambda>res. res AND 0x80 \<noteq> 0) 9 h)"

definition send_cmd :: "'h mmc_bus \<Rightarrow> u8 \<Rightarrow> u32 \<Rightarrow> 'h \<Rightarrow> u8 \<times> 'h" where
  "send_cmd B cmd arg h =
     (if cmd AND 0x80 \<noteq> 0
      then (case send_packet B 0x77 0 h of (res, h) \<Rightarrow>
              if 1 < res then (res, h) else send_packet B (cmd AND 0x7F) arg h)
      else send_packet B cmd arg h)"

section \<open>Writing\<close>

fun write_loop :: "'h mmc_bus \<Rightarrow> u8 list \<Rightarrow> nat \<Rightarrow> nat \<Rightarrow> 'h \<Rightarrow> nat \<times> 'h" where
  "write_loop B buff 0 w h = (w, h)"
| "write_loop B buff (Suc bc) 0 h = (0, h)"
| "write_loop B buff (Suc bc) (Suc w) h = write_loop B (tl buff) bc w (xmit_spi B (hd buff) h)"

fun card_ready_loop :: "'h mmc_bus \<Rightarrow> nat \<Rightarrow> 'h \<Rightarrow> nat \<times> 'h" where
  "card_ready_loop B 0 h = (0, snd (rcv_spi B h))"
| "card_ready_loop B (Suc bc) h =
     (case rcv_spi B h of (b, h) \<Rightarrow> if b \<noteq> 0xFF then card_ready_loop B bc (dly_100us B h) else (Suc bc, h))"

definition finalize_write :: "'h mmc_bus \<Rightarrow> 'h mmc \<Rightarrow> DRESULT \<times> 'h mmc" where
  "finalize_write B d =
     (let h = xmit_bytes B (replicate (unat (wc d + 2)) 0) (hw d);
          (b, h) = rcv_spi B h;
          (res, h) = (if b AND 0x1F = 0x05
                      then (case card_ready_loop B 5000 h of (bc, h) \<Rightarrow> (if bc \<noteq> 0 then RES_OK else RES_ERROR, h))
                      else (RES_ERROR, h));
          h = snd (rcv_spi B (DESELECT B h))
      in (res, d\<lparr>hw := h\<rparr>))"

definition card_address :: "u8 \<Rightarrow> u32 \<Rightarrow> u32" where
  "card_address ct lba = (if ct AND 8 = 0 then lba * 512 else lba)"

text \<open>The buffer of a write holds at least as many bytes as are sent.\<close>

definition disk_writep_mmc :: "'h mmc_bus \<Rightarrow> u8 list option \<Rightarrow> u32 \<Rightarrow> 'h mmc \<Rightarrow> DRESULT \<times> 'h mmc" where
  "disk_writep_mmc B buff sa d =
     (case buff of
        Some bs \<Rightarrow>
          (case write_loop B bs (unat (ucast sa :: u16)) (unat (wc d)) (hw d) of
             (w, h) \<Rightarrow> (RES_OK, d\<lparr>wc := of_nat w, hw := h\<rparr>))
      | None \<Rightarrow>
          if sa \<noteq> 0 then
            (case send_cmd B 0x58 (card_address (CardType d) sa) (hw d) of (r, h) \<Rightarrow>
               if r = 0 then (RES_OK, d\<lparr>wc := 512, hw := xmit_bytes B [0xFF, 0xFE] h\<rparr>) else (RES_ERROR, d\<lparr>hw := h\<rparr>))
          else finalize_write B d)"

section \<open>Initialisation\<close>

fun idle_loop :: "'h mmc_bus \<Rightarrow> u8 \<Rightarrow> u32 \<Rightarrow> nat \<Rightarrow> 'h \<Rightarrow> nat \<times> 'h" where
  "idle_loop B cmd arg 0 h = (0, h)"
| "idle_loop B cmd arg (Suc tmr) h =
     (case send_cmd B cmd arg h of (r, h) \<Rightarrow>
        if r \<noteq> 0 then idle_loop B cmd arg tmr (dly_100us B h) else (Suc tmr, h))"

text \<open>Cards of version 2, and older ones.\<close>

definition init_v2 :: "'h mmc_bus \<Rightarrow> 'h \<Rightarrow> u8 \<times> 'h" where
  "init_v2 B h =
     (case rcv_bytes B 4 h of (ocr, h) \<Rightarrow>
        if ocr ! 2 = 0x01 \<and> ocr ! 3 = 0xAA then
          (case idle_loop B 0xE9 (push_bit 30 1) 10000 h of (tmr, h) \<Rightarrow>
             if tmr = 0 then (0, h)
             else (case send_cmd B 0x7A 0 h of (r, h) \<Rightarrow>
               if r = 0
               then (case rcv_bytes B 4 h of (ocr, h) \<Rightarrow> (if ocr ! 0 AND 0x40 \<noteq> 0 then 0x04 OR 0x08 else 0x04, h))
               else (0, h)))
        else (0, h))"

definition init_v1 :: "'h mmc_bus \<Rightarrow> 'h \<Rightarrow> u8 \<times> 'h" where
  "init_v1 B h =
     (case send_cmd B 0xE9 0 h of (r, h) \<Rightarrow>
      let (ty, cmd) = (if r \<le> 1 then (0x02, 0xE9) else (0x01, 0x41));
          (tmr, h) = idle_loop B cmd 0 10000 h
      in if tmr = 0 then (0, h)
         else (case send_cmd B 0x50 512 h of (r, h) \<Rightarrow> (if r \<noteq> 0 then 0 else ty, h)))"

definition disk_initialize_mmc :: "bool \<Rightarrow> 'h mmc_bus \<Rightarrow> 'h mmc \<Rightarrow> u8 \<times> 'h mmc" where
  "disk_initialize_mmc USE_WRITE B d =
     (let d = (if USE_WRITE \<and> CardType d \<noteq> 0
               then (case MMC_SEL B (hw d) of (s, h) \<Rightarrow>
                       if s then snd (disk_writep_mmc B None 0 (d\<lparr>hw := h\<rparr>)) else d\<lparr>hw := h\<rparr>)
               else d);
          h = DESELECT B (init_spi B (hw d));
          h = snd (rcv_bytes B 10 h);
          (ty, h) = (case send_cmd B 0x40 0 h of (r, h) \<Rightarrow>
             if r = 1 then (case send_cmd B 0x48 0x1AA h of (r, h) \<Rightarrow> if r = 1 then init_v2 B h else init_v1 B h)
             else (0, h));
          h = snd (rcv_spi B (DESELECT B h))
      in (if ty \<noteq> 0 then 0 else STA_NOINIT, d\<lparr>CardType := ty, hw := h\<rparr>))"

section \<open>Reading\<close>

text \<open>The data of a block: bytes in front, the bytes asked for, and the rest with the checksum.\<close>

definition read_data :: "'h mmc_bus \<Rightarrow> bool \<Rightarrow> u16 \<Rightarrow> u16 \<Rightarrow> 'h \<Rightarrow> u8 list \<times> 'h" where
  "read_data B buff ofs cnt h =
     (let bc = 514 - ofs - cnt;
          h = (if ofs \<noteq> 0 then snd (rcv_bytes B (rounds ofs) h) else h);
          (bs, h) = (if buff then rcv_bytes B (rounds cnt) h else forward_bytes B (rounds cnt) h)
      in (bs, snd (rcv_bytes B (rounds bc) h)))"

definition disk_readp_mmc :: "'h mmc_bus \<Rightarrow> bool \<Rightarrow> u32 \<Rightarrow> u16 \<Rightarrow> u16 \<Rightarrow> 'h mmc \<Rightarrow> DRESULT \<times> u8 list \<times> 'h mmc" where
  "disk_readp_mmc B buff lba ofs cnt d =
     (let (r, h) = send_cmd B 0x51 (card_address (CardType d) lba) (hw d);
          (res, bs, h) =
            (if r = 0 then
               (case rcv_while B (\<lambda>rc. rc = 0xFF) 39999 h of (rc, h) \<Rightarrow>
                  if rc = 0xFE then (case read_data B buff ofs cnt h of (bs, h) \<Rightarrow> (RES_OK, bs, h)) else (RES_ERROR, [], h))
             else (RES_ERROR, [], h));
          h = snd (rcv_spi B (DESELECT B h))
      in (res, bs, d\<lparr>hw := h\<rparr>))"

definition mmc_env :: "'h mmc_bus \<Rightarrow> 'h mmc pff_env" where
  "mmc_env B =
     \<lparr>FS_FAT12_cfg = True, FS_FAT32_cfg = False, code_page_cfg = cp_1,
      disk_initialize = disk_initialize_mmc False B, disk_readp = disk_readp_mmc B, disk_writep = disk_writep_mmc B\<rparr>"

section \<open>A card\<close>

text \<open>
  A card collects the six bytes of a packet and then has an answer ready: after \<open>ncr\<close> bytes the
  response, and for the read of a block, after \<open>nac\<close> more bytes, the data token, the data and a checksum.
  Without an answer it sends 0xFF. Deselecting it drops both.
\<close>

record mmc_card =
  mem :: "nat \<Rightarrow> u8"
  block_addressed :: bool
  capacity :: nat
  ncr :: nat
  nac :: nat
  portb :: u8
  packet :: "u8 list"
  outq :: "u8 list"

definition word_of_bytes :: "u8 \<Rightarrow> u8 \<Rightarrow> u8 \<Rightarrow> u8 \<Rightarrow> u32" where
  "word_of_bytes a b c d = push_bit 24 (ucast a) OR push_bit 16 (ucast b) OR push_bit 8 (ucast c) OR ucast d"

definition block_start :: "mmc_card \<Rightarrow> u32 \<Rightarrow> nat" where
  "block_start c adr = (if block_addressed c then 512 * unat adr else unat adr)"

definition block_answer :: "mmc_card \<Rightarrow> u32 \<Rightarrow> u8 list" where
  "block_answer c adr =
     (if block_start c adr + 512 \<le> capacity c
      then 0 # replicate (nac c) 0xFF @ 0xFE # map (\<lambda>i. mem c (block_start c adr + i)) [0 ..< 512] @ [0, 0]
      else [0x40])"

definition card_answer :: "u8 list \<Rightarrow> mmc_card \<Rightarrow> u8 list" where
  "card_answer p c =
     replicate (ncr c) 0xFF @
     (if p ! 0 = 0x51 then block_answer c (word_of_bytes (p ! 1) (p ! 2) (p ! 3) (p ! 4)) else [0])"

definition card_xmit :: "u8 \<Rightarrow> mmc_card \<Rightarrow> mmc_card" where
  "card_xmit b c =
     (if packet c = [] \<and> b AND 0xC0 \<noteq> 0x40 then c
      else if length (packet c) = 5 then c\<lparr>packet := [], outq := card_answer (packet c @ [b]) c\<rparr>
      else c\<lparr>packet := packet c @ [b]\<rparr>)"

definition card_rcv :: "mmc_card \<Rightarrow> u8 \<times> mmc_card" where
  "card_rcv c = (case outq c of [] \<Rightarrow> (0xFF, c) | b # bs \<Rightarrow> (b, c\<lparr>outq := bs\<rparr>))"

definition card_bus :: "mmc_card mmc_bus" where
  "card_bus =
     \<lparr>init_spi = id, dly_100us = id, xmit_spi = card_xmit, rcv_spi = card_rcv,
      DESELECT = (\<lambda>c. c\<lparr>packet := [], outq := []\<rparr>), FORWARD = (\<lambda>b c. c),
      port = \<lparr>rd = (\<lambda>r c. (if r = PORTB then portb c else 0, c)), wr = (\<lambda>r v c. if r = PORTB then c\<lparr>portb := v\<rparr> else c),
              rd16 = (\<lambda>r c. (0, c)), wr16 = (\<lambda>r v c. c)\<rparr>\<rparr>"

lemma card_bus_simps [simp]:
  "rcv_spi card_bus = card_rcv" "xmit_spi card_bus = card_xmit" "DESELECT card_bus c = c\<lparr>packet := [], outq := []\<rparr>"
  "FORWARD card_bus b c = c" "SELECT card_bus c = c\<lparr>portb := portb c AND NOT 1\<rparr>"
  by (simp_all add: card_bus_def SELECT_def and_reg_def modify_reg_def)

lemma card_rcv_simps [simp]: "card_rcv (c\<lparr>outq := b # bs\<rparr>) = (b, c\<lparr>outq := bs\<rparr>)" "card_rcv (c\<lparr>outq := []\<rparr>) = (0xFF, c\<lparr>outq := []\<rparr>)"
  by (simp_all add: card_rcv_def)

lemma rcv_bytes_card:
  "n \<le> length q \<Longrightarrow> rcv_bytes card_bus n (c\<lparr>outq := q\<rparr>) = (take n q, c\<lparr>outq := drop n q\<rparr>)"
proof (induction n arbitrary: q)
  case (Suc n)
  then obtain b q' where "q = b # q'" by (cases q) auto
  then show ?case using Suc by simp
qed simp

lemma forward_bytes_card:
  "n \<le> length q \<Longrightarrow> forward_bytes card_bus n (c\<lparr>outq := q\<rparr>) = (take n q, c\<lparr>outq := drop n q\<rparr>)"
proof (induction n arbitrary: q)
  case (Suc n)
  then obtain b q' where "q = b # q'" by (cases q) auto
  then show ?case using Suc by simp
qed simp

lemma rcv_while_card:
  "\<lbrakk>again x; \<not> again b; k \<le> n\<rbrakk> \<Longrightarrow> rcv_while card_bus again n (c\<lparr>outq := replicate k x @ b # q\<rparr>) = (b, c\<lparr>outq := q\<rparr>)"
proof (induction k arbitrary: n)
  case 0
  then show ?case by (cases n) simp_all
next
  case (Suc k)
  then obtain m where "n = Suc m" by (cases n) auto
  then show ?case using Suc by simp
qed

lemma word_of_bytes_split:
  "word_of_bytes (ucast (drop_bit 24 x)) (ucast (drop_bit 16 x)) (ucast (drop_bit 8 x)) (ucast x) = (x :: u32)"
proof (rule bit_word_eqI)
  fix n assume "n < LENGTH(32)"
  then show "bit (word_of_bytes (ucast (drop_bit 24 x)) (ucast (drop_bit 16 x)) (ucast (drop_bit 8 x)) (ucast x)) n = bit x n"
    unfolding word_of_bytes_def by (cases "n < 8"; cases "n < 16"; cases "n < 24") (auto simp: bit_simps)
qed

lemma block_answer_frame [simp]:
  "block_answer (c\<lparr>packet := p\<rparr>) adr = block_answer c adr" "block_answer (c\<lparr>outq := q\<rparr>) adr = block_answer c adr"
  "block_answer (c\<lparr>portb := v\<rparr>) adr = block_answer c adr"
  by (simp_all add: block_answer_def block_start_def)

lemma xmit_packet_card:
  assumes "packet c = []"
  shows "xmit_bytes card_bus (packet_bytes 0x51 arg) c = c\<lparr>packet := [], outq := replicate (ncr c) 0xFF @ block_answer c arg\<rparr>"
  using assms word_of_bytes_split [of arg] by (simp add: packet_bytes_def card_xmit_def card_answer_def)

lemma block_answer_cases:
  "block_answer c adr = [0x40] \<or> (\<exists>q. block_answer c adr = 0 # q)"
  by (simp add: block_answer_def)

lemma send_read_card:
  assumes "ncr c \<le> 9"
  shows "send_cmd card_bus 0x51 arg c =
    (hd (block_answer c arg), c\<lparr>portb := portb c AND NOT 1, packet := [], outq := tl (block_answer c arg)\<rparr>)"
proof -
  define c0 where "c0 = c\<lparr>packet := [], outq := [], portb := portb c AND NOT 1\<rparr>"
  have "send_cmd card_bus 0x51 arg c =
    rcv_while card_bus (\<lambda>res. res AND 0x80 \<noteq> 0) 9 (c0\<lparr>packet := [], outq := replicate (ncr c0) 0xFF @ block_answer c0 arg\<rparr>)"
    using xmit_packet_card [of c0 arg] by (simp add: send_cmd_def send_packet_def Let_def card_rcv_def c0_def)
  moreover have "block_answer c0 arg = block_answer c arg" "ncr c0 = ncr c" by (simp_all add: c0_def)
  moreover obtain b q where "block_answer c arg = b # q" "b AND 0x80 = 0" using block_answer_cases [of c arg] by auto
  ultimately show ?thesis
    using rcv_while_card [where again = "\<lambda>res. res AND 0x80 \<noteq> 0" and x = "0xFF" and b = b and k = "ncr c" and n = 9 and c = "c0\<lparr>packet := []\<rparr>" and q = q] assms
    by (simp add: c0_def)
qed

text \<open>What a card with matching addressing delivers.\<close>

definition mmc_ok :: "mmc_card mmc \<Rightarrow> bool" where
  "mmc_ok d \<longleftrightarrow> ncr (hw d) \<le> 9 \<and> nac (hw d) < 40000 \<and> (CardType d AND 8 \<noteq> 0 \<longleftrightarrow> block_addressed (hw d))"

definition mmc_start :: "mmc_card mmc \<Rightarrow> u32 \<Rightarrow> nat" where
  "mmc_start d s = (if block_addressed (hw d) then 512 * unat s else unat (s * 512))"

definition mmc_image :: "mmc_card mmc \<Rightarrow> u32 \<Rightarrow> nat \<Rightarrow> u8" where
  "mmc_image d s i = mem (hw d) (mmc_start d s + i)"

lemma read_data_card:
  assumes "length sector = 512" "0 < unat cnt" "unat ofs + unat cnt \<le> 512"
  shows "read_data card_bus buff ofs cnt (c\<lparr>outq := sector @ [x, y]\<rparr>) = (take (unat cnt) (drop (unat ofs) sector), c\<lparr>outq := []\<rparr>)"
proof -
  define q where "q = sector @ [x, y]"
  define n where "n = 514 - unat ofs - unat cnt"
  have l: "length q = 514" by (simp add: q_def assms(1))
  have o: "ofs \<le> 514" "cnt \<le> 514 - ofs" "unat (514 - ofs) = 514 - unat ofs"
    using assms(3) by (simp_all add: word_le_nat_alt unat_sub)
  then have bc: "unat (514 - ofs - cnt) = n" by (simp add: unat_sub n_def)
  have "rounds cnt = unat cnt" using assms(2) by (auto simp: rounds_def)
  moreover have "rounds (514 - ofs - cnt) = n" using bc assms(3) unfolding rounds_def by (auto simp: n_def)
  moreover have "(if ofs \<noteq> 0 then snd (rcv_bytes card_bus (rounds ofs) (c\<lparr>outq := q\<rparr>)) else c\<lparr>outq := q\<rparr>) = c\<lparr>outq := drop (unat ofs) q\<rparr>"
    using rcv_bytes_card [of "unat ofs" q c] l assms(3) by (simp add: rounds_def)
  moreover have "unat cnt \<le> length (drop (unat ofs) q)" "n \<le> length (drop (unat cnt) (drop (unat ofs) q))"
    using l assms(3) by (simp_all add: n_def)
  ultimately have "read_data card_bus buff ofs cnt (c\<lparr>outq := q\<rparr>) =
      (take (unat cnt) (drop (unat ofs) q), c\<lparr>outq := drop n (drop (unat cnt) (drop (unat ofs) q))\<rparr>)"
    unfolding read_data_def Let_def by (simp add: rcv_bytes_card forward_bytes_card)
  moreover have "drop n (drop (unat cnt) (drop (unat ofs) q)) = []" using l assms(3) by (simp add: n_def)
  moreover have "take (unat cnt) (drop (unat ofs) q) = take (unat cnt) (drop (unat ofs) sector)" using assms by (simp add: q_def)
  ultimately show ?thesis by (simp only: q_def)
qed

lemma mmc_start_eq:
  assumes "mmc_ok d" shows "block_start (hw d) (card_address (CardType d) s) = mmc_start d s"
  using assms by (cases "block_addressed (hw d)") (simp_all add: mmc_ok_def mmc_start_def block_start_def card_address_def)

lemma slice_map:
  "a + k \<le> n \<Longrightarrow> take k (drop a (map f [0 ..< n])) = map f [a ..< a + k]"
  by (simp add: drop_map take_map take_upt)

lemma mmc_read_card:
  assumes "mmc_ok d" "0 < unat cnt" "unat ofs + unat cnt \<le> 512"
  shows "\<exists>v. disk_readp_mmc card_bus buff s ofs cnt d =
    (if mmc_start d s + 512 \<le> capacity (hw d)
     then (RES_OK, map (mmc_image d s) [unat ofs ..< unat ofs + unat cnt], d\<lparr>hw := (hw d)\<lparr>packet := [], outq := [], portb := v\<rparr>\<rparr>)
     else (RES_ERROR, [], d\<lparr>hw := (hw d)\<lparr>packet := [], outq := [], portb := v\<rparr>\<rparr>))"
proof -
  define c where "c = hw d"
  define arg where "arg = card_address (CardType d) s"
  define sector where "sector = map (\<lambda>i. mem c (mmc_start d s + i)) [0 ..< 512]"
  define c1 where "c1 = c\<lparr>packet := [], portb := portb c AND NOT 1\<rparr>"
  have ok: "ncr c \<le> 9" "nac c \<le> 39999" using assms(1) by (simp_all add: mmc_ok_def c_def)
  have st: "block_start c arg = mmc_start d s" unfolding c_def arg_def by (rule mmc_start_eq [OF assms(1)])
  have cmd: "send_cmd card_bus 0x51 arg c = (hd (block_answer c arg), c1\<lparr>outq := tl (block_answer c arg)\<rparr>)"
    unfolding send_read_card [OF ok(1)] c1_def by simp
  show ?thesis
  proof (cases "mmc_start d s + 512 \<le> capacity c")
    case True
    then have "block_answer c arg = 0 # replicate (nac c) 0xFF @ 0xFE # sector @ [0, 0]" by (simp add: block_answer_def st sector_def)
    then have "send_cmd card_bus 0x51 arg c = (0, c1\<lparr>outq := replicate (nac c) 0xFF @ 0xFE # sector @ [0, 0]\<rparr>)" using cmd by simp
    moreover have "rcv_while card_bus (\<lambda>rc. rc = 0xFF) 39999 (c1\<lparr>outq := replicate (nac c) 0xFF @ 0xFE # sector @ [0, 0]\<rparr>) =
        (0xFE, c1\<lparr>outq := sector @ [0, 0]\<rparr>)" by (rule rcv_while_card) (use ok in simp_all)
    moreover have "read_data card_bus buff ofs cnt (c1\<lparr>outq := sector @ [0, 0]\<rparr>) =
        (take (unat cnt) (drop (unat ofs) sector), c1\<lparr>outq := []\<rparr>)" by (rule read_data_card) (use assms in \<open>simp_all add: sector_def\<close>)
    moreover have "take (unat cnt) (drop (unat ofs) sector) = map (mmc_image d s) [unat ofs ..< unat ofs + unat cnt]"
      using slice_map [OF assms(3)] by (simp add: sector_def mmc_image_def [abs_def] c_def)
    ultimately show ?thesis using True
      by (intro exI [of _ "portb c AND NOT 1"]) (simp add: disk_readp_mmc_def arg_def c_def Let_def c1_def)
  next
    case False
    then have "block_answer c arg = [0x40]" by (simp add: block_answer_def st)
    then show ?thesis using False cmd
      by (intro exI [of _ "portb c AND NOT 1"]) (simp add: disk_readp_mmc_def arg_def c_def Let_def c1_def)
  qed
qed

text \<open>The disk functions on such a card keep the contract the file system relies on.\<close>

interpretation mmc: disk_reader "mmc_env card_bus" mmc_ok mmc_image
proof
  fix d :: "mmc_card mmc" and cnt ofs :: u16 and s :: u32 and dr :: DRESULT and bs :: "u8 list" and d' :: "mmc_card mmc"
  assume d: "mmc_ok d" "0 < unat cnt" "unat ofs + unat cnt \<le> 512" and r: "disk_readp (mmc_env card_bus) True s ofs cnt d = (dr, bs, d')"
  obtain v where "disk_readp_mmc card_bus True s ofs cnt d =
    (if mmc_start d s + 512 \<le> capacity (hw d)
     then (RES_OK, map (mmc_image d s) [unat ofs ..< unat ofs + unat cnt], d\<lparr>hw := (hw d)\<lparr>packet := [], outq := [], portb := v\<rparr>\<rparr>)
     else (RES_ERROR, [], d\<lparr>hw := (hw d)\<lparr>packet := [], outq := [], portb := v\<rparr>\<rparr>))" using mmc_read_card [OF d] by blast
  then have d': "d' = d\<lparr>hw := (hw d)\<lparr>packet := [], outq := [], portb := v\<rparr>\<rparr>"
    and bs: "dr = RES_OK \<longrightarrow> bs = map (mmc_image d s) [unat ofs ..< unat ofs + unat cnt]"
    using r by (auto simp: mmc_env_def split: if_splits)
  have "mmc_ok d' \<and> mmc_image d' = mmc_image d" using d(1) by (simp add: d' mmc_ok_def mmc_image_def [abs_def] mmc_start_def)
  then show "mmc_ok d' \<and> mmc_image d' = mmc_image d \<and> (dr = RES_OK \<longrightarrow> bs = map (mmc_image d s) [unat ofs ..< unat ofs + unat cnt])"
    using bs by blast
qed

section \<open>Properties\<close>

text \<open>
  (C9) Reading from a card. For every card that answers within the attempts of the driver and whose
  addressing matches the type found, reading a part of a sector returns exactly the bytes of the card
  at the offset and count asked for, or an error (and no bytes) for a sector the card does not have;
  the card is left deselected with nothing pending, so that the next operation starts clean. The file
  system on top of it therefore finds the entries of the FAT that are on the card.
\<close>

theorem mmc_card_reads:
  assumes "mmc_ok d" "0 < unat cnt" "unat ofs + unat cnt \<le> 512"
  shows "(\<exists>d'. disk_readp_mmc card_bus buff s ofs cnt d =
      (if mmc_start d s + 512 \<le> capacity (hw d)
       then (RES_OK, map (mmc_image d s) [unat ofs ..< unat ofs + unat cnt], d') else (RES_ERROR, [], d')) \<and>
      mmc_ok d' \<and> mmc_image d' = mmc_image d \<and> packet (hw d') = [] \<and> outq (hw d') = []) \<and>
    (fat_ok (mmc_env card_bus) fs \<longrightarrow>
      (case get_fat (mmc_env card_bus) fs clst d of (r, d') \<Rightarrow> r \<noteq> 1 \<longrightarrow> unat r = fat_entry (mmc_image d) fs (unat clst)))"
proof (rule conjI)
  obtain v where "disk_readp_mmc card_bus buff s ofs cnt d =
    (if mmc_start d s + 512 \<le> capacity (hw d)
     then (RES_OK, map (mmc_image d s) [unat ofs ..< unat ofs + unat cnt], d\<lparr>hw := (hw d)\<lparr>packet := [], outq := [], portb := v\<rparr>\<rparr>)
     else (RES_ERROR, [], d\<lparr>hw := (hw d)\<lparr>packet := [], outq := [], portb := v\<rparr>\<rparr>))" using mmc_read_card [OF assms] by blast
  then show "\<exists>d'. disk_readp_mmc card_bus buff s ofs cnt d =
      (if mmc_start d s + 512 \<le> capacity (hw d)
       then (RES_OK, map (mmc_image d s) [unat ofs ..< unat ofs + unat cnt], d') else (RES_ERROR, [], d')) \<and>
      mmc_ok d' \<and> mmc_image d' = mmc_image d \<and> packet (hw d') = [] \<and> outq (hw d') = []"
    using assms(1) by (intro exI [of _ "d\<lparr>hw := (hw d)\<lparr>packet := [], outq := [], portb := v\<rparr>\<rparr>"])
      (simp add: mmc_ok_def mmc_image_def fun_eq_iff mmc_start_def)
  show "fat_ok (mmc_env card_bus) fs \<longrightarrow>
      (case get_fat (mmc_env card_bus) fs clst d of (r, d') \<Rightarrow> r \<noteq> 1 \<longrightarrow> unat r = fat_entry (mmc_image d) fs (unat clst))"
    using mmc.get_fat_entry(3) [OF assms(1)] by (auto split: prod.splits)
qed

definition sample_card :: "mmc_card mmc" where
  "sample_card = \<lparr>CardType = 0x04, wc = 0, hw = \<lparr>mem = of_nat, block_addressed = False, capacity = 2048, ncr = 3, nac = 100,
     portb = 0xFF, packet = [], outq = []\<rparr>\<rparr>"

theorem mmc_card_reads_witness:
  "fst (disk_readp_mmc card_bus True 3 10 4 sample_card) = RES_OK \<and>
   fst (snd (disk_readp_mmc card_bus True 3 10 4 sample_card)) = [10, 11, 12, 13] \<and>
   fst (disk_readp_mmc card_bus True 4 0 1 sample_card) = RES_ERROR"
proof -
  have ok: "mmc_ok sample_card" by (simp add: mmc_ok_def sample_card_def)
  have st: "mmc_start sample_card 3 = 1536" "mmc_start sample_card 4 = 2048" "capacity (hw sample_card) = 2048"
    by (simp_all add: mmc_start_def sample_card_def)
  have "map (mmc_image sample_card 3) [10 ..< 14] = [10, 11, 12, 13]"
    by (simp add: upt_rec mmc_image_def st) (simp add: sample_card_def)
  then show ?thesis
    using mmc_card_reads [OF ok, where cnt = 4 and ofs = 10 and buff = True and s = 3, THEN conjunct1]
      mmc_card_reads [OF ok, where cnt = 1 and ofs = 0 and buff = True and s = 4, THEN conjunct1] by (auto simp: st)
qed

end
