(* ===== verification/C_Strings.thy ===== *)
theory C_Strings
  imports Int_Print "HOL-Library.Monad_Syntax"
begin

text \<open>
  Strings of the C library, as the programs use them: characters up to an end of value 0. A string
  without its end, and a text that does not fit into its array, are \<open>None\<close>.
\<close>

definition c_string :: "string \<Rightarrow> u8 list" where
  "c_string s = map of_char s @ [0]"

definition strlen :: "u8 list \<Rightarrow> nat option" where
  "strlen b = (if 0 \<in> set b then Some (length (takeWhile (\<lambda>c. c \<noteq> 0) b)) else None)"

definition strcpy :: "u8 list \<Rightarrow> u8 list \<Rightarrow> u8 list option" where
  "strcpy dst src =
     do { n \<leftarrow> strlen src; if n < length dst then Some (take (Suc n) src @ drop (Suc n) dst) else None }"

fun digits_of :: "nat \<Rightarrow> u8 list" where
  "digits_of n = (if n < 10 then [of_nat n + 48] else digits_of (n div 10) @ [of_nat (n mod 10) + 48])"

declare digits_of.simps [simp del]

definition print_int :: "int \<Rightarrow> u8 list" where
  "print_int i = (if i < 0 then 0x2D # digits_of (nat (- i)) else digits_of (nat i))"

text \<open>Printing into an array of a size.\<close>

definition print_into :: "nat \<Rightarrow> u8 list \<Rightarrow> u8 list option" where
  "print_into n cs = (if length cs < n then Some (cs @ [0]) else None)"

fun atoi_digits :: "int \<Rightarrow> u8 list \<Rightarrow> int" where
  "atoi_digits acc [] = acc"
| "atoi_digits acc (c # cs) = (if is_digit c then atoi_digits (acc * 10 + (uint c - 48)) cs else acc)"

definition atoi :: "u8 list \<Rightarrow> u16" where
  "atoi str =
     word_of_int (case dropWhile (\<lambda>c. c = 32 \<or> 9 \<le> c \<and> c \<le> 13) str of
         [] \<Rightarrow> 0
       | c # cs \<Rightarrow> if c = 0x2D then - atoi_digits 0 cs else if c = 0x2B then atoi_digits 0 cs else atoi_digits 0 (c # cs))"

end
