(* ===== verification/Templogger.thy ===== *)
theory Templogger
  imports Pcd8544 Ds18s20 Timer1_Schedule Board_Io C_Strings
begin

text \<open>
  The temperature logger of \<^verbatim>\<open>src/src/programs/templogger/templogger_BT.c\<close>: it shows and logs the
  temperature of a sensor, switches a relay by a program, and takes its settings from a serial
  line. Arrays are lists, an access outside of an array (or a string without its end) is \<open>None\<close>,
  as is waiting for hardware that never answers. An interrupt handler runs as one step.
\<close>

section \<open>State\<close>

definition PROGRAM_VALUE_LENGTH :: nat where "PROGRAM_VALUE_LENGTH = 8"

definition DOT :: u8 where "DOT = 0x3A"
definition MINUS :: u8 where "MINUS = 0x3B"
definition SPACE :: u8 where "SPACE = 0x3C"
definition CELCIUS :: u8 where "CELCIUS = 0x3D"

lemmas font_chars = DOT_def MINUS_def SPACE_def CELCIUS_def

datatype UpdateState = CONVERT | READOUT

text \<open>The functions that are registered as callbacks, and the structures they are registered with.\<close>

datatype logger_fn = BlinkLoggingLedOff | StopWaiting | StopRelayTimer | Statemachine | ToggleBlueLed

definition dummyLoggingLedCallback :: addr where "dummyLoggingLedCallback = 0"
definition dummyStartWaitingCallback :: addr where "dummyStartWaitingCallback = 1"
definition dummyStartRelayTimerCallback :: addr where "dummyStartRelayTimerCallback = 2"
definition dummyStatemachineCallback :: addr where "dummyStatemachineCallback = 3"
definition dummyRunningMCUCallback :: addr where "dummyRunningMCUCallback = 4"

text \<open>The second element of the arrays of two characters is always their end.\<close>

record 'h logger =
  nowTemp :: "u8 list"
  loggerTemp :: "u8 list"
  programValue :: "u8 list"
  programPointer :: u8
  program_c :: u16
  program_d :: u16
  program_t :: u16
  program_w :: u16
  program_log :: u16
  programChar :: u8
  runningChar :: u8
  alwaysRun :: u8
  updateState :: UpdateState
  logger_rom :: onewire_rom_code
  scratchpad :: ds18s20_scratchpad
  stateCounter :: u16
  runningDot :: u8
  runningDotCount :: u8
  timers :: "logger_fn timer1"
  buslock :: u8
  board :: 'h

text \<open>The initial values of the variables.\<close>

definition initial_logger :: "logger_fn timer1 \<Rightarrow> 'h \<Rightarrow> 'h logger" where
  "initial_logger t h =
     \<lparr>nowTemp = c_string '' init '', loggerTemp = c_string ''      '', programValue = replicate PROGRAM_VALUE_LENGTH 0,
      programPointer = 0, program_c = 0, program_d = 0, program_t = 0, program_w = 0, program_log = 10,
      programChar = 0x20, runningChar = 0x20, alwaysRun = 0, updateState = CONVERT,
      logger_rom = \<lparr>rom_code = replicate 7 0, rom_crc = 0\<rparr>, scratchpad = scratchpad_of (replicate 9 0),
      stateCounter = 0, runningDot = 0x20, runningDotCount = 0, timers = t, buslock = 0, board = h\<rparr>"

text \<open>The registers, the delays on the sensor bus, and the fonts with the memory they are in.\<close>

record 'h logger_env =
  io :: "'h mmio"
  wait_us :: "nat \<Rightarrow> 'h \<Rightarrow> 'h"
  font_memory :: flash
  font_6x8 :: vertical_byte_font
  font_12x16 :: vertical_byte_font

abbreviation on_board :: "('h \<Rightarrow> 'h) \<Rightarrow> 'h logger \<Rightarrow> 'h logger" where
  "on_board f s \<equiv> s\<lparr>board := f (board s)\<rparr>"

section \<open>Lines\<close>

definition logger_pull_low :: "'h mmio \<Rightarrow> 'h \<Rightarrow> 'h" where
  "logger_pull_low M h = and_reg M PORTC (NOT 0x80) (or_reg M DDRC 0x80 h)"

definition logger_release :: "'h mmio \<Rightarrow> 'h \<Rightarrow> 'h" where
  "logger_release M h = and_reg M DDRC (NOT 0x80) h"

definition logger_get_bit :: "'h mmio \<Rightarrow> 'h \<Rightarrow> u8 \<times> 'h" where
  "logger_get_bit M h = (case rd M PINC h of (v, h) \<Rightarrow> (if v AND 0x80 \<noteq> 0 then 0x80 else 0, h))"

definition logger_onewire :: "'h logger_env \<Rightarrow> 'h onewire" where
  "logger_onewire E = \<lparr>pull_low = logger_pull_low (io E), release = logger_release (io E),
     get_bit = logger_get_bit (io E), delay_us = wait_us E\<rparr>"

definition assertReset :: "'h mmio \<Rightarrow> 'h \<Rightarrow> 'h" where "assertReset M = and_reg M PORTB (NOT 0x20)"
definition desertReset :: "'h mmio \<Rightarrow> 'h \<Rightarrow> 'h" where "desertReset M = or_reg M PORTB 0x20"
definition assertCS :: "'h mmio \<Rightarrow> 'h \<Rightarrow> 'h" where "assertCS M = and_reg M PORTB (NOT 0x10)"
definition desertCS :: "'h mmio \<Rightarrow> 'h \<Rightarrow> 'h" where "desertCS M = or_reg M PORTB 0x10"
definition assertCMD :: "'h mmio \<Rightarrow> 'h \<Rightarrow> 'h" where "assertCMD M = and_reg M PORTB (NOT 0x40)"
definition desertCMD :: "'h mmio \<Rightarrow> 'h \<Rightarrow> 'h" where "desertCMD M = or_reg M PORTB 0x40"

definition pcdIO :: "'h mmio \<Rightarrow> 'h pcd8544_io" where
  "pcdIO M = \<lparr>assert_reset = assertReset M, desert_reset = desertReset M, assert_chip_delect = assertCS M,
     desert_chip_select = desertCS M, assert_command = assertCMD M, desert_command = desertCMD M\<rparr>"

section \<open>Relay and lamp\<close>

text \<open>Registering a callback, and removing it.\<close>

definition logger_register :: "u16 \<Rightarrow> u16 \<Rightarrow> logger_fn \<Rightarrow> addr \<Rightarrow> 'h logger \<Rightarrow> 'h logger option" where
  "logger_register sec0 ms f cb s =
     do { t \<leftarrow> timer1_clock_register_callback sec0 ms 1 f 0 cb (timers s); Some (s\<lparr>timers := t\<rparr>) }"

definition logger_unregister :: "addr \<Rightarrow> 'h logger \<Rightarrow> 'h logger option" where
  "logger_unregister cb s = do { t \<leftarrow> timer1_clock_unregister_callback cb (timers s); Some (s\<lparr>timers := t\<rparr>) }"

definition blinkLoggingLedOff :: "'h logger_env \<Rightarrow> 'h logger \<Rightarrow> 'h logger option" where
  "blinkLoggingLedOff E s =
     do { s \<leftarrow> logger_unregister dummyLoggingLedCallback s; Some (on_board (and_reg (io E) PORTD 0xFE) s) }"

definition blinkLoggingLed :: "'h logger_env \<Rightarrow> 'h logger \<Rightarrow> 'h logger option" where
  "blinkLoggingLed E s =
     do { s \<leftarrow> logger_register 0 150 BlinkLoggingLedOff dummyLoggingLedCallback s;
          Some (on_board (or_reg (io E) PORTD 1) s) }"

definition relayStatus :: "'h mmio \<Rightarrow> u8 \<Rightarrow> 'h \<Rightarrow> 'h" where
  "relayStatus M on h = (if on = 1 then or_reg M PORTD 2 h else and_reg M PORTD 0xFD h)"

definition stopWaiting :: "'h logger \<Rightarrow> 'h logger option" where
  "stopWaiting s = do { s \<leftarrow> logger_unregister dummyStartWaitingCallback s; Some (s\<lparr>runningChar := 0x20\<rparr>) }"

definition startWaiting :: "'h logger \<Rightarrow> 'h logger option" where
  "startWaiting s =
     (let s = s\<lparr>runningChar := 0x57\<rparr>
      in logger_register (word_of_int (sint (program_w s) sdiv 10)) 0 StopWaiting dummyStartWaitingCallback s)"

definition stopRelayTimer :: "'h logger_env \<Rightarrow> 'h logger \<Rightarrow> 'h logger option" where
  "stopRelayTimer E s =
     do { s \<leftarrow> logger_unregister dummyStartRelayTimerCallback s; startWaiting (on_board (relayStatus (io E) 0) s) }"

definition startRelayTimer :: "'h logger_env \<Rightarrow> 'h logger \<Rightarrow> 'h logger option" where
  "startRelayTimer E s =
     do {
       let s = on_board (relayStatus (io E) 1) s;
       s \<leftarrow> logger_register (word_of_int (sint (program_t s) sdiv 10)) 0 StopRelayTimer dummyStartRelayTimerCallback s;
       Some (s\<lparr>runningChar := 0x4F\<rparr>)
     }"

section \<open>Texts\<close>

definition async_serial_send_time :: "'h logger_env \<Rightarrow> 'h logger \<Rightarrow> 'h logger option" where
  "async_serial_send_time E s =
     do {
       let t = timer1_clock_get_time (timers s);
       time_buffer \<leftarrow> print_into 10 (print_int (sint (freerunning_sec t - program_log s)));
       h \<leftarrow> async_serial_1_write_string (io E) time_buffer (board s);
       Some (s\<lparr>board := h\<rparr>)
     }"

definition lefttrim :: "u8 list \<Rightarrow> u8 list" where
  "lefttrim str = dropWhile (\<lambda>c. c = 0x20) str"

definition fix_char :: "u8 \<Rightarrow> u8" where
  "fix_char c =
     (if c = SPACE then 0x20 else if c = DOT then 0x2E else if c = MINUS then 0x2D else if c = CELCIUS then 0x20 else c)"

definition fixFontMapping :: "u8 list \<Rightarrow> u8 list \<Rightarrow> u8 list option" where
  "fixFontMapping out inp =
     do { n \<leftarrow> strlen inp; if n \<le> length out then Some (map fix_char (take n inp) @ drop n out) else None }"

text \<open>
  Both arguments of the next function are the same array wherever it is called, and its length as a
  string does not change in the loop.
\<close>

fun remove_zeros :: "u8 \<Rightarrow> nat \<Rightarrow> nat \<Rightarrow> u8 list \<Rightarrow> u8 list option" where
  "remove_zeros blank 0 i b = Some b"
| "remove_zeros blank (Suc n) i b =
     do {
       c \<leftarrow> get b (i + 1);
       if c = 0x2E \<or> c = DOT then Some b
       else do {
         d \<leftarrow> get b i;
         b \<leftarrow> put b i (if d = 0x30 then blank else d);
         remove_zeros blank n (i + 1) b
       }
     }"

definition removeLeadingZeros :: "u8 list \<Rightarrow> u8 \<Rightarrow> u8 list option" where
  "removeLeadingZeros b fixMap =
     do { n \<leftarrow> strlen b; remove_zeros (if fixMap \<noteq> 0 then SPACE else 0x20) n 0 b }"

section \<open>Temperature\<close>

text \<open>The sign, the degrees and the tenths of a reading in sixteenths of a degree.\<close>

definition reading_parts :: "ds18s20_scratchpad \<Rightarrow> bool \<times> int \<times> int" where
  "reading_parts sp =
     (let temp = push_bit 8 (ucast (temperature_msb sp)) + ucast (temperature_lsb sp) :: u16;
          neg = sint temp < 0;
          temp = (if neg then - temp else temp);
          decimal = uint (temp AND 0xF);
          decimal = decimal * 100 div 16;
          decimal = (if 5 \<le> decimal mod 10 then decimal + 10 else decimal);
          decimal = decimal div 10;
          whole = sint temp div 16
      in if decimal = 10 then (neg, whole + 1, 0) else (neg, whole, decimal))"

fun blank_zeros :: "nat \<Rightarrow> nat \<Rightarrow> u8 list \<Rightarrow> u8 list option" where
  "blank_zeros 0 i b = Some b"
| "blank_zeros (Suc n) i b =
     do {
       c \<leftarrow> get b (i + 1);
       if c = DOT then Some b
       else do {
         d \<leftarrow> get b i;
         if d = 0x30 then do { b \<leftarrow> put b i SPACE; blank_zeros n (i + 1) b } else Some b
       }
     }"

fun add_minus :: "nat \<Rightarrow> nat \<Rightarrow> u8 list \<Rightarrow> u8 list option" where
  "add_minus 0 i b = Some b"
| "add_minus (Suc n) i b =
     do { c \<leftarrow> get b i; if c \<noteq> SPACE then put b (i - 1) MINUS else add_minus n (i + 1) b }"

text \<open>Every element of the local array is written before it is read.\<close>

definition temperature_buffer :: "ds18s20_scratchpad \<Rightarrow> u8 list option" where
  "temperature_buffer sp =
     (case reading_parts sp of (neg, whole, decimal) \<Rightarrow>
      do {
        b \<leftarrow> put (replicate 7 0) 6 0;
        b \<leftarrow> put b 5 CELCIUS;
        b \<leftarrow> put b 4 (word_of_int (decimal + 48));
        b \<leftarrow> put b 3 DOT;
        b \<leftarrow> print_signed whole 3 b;
        b \<leftarrow> blank_zeros 3 0 b;
        if neg then add_minus 6 1 b else Some b
      })"

definition updateTemp :: "'h logger_env \<Rightarrow> 'h logger \<Rightarrow> 'h logger option" where
  "updateTemp E s =
     (if updateState s = CONVERT then
        do {
          h \<leftarrow> ds18s20_blocking_start_conversion (logger_onewire E) (logger_rom s) (board s);
          Some (s\<lparr>updateState := READOUT, board := h\<rparr>)
        }
      else
        do {
          (r, sp, h) \<leftarrow> ds18s20_blocking_read_scratchpad (logger_onewire E) (logger_rom s) (board s);
          buffer \<leftarrow> temperature_buffer sp;
          now \<leftarrow> strcpy (nowTemp s) buffer;
          Some (s\<lparr>updateState := CONVERT, scratchpad := sp, nowTemp := now, board := h\<rparr>)
        })"

definition updateLogged :: "'h logger_env \<Rightarrow> 'h logger \<Rightarrow> 'h logger option" where
  "updateLogged E s =
     do {
       l \<leftarrow> fixFontMapping (loggerTemp s) (nowTemp s);
       s \<leftarrow> async_serial_send_time E (s\<lparr>loggerTemp := l\<rparr>);
       h \<leftarrow> async_serial_1_write_byte (io E) 0x3B (board s);
       h \<leftarrow> async_serial_1_write_string (io E) (lefttrim (loggerTemp s)) h;
       h \<leftarrow> async_serial_1_write_string (io E) [0x0A, 0] h;
       blinkLoggingLed E (s\<lparr>board := h\<rparr>)
     }"

definition ds18b20_init :: "'h logger_env \<Rightarrow> 'h logger \<Rightarrow> 'h logger option" where
  "ds18b20_init E s =
     do {
       let (W, h) = onewire_init (logger_pull_low (io E)) (logger_release (io E)) (logger_get_bit (io E)) (logger_onewire E) (board s);
       h \<leftarrow> onewire_send_byte W 0x33 h;
       (bs, h) \<leftarrow> ds18s20_blocking_read_bytes W 7 h;
       (crc, h) \<leftarrow> onewire_read_byte W h;
       Some (s\<lparr>logger_rom := \<lparr>rom_code = bs, rom_crc = crc\<rparr>, board := h\<rparr>)
     }"

section \<open>The program\<close>

fun deci_text :: "u8 list \<Rightarrow> nat \<Rightarrow> nat \<Rightarrow> u8 list \<Rightarrow> u8 list option" where
  "deci_text t 0 c out = Some out"
| "deci_text t (Suc n) c out =
     do {
       x \<leftarrow> get t c;
       if x = SPACE \<or> x = CELCIUS then deci_text t n (c + 1) out
       else if x = MINUS then do { out \<leftarrow> put out c 0x2D; deci_text t n (c + 1) out }
       else if x \<noteq> DOT \<and> x \<noteq> 0x2E then do { out \<leftarrow> put out c x; deci_text t n (c + 1) out }
       else do {
         y \<leftarrow> get t (c + 1);
         out \<leftarrow> put out c y;
         put out (c + 1) 0
       }
     }"

definition setRelay :: "'h logger_env \<Rightarrow> 'h logger \<Rightarrow> 'h logger option" where
  "setRelay E s =
     (if alwaysRun s \<noteq> 0 then Some ((on_board (relayStatus (io E) 1) s)\<lparr>runningChar := 0x2B\<rparr>)
      else if programChar s = 0x52 \<and> runningChar s = 0x20 then
        do {
          deciTemp \<leftarrow> deci_text (nowTemp s) 6 0 (replicate 6 0x20 @ [0]);
          if sint (atoi deciTemp) \<le> sint (program_c s - program_d s) then startRelayTimer E s
          else Some (on_board (relayStatus (io E) 0) s)
        }
      else Some s)"

text \<open>The value of a command; a character is a signed number.\<close>

fun command_value :: "u16 \<Rightarrow> u8 \<Rightarrow> u8 list \<Rightarrow> (u16 \<times> u8) option" where
  "command_value deciTemp dotFound [] = None"
| "command_value deciTemp dotFound (c # str) =
     (if c = 0 then Some (deciTemp, dotFound)
      else if c \<noteq> 0x2E then command_value (deciTemp * 10 + scast c - 0x30) dotFound str
      else command_value deciTemp (dotFound + 1) str)"

text \<open>The cases of the commands, with the flag that tells a change.\<close>

definition run_command :: "'h logger_env \<Rightarrow> u8 \<Rightarrow> u16 \<Rightarrow> 'h logger \<Rightarrow> (bool \<times> 'h logger) option" where
  "run_command E ty deciTemp s =
     (if ty = 0x2B then Some (False, on_board (relayStatus (io E) 1) (s\<lparr>alwaysRun := 1\<rparr>))
      else if ty = 0x2D \<or> ty = 0x53 then
        do {
          let s = (if ty = 0x2D then s\<lparr>alwaysRun := 0\<rparr> else s);
          s \<leftarrow> stopWaiting (on_board (relayStatus (io E) 0) (s\<lparr>programChar := 0x20\<rparr>));
          Some (False, s)
        }
      else if ty = 0x52 then
        Some (False, if program_c s \<noteq> 0 \<and> program_d s \<noteq> 0 \<and> program_t s \<noteq> 0 \<and> program_w s \<noteq> 0
                     then s\<lparr>programChar := 0x52\<rparr> else s)
      else if ty = 0x43 then Some (program_c s \<noteq> deciTemp, s\<lparr>program_c := deciTemp\<rparr>)
      else if ty = 0x44 then Some (program_d s \<noteq> deciTemp, s\<lparr>program_d := deciTemp\<rparr>)
      else if ty = 0x54 then Some (program_t s \<noteq> deciTemp, s\<lparr>program_t := deciTemp\<rparr>)
      else if ty = 0x57 then Some (program_w s \<noteq> deciTemp, s\<lparr>program_w := deciTemp\<rparr>)
      else if ty = 0x4C then Some (False, s\<lparr>program_log := deciTemp\<rparr>)
      else Some (False, s))"

text \<open>
  The copy of the command that the function makes is never used: it is left out.
\<close>

definition setProgramVariable :: "'h logger_env \<Rightarrow> u8 list \<Rightarrow> 'h logger \<Rightarrow> 'h logger option" where
  "setProgramVariable E str s =
     do {
       ty \<leftarrow> get str 0;
       ignored \<leftarrow> (if ty \<noteq> 0x52 \<and> ty \<noteq> 0x53 \<and> ty \<noteq> 0x2B \<and> ty \<noteq> 0x2D
                  then do { c \<leftarrow> get str 1; Some (c \<noteq> 0x3A) } else Some False);
       if ignored then Some s
       else do {
         (deciTemp, dotFound) \<leftarrow> command_value 0 0 (drop 2 str);
         if dotFound > 1 then Some s
         else do {
           (changeFound, s) \<leftarrow> run_command E ty (if dotFound = 0 \<and> ty \<noteq> 0x4C then deciTemp * 10 else deciTemp) s;
           if changeFound then setRelay E s else Some s
         }
       }
     }"

text \<open>The remainder by zero is undefined: \<open>None\<close>.\<close>

definition statemachine :: "'h logger_env \<Rightarrow> 'h logger \<Rightarrow> 'h logger option" where
  "statemachine E s =
     (let s = s\<lparr>stateCounter := stateCounter s + 1\<rparr>
      in if program_log s * 100 = 0 then None
         else if stateCounter s mod (program_log s * 100) = 0 then
           do {
             s \<leftarrow> updateTemp E (s\<lparr>stateCounter := 0\<rparr>);
             s \<leftarrow> updateLogged E s;
             setRelay E s
           }
         else if stateCounter s mod 100 = 0 then do { s \<leftarrow> updateTemp E s; setRelay E s }
         else Some s)"

section \<open>Display\<close>

fun deci_digits :: "nat \<Rightarrow> u16 \<Rightarrow> u8 list \<Rightarrow> u8 list option" where
  "deci_digits 0 value str = Some str"
| "deci_digits (Suc i) value str =
     (if i = 3
      then do {
        str \<leftarrow> put str i 0x2E;
        str \<leftarrow> put str (i - 1) (ucast (value mod 10 + 0x30));
        deci_digits (i - 1) (value div 10) str
      }
      else do {
        str \<leftarrow> put str i (ucast (value mod 10 + 0x30));
        deci_digits i (value div 10) str
      })"

definition prepareDeciPrint :: "u8 list \<Rightarrow> u16 \<Rightarrow> u8 list option" where
  "prepareDeciPrint str value = do { str \<leftarrow> put str 5 0; deci_digits 5 value str }"

definition show_text :: "'h logger_env \<Rightarrow> u8 \<Rightarrow> u8 \<Rightarrow> u8 list \<Rightarrow> vertical_byte_font \<Rightarrow> 'h logger \<Rightarrow> 'h logger option" where
  "show_text E x y str font s =
     do {
       (le, h) \<leftarrow> pcd8544_print (io E) (font_memory E) (pcdIO (io E)) x y str font id (buslock s, ()) (board s);
       Some (s\<lparr>buslock := fst le, board := h\<rparr>)
     }"

text \<open>One of the four values: its colon, its letter and its digits.\<close>

definition show_value :: "'h logger_env \<Rightarrow> u8 \<Rightarrow> u8 \<Rightarrow> u8 \<Rightarrow> u8 \<Rightarrow> u8 \<Rightarrow> u16 \<Rightarrow> 'h logger \<Rightarrow> 'h logger option" where
  "show_value E letter colon_x letter_x value_x y v s =
     (if v \<noteq> 0 then
        do {
          buffer \<leftarrow> prepareDeciPrint (replicate 6 0) v;
          buffer \<leftarrow> removeLeadingZeros buffer 0;
          s \<leftarrow> show_text E colon_x y [0x3A, 0] (font_6x8 E) s;
          s \<leftarrow> show_text E letter_x y [letter, 0] (font_6x8 E) s;
          show_text E value_x y buffer (font_6x8 E) s
        }
      else Some s)"

definition show_interval :: "'h logger_env \<Rightarrow> 'h logger \<Rightarrow> 'h logger option" where
  "show_interval E s =
     do {
       let cs = print_int (sint (program_log s));
       buffer \<leftarrow> print_into 6 (cs @ replicate (4 - length cs) 0x20);
       s \<leftarrow> show_text E 4 3 [0x3A, 0] (font_6x8 E) s;
       s \<leftarrow> show_text E 0 3 [0x4C, 0] (font_6x8 E) s;
       show_text E 8 3 buffer (font_6x8 E) s
     }"

definition show_temperature :: "'h logger_env \<Rightarrow> 'h logger \<Rightarrow> 'h logger option" where
  "show_temperature E s =
     do {
       c \<leftarrow> get (nowTemp s) 5;
       s \<leftarrow> (if c \<noteq> 0x20 then show_text E 8 1 (nowTemp s) (font_12x16 E) s else Some s);
       show_text E 54 0 (loggerTemp s) (font_6x8 E) s
     }"

definition show_dot :: "'h logger_env \<Rightarrow> 'h logger \<Rightarrow> 'h logger option" where
  "show_dot E s =
     (let (n, s) = (runningDotCount s, s\<lparr>runningDotCount := runningDotCount s + 1\<rparr>) in
      if n = 25 then
        do {
          let s = s\<lparr>runningDot := (if runningDot s = 0x20 then 0x2A else 0x20)\<rparr>;
          s \<leftarrow> show_text E 0 0 [runningDot s, 0] (font_6x8 E) s;
          Some (s\<lparr>runningDotCount := 0\<rparr>)
        }
      else Some s)"

definition updateDisplay :: "'h logger_env \<Rightarrow> 'h logger \<Rightarrow> 'h logger option" where
  "updateDisplay E s =
     do {
       s \<leftarrow> show_value E 0x43 4 0 8 4 (program_c s) s;
       s \<leftarrow> show_value E 0x44 50 44 54 4 (program_d s) s;
       s \<leftarrow> show_value E 0x54 4 0 8 5 (program_t s) s;
       s \<leftarrow> show_value E 0x57 50 44 54 5 (program_w s) s;
       s \<leftarrow> show_interval E s;
       s \<leftarrow> show_text E 0 1 [programChar s, 0] (font_6x8 E) s;
       s \<leftarrow> show_text E 0 2 [runningChar s, 0] (font_6x8 E) s;
       s \<leftarrow> show_temperature E s;
       show_dot E s
     }"

section \<open>Interrupts\<close>

definition is_separator :: "u8 \<Rightarrow> bool" where
  "is_separator c \<longleftrightarrow> c = 0x3B \<or> c = 0x0A \<or> c = 0x0D"

definition logger_receive :: "'h logger_env \<Rightarrow> u8 \<Rightarrow> 'h logger \<Rightarrow> 'h logger option" where
  "logger_receive E c s =
     do {
       s \<leftarrow> (if is_separator c \<or> PROGRAM_VALUE_LENGTH - 1 \<le> unat (programPointer s)
             then do {
               v \<leftarrow> put (programValue s) (unat (programPointer s)) 0;
               s \<leftarrow> setProgramVariable E v (s\<lparr>programValue := v\<rparr>);
               Some (s\<lparr>programPointer := 0\<rparr>)
             }
             else Some s);
       if \<not> is_separator c
       then do {
         v \<leftarrow> put (programValue s) (unat (programPointer s)) c;
         Some (s\<lparr>programValue := v, programPointer := programPointer s + 1\<rparr>)
       }
       else Some s
     }"

definition logger_serial :: "'h logger_env \<Rightarrow> 'h logger \<Rightarrow> 'h logger option" where
  "logger_serial E s =
     do { (c, h) \<leftarrow> async_serial_1_read_byte (io E) (board s); logger_receive E c (s\<lparr>board := h\<rparr>) }"

definition toggleBlueLed :: "'h logger_env \<Rightarrow> 'h logger \<Rightarrow> 'h logger" where
  "toggleBlueLed E s = on_board (led_blue_toggle (io E)) s"

text \<open>The timer interrupt of the clock, with the call of the function that is due.\<close>

fun logger_call :: "'h logger_env \<Rightarrow> logger_fn \<Rightarrow> 'h logger \<Rightarrow> 'h logger option" where
  "logger_call E BlinkLoggingLedOff s = blinkLoggingLedOff E s"
| "logger_call E StopWaiting s = stopWaiting s"
| "logger_call E StopRelayTimer s = stopRelayTimer E s"
| "logger_call E Statemachine s = statemachine E s"
| "logger_call E ToggleBlueLed s = Some (toggleBlueLed E s)"

definition logger_tick :: "'h logger_env \<Rightarrow> 'h logger \<Rightarrow> 'h logger option" where
  "logger_tick E s =
     do {
       (t, call) \<leftarrow> TIMER1_COMPA_vect (timers s);
       let s = s\<lparr>timers := t\<rparr>;
       (case call of None \<Rightarrow> Some s | Some (f, _) \<Rightarrow> logger_call E f s)
     }"

section \<open>Start\<close>

definition VT100_CLEAR_SCREEN :: "u8 list" where "VT100_CLEAR_SCREEN = 27 # c_string ''[2J''"
definition VT100_CURSOR_OFF :: "u8 list" where "VT100_CURSOR_OFF = 27 # c_string ''[?25l''"
definition VT100_CURSOR_HOME :: "u8 list" where "VT100_CURSOR_HOME = 27 # c_string ''[H''"

definition send_text :: "'h logger_env \<Rightarrow> u8 list \<Rightarrow> 'h logger \<Rightarrow> 'h logger option" where
  "send_text E str s = do { h \<leftarrow> async_serial_1_write_string (io E) str (board s); Some (s\<lparr>board := h\<rparr>) }"

text \<open>The hardware and the display.\<close>

definition logger_io_start :: "'h mmio \<Rightarrow> 'h logger \<Rightarrow> 'h logger" where
  "logger_io_start M s =
     (let s = on_board (\<lambda>h. clock_prescale_none M (minimus32_init M (watchdog_disable M h))) s;
          s = on_board (async_serial_1_init M SERIAL_SPEED_9600) s;
          s = s\<lparr>timers := timer1_clock_init (timers s)\<rparr>;
          s = on_board (\<lambda>h. or_reg M DDRD 8 (or_reg M DDRD 2 (or_reg M DDRD 1 (or_reg M DDRB 0xF0 h)))) s
      in on_board (spi_config_io_for_master_mode False M) s)"

definition logger_hardware_start :: "'h logger_env \<Rightarrow> 'h logger \<Rightarrow> 'h logger option" where
  "logger_hardware_start E s =
     do {
       let s = logger_io_start (io E) s;
       (io_copy, le, h) \<leftarrow> pcd8544_init (io E) (pcdIO (io E)) 65 id (buslock s, ()) (board s);
       s \<leftarrow> blinkLoggingLedOff E (s\<lparr>buslock := fst le, board := h\<rparr>);
       let s = on_board (relayStatus (io E) 0) s;
       (le, h) \<leftarrow> pcd8544_fill_screen (io E) (pcdIO (io E)) 0 id (buslock s, ()) (board s);
       ds18b20_init E (s\<lparr>buslock := fst le, board := h\<rparr>)
     }"

text \<open>The first reading, the first line of the log, and the timers.\<close>

definition logger_announce :: "'h logger_env \<Rightarrow> 'h logger \<Rightarrow> 'h logger option" where
  "logger_announce E s =
     do {
       s \<leftarrow> show_text E 10 0 (c_string ''Logged: init'') (font_6x8 E) s;
       s \<leftarrow> updateTemp E s;
       s \<leftarrow> updateLogged E s;
       s \<leftarrow> send_text E VT100_CURSOR_OFF s;
       s \<leftarrow> send_text E VT100_CLEAR_SCREEN s;
       s \<leftarrow> send_text E VT100_CURSOR_HOME s;
       s \<leftarrow> send_text E (map of_char ''time;temp'' @ [0x0A, 0]) s;
       let s = s\<lparr>timers := timer1_clock_init (timers s)\<rparr>;
       s \<leftarrow> logger_register 0 10 Statemachine dummyStatemachineCallback s;
       s \<leftarrow> logger_register 0 250 ToggleBlueLed dummyRunningMCUCallback s;
       Some (on_board (async_serial_1_rx_interrupt (io E) 1) s)
     }"

definition logger_start :: "'h logger_env \<Rightarrow> 'h logger \<Rightarrow> 'h logger option" where
  "logger_start E s =
     do {
       s \<leftarrow> logger_hardware_start E s;
       strBuffer \<leftarrow> print_into 4 (print_int (sint (program_log s)));
       l \<leftarrow> print_into 6 (0x4C # 0x3A # butlast strBuffer);
       s \<leftarrow> setProgramVariable E l s;
       logger_announce E s
     }"

text \<open>The loop after the start: the display, or the message about a wrong checksum of the sensor.\<close>

definition crc_error :: "'h logger \<Rightarrow> u8 list option" where
  "crc_error s =
     (let crc = onewire_calculate_crc (rom_code (logger_rom s)) 7
      in if rom_crc (logger_rom s) \<noteq> crc
         then Some [crc div 10 div 10 + 0x30, crc div 10 mod 10 + 0x30, crc mod 10 + 0x30, 0] else None)"

definition logger_loop :: "'h logger_env \<Rightarrow> 'h logger \<Rightarrow> 'h logger option" where
  "logger_loop E s =
     (case crc_error s of
        None \<Rightarrow> updateDisplay E s
      | Some buffer \<Rightarrow>
          do {
            s \<leftarrow> show_text E 0 1 buffer (font_6x8 E) s;
            s \<leftarrow> show_text E 0 0 (c_string ''ROM CRC Error!'') (font_6x8 E) s;
            s \<leftarrow> show_text E 0 1 (c_string ''   '') (font_6x8 E) s;
            show_text E 0 0 (c_string ''              '') (font_6x8 E) s
          })"

end
