(* ===== verification/Templogger_Safe.thy ===== *)
theory Templogger_Safe
  imports Templogger
begin

text \<open>
  The temperature logger keeps its data well-formed: every interrupt and every round of its loop
  returns without an access outside of an array, whatever is received, as long as the hardware
  answers and the interval of the log is one the program can work with.
\<close>

section \<open>Hardware that answers\<close>

text \<open>
  The serial line and the display bus become ready, and the sensor bus becomes idle, whenever the
  program waits for them. Then every transfer returns.
\<close>

definition finishes :: "'a option \<Rightarrow> bool" where
  "finishes m \<longleftrightarrow> m \<noteq> None"

definition answers :: "'h logger_env \<Rightarrow> bool" where
  "answers E \<longleftrightarrow> (\<forall>h. finishes (wait_flag (io E) UCSR1A 0x80 h) \<and> finishes (wait_flag (io E) UCSR1A 0x20 h) \<and>
     finishes (wait_flag (io E) SPSR 0x80 h) \<and> finishes (wait_idle (logger_onewire E) h))"

named_theorems returns

lemma finishes_Some [simp]: "finishes (Some x)" "\<not> finishes None" "finishes (map_option f m) = finishes m"
  by (simp_all add: finishes_def)

lemma finishesD: "finishes m \<Longrightarrow> \<exists>x. m = Some x"
  by (simp add: finishes_def)

lemma returns_bind: "finishes m \<Longrightarrow> (\<And>x. finishes (g x)) \<Longrightarrow> finishes (Option.bind m g)"
  by (cases m) auto

lemma answers_serial [returns]:
  assumes "answers E"
  shows "finishes (async_serial_1_read_byte (io E) h)" "finishes (async_serial_1_write_byte (io E) c h)"
    "finishes (async_serial_1_write_string (io E) cs h)"
proof -
  show b: "finishes (async_serial_1_write_byte (io E) c h)" for c h
    using assms by (auto intro!: returns_bind simp: async_serial_1_write_byte_def uart_write_byte_def uart1_def answers_def)
  show "finishes (async_serial_1_write_string (io E) cs h)"
    unfolding async_serial_1_write_string_def
  proof (induction cs arbitrary: h)
    case (Cons c cs)
    then show ?case using b [of c h] by (auto intro!: returns_bind simp: async_serial_1_write_byte_def)
  qed simp
  show "finishes (async_serial_1_read_byte (io E) h)"
    using assms by (auto intro!: returns_bind simp: async_serial_1_read_byte_def uart_read_byte_def uart1_def answers_def)
qed

lemma answers_sensor [returns]:
  assumes "answers E"
  shows "finishes (onewire_send_byte (logger_onewire E) c h)" "finishes (onewire_read_byte (logger_onewire E) h)"
proof -
  have idle: "\<And>h. finishes (wait_idle (logger_onewire E) h)" using assms by (simp add: answers_def)
  have "finishes (send_bits (logger_onewire E) n c h)" for n c h
    by (induction n arbitrary: c h) (auto intro!: returns_bind idle)
  then show "finishes (onewire_send_byte (logger_onewire E) c h)" by (simp only: onewire_send_byte_def)
  have "finishes (read_bits (logger_onewire E) n r h)" for n r h
    by (induction n arbitrary: r h) (auto intro!: returns_bind idle split: prod.splits simp: Let_def)
  then show "finishes (onewire_read_byte (logger_onewire E) h)" by (simp only: onewire_read_byte_def)
qed

lemma answers_ds18s20 [returns]:
  assumes "answers E"
  shows "finishes (ds18s20_blocking_start_conversion (logger_onewire E) code h)"
    "finishes (ds18s20_blocking_read_scratchpad (logger_onewire E) code h)"
    "finishes (ds18s20_blocking_read_bytes (logger_onewire E) n h)"
proof -
  note one = answers_sensor [OF assms]
  have sb: "finishes (ds18s20_blocking_send_bytes (logger_onewire E) bs h)" for bs h
    by (induction bs arbitrary: h) (auto intro!: returns_bind one)
  have sel: "finishes (ds18s20_select (logger_onewire E) code c h)" for c h
    unfolding ds18s20_select_def by (intro returns_bind one sb)
  show rb: "finishes (ds18s20_blocking_read_bytes (logger_onewire E) n h)" for n h
    by (induction n arbitrary: h) (auto intro!: returns_bind one split: prod.splits)
  show "finishes (ds18s20_blocking_start_conversion (logger_onewire E) code h)"
    unfolding ds18s20_blocking_start_conversion_def by (rule sel)
  show "finishes (ds18s20_blocking_read_scratchpad (logger_onewire E) code h)"
    unfolding ds18s20_blocking_read_scratchpad_def by (intro returns_bind sel rb) (auto split: prod.splits)
qed

lemma answers_display:
  assumes "answers E" "0 \<in> set str"
  shows "\<exists>h'. pcd8544_print (io E) (font_memory E) P x y str font id (0, ()) h = Some ((0, ()), h')"
proof -
  have put: "finishes (spi_put (io E) b h)" for b h
    using assms(1) by (auto intro!: returns_bind simp: spi_put_def spi_io_def answers_def)
  have rows: "finishes (print_rows (io E) (font_memory E) n bytes h)" for n bytes h
    by (induction n arbitrary: bytes h) (auto intro!: returns_bind put)
  have cols: "finishes (print_columns (io E) (font_memory E) P ht yi n x bytes h)" for ht yi n x bytes h
    by (induction n arbitrary: x bytes h) (auto intro!: returns_bind put rows simp: Let_def)
  have chars: "finishes (print_chars (io E) (font_memory E) P yi font x str h)" for yi x h
    using assms(2)
    by (induction str arbitrary: x h) (auto intro!: returns_bind cols)
  have "finishes (pcd8544_print_body (io E) (font_memory E) P x y str font h)"
    unfolding pcd8544_print_body_def Let_def by (intro returns_bind chars) simp
  then show ?thesis
    by (auto dest!: finishesD simp: pcd8544_print_def with_bus_def spi_obtain_bus_def obtain_loop.simps take_lock_def spi_release_bus_def)
qed

section \<open>Well-formed states\<close>

text \<open>
  The texts have their size and end, the command buffer has a position inside and always an end in
  its last element, the characters and flags have one of their values, the bus is free and the
  chain of callbacks is well-formed.
\<close>

definition text7 :: "u8 list \<Rightarrow> bool" where
  "text7 b \<longleftrightarrow> length b = 7 \<and> b ! 6 = 0"

definition logger_ok :: "'h logger \<Rightarrow> bool" where
  "logger_ok s \<longleftrightarrow>
     text7 (nowTemp s) \<and> text7 (loggerTemp s) \<and>
     length (programValue s) = PROGRAM_VALUE_LENGTH \<and> programValue s ! 7 = 0 \<and> unat (programPointer s) \<le> 7 \<and>
     programChar s \<in> {0x20, 0x52} \<and> runningChar s \<in> {0x20, 0x57, 0x4F, 0x2B} \<and> alwaysRun s \<in> {0, 1} \<and>
     runningDot s \<in> {0x20, 0x2A} \<and> runningDotCount s \<le> 25 \<and> buslock s = 0 \<and> (\<exists>xs. chain (timers s) xs)"

text \<open>The interval of the log is one the program can work with: it can be divided by and be shown.\<close>

definition interval_ok :: "u16 \<Rightarrow> bool" where
  "interval_ok v \<longleftrightarrow> v * 100 \<noteq> 0 \<and> - 10000 < sint v"

definition keeps :: "'h logger \<Rightarrow> 'h logger \<Rightarrow> bool" where
  "keeps s s' \<longleftrightarrow> programValue s' = programValue s \<and> programPointer s' = programPointer s \<and> program_log s' = program_log s"

definition runs :: "'h logger \<Rightarrow> 'h logger option \<Rightarrow> bool" where
  "runs s m \<longleftrightarrow> (\<exists>s'. m = Some s' \<and> logger_ok s' \<and> keeps s s')"

named_theorems logger_runs

lemma keeps_refl [simp]: "keeps s s"
  by (simp add: keeps_def)

lemma keeps_trans: "keeps s t \<Longrightarrow> keeps t u \<Longrightarrow> keeps s u"
  by (simp add: keeps_def)

lemma runs_Some: "logger_ok s' \<Longrightarrow> keeps s s' \<Longrightarrow> runs s (Some s')"
  by (simp add: runs_def)

lemma runs_from: "keeps s t \<Longrightarrow> runs t m \<Longrightarrow> runs s m"
  using keeps_trans by (auto simp: runs_def)

lemma runs_bind: "runs s m \<Longrightarrow> (\<And>t. logger_ok t \<Longrightarrow> keeps s t \<Longrightarrow> runs t (g t)) \<Longrightarrow> runs s (Option.bind m g)"
  using keeps_trans by (fastforce simp: runs_def)

lemma runs_value: "finishes m \<Longrightarrow> (\<And>x. m = Some x \<Longrightarrow> runs s (g x)) \<Longrightarrow> runs s (Option.bind m g)"
  by (cases m) auto

lemma logger_ok_board [simp]:
  "logger_ok (s\<lparr>board := h\<rparr>) = logger_ok s" "keeps s (s\<lparr>board := h\<rparr>)"
  by (simp_all add: logger_ok_def keeps_def)

section \<open>Arrays\<close>

lemma remove_zeros_ok:
  assumes "j < length b" "b ! j = 0x2E" "i < j"
  shows "\<exists>b'. remove_zeros blank n i b = Some b' \<and> length b' = length b \<and> (\<forall>k \<ge> j. b' ! k = b ! k)"
  using assms
proof (induction n arbitrary: i b)
  case (Suc n)
  show ?case
  proof (cases "b ! (i + 1) = 0x2E \<or> b ! (i + 1) = DOT")
    case True
    then show ?thesis using Suc.prems by (simp add: get_def)
  next
    case False
    then have "i + 1 < j" using Suc.prems by (metis Suc_eq_plus1 Suc_lessI)
    then show ?thesis
      using False Suc.prems Suc.IH [of "b[i := if b ! i = 0x30 then blank else b ! i]" "i + 1"] by (auto simp: get_def put_def)
  qed
qed simp

lemma prepareDeciPrint_eq:
  "prepareDeciPrint (replicate 6 0) v = Some
     [ucast (v div 10 div 10 div 10 mod 10 + 0x30), ucast (v div 10 div 10 mod 10 + 0x30), ucast (v div 10 mod 10 + 0x30),
      0x2E, ucast (v mod 10 + 0x30), 0]"
  by (simp add: prepareDeciPrint_def put_def numeral_eq_Suc)

lemma shown_value:
  "\<exists>b b'. prepareDeciPrint (replicate 6 0) v = Some b \<and> removeLeadingZeros b 0 = Some b' \<and> 0 \<in> set b'"
proof -
  obtain b where b: "prepareDeciPrint (replicate 6 0) v = Some b" "length b = 6" "b ! 3 = 0x2E" "b ! 5 = 0"
    by (simp add: prepareDeciPrint_eq)
  have z: "0 \<in> set b" using b(2,4) nth_mem [of 5 b] by simp
  obtain b' where b': "removeLeadingZeros b 0 = Some b'" "length b' = 6" "b' ! 5 = 0"
    using remove_zeros_ok [of 3 b 0] b z by (force simp: removeLeadingZeros_def strlen_def)
  then show ?thesis using b nth_mem [of 5 b'] by auto
qed

lemma deci_text_ok:
  "\<lbrakk>length t = 7; length out = 7; n + c \<le> 6\<rbrakk> \<Longrightarrow> finishes (deci_text t n c out)"
  by (induction n arbitrary: c out) (auto simp: get_def put_def)

lemma print_signed_ok:
  "n \<le> length b \<Longrightarrow> \<exists>b'. print_signed t n b = Some b' \<and> length b' = length b \<and> (\<forall>k \<ge> n. b' ! k = b ! k)"
proof (induction n arbitrary: t b)
  case (Suc n)
  obtain b' where "print_signed (t sdiv 10) n (b[n := word_of_int (t smod 10 + 48)]) = Some b'" "length b' = length b"
    "\<forall>k \<ge> n. b' ! k = b[n := word_of_int (t smod 10 + 48)] ! k"
    using Suc.IH [of "b[n := word_of_int (t smod 10 + 48)]" "t sdiv 10"] Suc.prems by auto
  then show ?case using Suc.prems by (simp add: put_def)
qed simp

lemma blank_zeros_ok:
  "n + i < length b \<Longrightarrow> \<exists>b'. blank_zeros n i b = Some b' \<and> length b' = length b \<and> (\<forall>k \<ge> n + i. b' ! k = b ! k)"
proof (induction n arbitrary: i b)
  case (Suc n)
  then show ?case using Suc.IH [of "i + 1" "b[i := SPACE]"] by (auto simp: get_def put_def)
qed simp

lemma add_minus_ok:
  "\<lbrakk>n + i \<le> length b; 0 < i\<rbrakk> \<Longrightarrow> \<exists>b'. add_minus n i b = Some b' \<and> length b' = length b \<and> (\<forall>k. n + i \<le> k + 1 \<longrightarrow> b' ! k = b ! k)"
proof (induction n arbitrary: i b)
  case (Suc n)
  show ?case
  proof (cases "b ! i = SPACE")
    case True
    then show ?thesis using Suc.IH [of "i + 1" b] Suc.prems by (auto simp: get_def)
  next
    case False
    then show ?thesis using Suc.prems by (auto simp: get_def put_def nth_list_update)
  qed
qed simp

lemma temperature_buffer_ok: "\<exists>b. temperature_buffer sp = Some b \<and> text7 b"
proof -
  obtain neg whole decimal where r: "reading_parts sp = (neg, whole, decimal)" by (cases "reading_parts sp") auto
  define b0 where "b0 = (replicate 7 0)[6 := 0, 5 := CELCIUS, 4 := word_of_int (decimal + 48), 3 := DOT]"
  have b0: "length b0 = 7" "b0 ! 6 = 0" by (simp_all add: b0_def)
  obtain b1 where b1: "print_signed whole 3 b0 = Some b1" "length b1 = 7" "b1 ! 6 = 0"
    using print_signed_ok [of 3 b0 whole] b0 by auto
  obtain b2 where b2: "blank_zeros 3 0 b1 = Some b2" "length b2 = 7" "b2 ! 6 = 0"
    using blank_zeros_ok [of 3 0 b1] b1 by auto
  obtain b3 where b3: "add_minus 6 1 b2 = Some b3" "length b3 = 7" "b3 ! 6 = 0"
    using add_minus_ok [of 6 1 b2] b2 by auto
  show ?thesis using b1 b2 b3 by (auto simp: temperature_buffer_def r put_def b0_def text7_def)
qed

lemma text7_end: "text7 b \<Longrightarrow> 0 \<in> set b"
  using nth_mem [of 6 b] by (auto simp: text7_def)

lemma strlen_text7: "text7 b \<Longrightarrow> \<exists>n \<le> 6. strlen b = Some n \<and> b ! n = 0"
proof -
  assume b: "text7 b"
  let ?n = "length (takeWhile (\<lambda>c. c \<noteq> 0) b)"
  have "?n \<le> 6"
  proof (rule ccontr)
    assume "\<not> ?n \<le> 6"
    then have "6 < ?n" by simp
    then have "b ! 6 \<noteq> 0" using nth_mem [of 6 "takeWhile (\<lambda>c. c \<noteq> 0) b"] set_takeWhileD takeWhile_nth by fastforce
    then show False using b by (simp add: text7_def)
  qed
  moreover have "b ! ?n = 0"
    using b calculation nth_length_takeWhile [of "\<lambda>c. c \<noteq> 0" b] by (simp add: text7_def)
  ultimately show ?thesis using text7_end [OF b] by (auto simp: strlen_def)
qed

lemma strcpy_text7: "\<lbrakk>text7 d; text7 b\<rbrakk> \<Longrightarrow> \<exists>b'. strcpy d b = Some b' \<and> text7 b'"
  using strlen_text7 [of b] by (auto simp: strcpy_def text7_def nth_append)

lemma fixFontMapping_text7: "\<lbrakk>text7 d; text7 b\<rbrakk> \<Longrightarrow> \<exists>b'. fixFontMapping d b = Some b' \<and> text7 b'"
  using strlen_text7 [of b] by (auto simp: fixFontMapping_def text7_def nth_append)

lemma command_value_finishes: "0 \<in> set str \<Longrightarrow> finishes (command_value v n str)"
  by (induction str arbitrary: v n) auto

lemma length_digits_of: "n < 10 ^ Suc k \<Longrightarrow> length (digits_of n) \<le> Suc k"
proof (induction k arbitrary: n)
  case (Suc k)
  then have "n div 10 < 10 ^ Suc k" by simp
  then show ?case using Suc.IH [of "n div 10"] by (simp add: digits_of.simps [of n])
qed (simp add: digits_of.simps)

lemma length_print_int:
  assumes "- 32768 \<le> i" "i \<le> 32767"
  shows "length (print_int i) \<le> 6" "- 10000 < i \<Longrightarrow> length (print_int i) \<le> 5"
proof -
  have "nat i < 10 ^ Suc 4" "nat (- i) < 10 ^ Suc 4" using assms by simp_all
  then have five: "length (digits_of (nat i)) \<le> 5" "length (digits_of (nat (- i))) \<le> 5"
    using length_digits_of [of "nat i" 4] length_digits_of [of "nat (- i)" 4] by simp_all
  then show "length (print_int i) \<le> 6" by (simp add: print_int_def)
  assume "- 10000 < i"
  then have "nat (- i) < 10 ^ Suc 3" by simp
  then have "length (digits_of (nat (- i))) \<le> 4" using length_digits_of [of "nat (- i)" 3] by simp
  then show "length (print_int i) \<le> 5" using five by (simp add: print_int_def)
qed

section \<open>Readings\<close>

text \<open>The degrees and tenths of a reading are the reading rounded to the nearest tenth.\<close>

definition sixteenths :: "ds18s20_scratchpad \<Rightarrow> int" where
  "sixteenths sp = sint (push_bit 8 (ucast (temperature_msb sp)) + ucast (temperature_lsb sp) :: u16)"

lemma sixteen_cases: "0 \<le> (k::int) \<Longrightarrow> k < 16 \<Longrightarrow>
   k = 0 \<or> k = 1 \<or> k = 2 \<or> k = 3 \<or> k = 4 \<or> k = 5 \<or> k = 6 \<or> k = 7 \<or> k = 8 \<or> k = 9 \<or> k = 10 \<or> k = 11 \<or> k = 12 \<or> k = 13 \<or> k = 14 \<or> k = 15"
  by presburger

lemma tenths_bound:
  assumes "0 \<le> (k::int)" "k < 16" "d = k * 100 div 16" "e = (if 5 \<le> d mod 10 then d + 10 else d) div 10"
  shows "0 \<le> e \<and> e < 10 \<and> \<bar>16 * e - 10 * k\<bar> \<le> 8"
  using sixteen_cases [OF assms(1,2)] assms(3,4) by (elim disjE) simp_all

lemma abs_word:
  fixes w :: u16
  assumes "sint w \<noteq> - 32768"
  defines "v \<equiv> (if sint w < 0 then - w else w)"
  shows "sint v = \<bar>sint w\<bar>" "uint (v AND 0xF) = \<bar>sint w\<bar> mod 16"
proof -
  have r: "- 32768 \<le> sint w" "sint w \<le> 32767" using sint_ge [of w] sint_lt [of w] by simp_all
  have w: "w = word_of_int (sint w)" by simp
  have "v = word_of_int \<bar>sint w\<bar>" using w unfolding v_def by (metis abs_if wi_hom_neg)
  then show s: "sint v = \<bar>sint w\<bar>"
    using r assms(1) by (simp add: sint_sbintrunc' signed_take_bit_int_eq_self)
  have "uint v = \<bar>sint w\<bar>" using \<open>v = _\<close> r by (simp add: uint_word_of_int)
  moreover have "uint (v AND 0xF) = uint v mod 16"
    using take_bit_eq_mask [of 4 "uint v"] by (simp add: take_bit_eq_mod mask_eq_exp_minus_1 unsigned_and_eq)
  ultimately show "uint (v AND 0xF) = \<bar>sint w\<bar> mod 16" by simp
qed

lemma reading_rounded:
  assumes "sixteenths sp \<noteq> - 32768"
  shows "case reading_parts sp of (neg, whole, decimal) \<Rightarrow>
    neg = (sixteenths sp < 0) \<and> 0 \<le> decimal \<and> decimal < 10 \<and> \<bar>16 * (10 * whole + decimal) - 10 * \<bar>sixteenths sp\<bar>\<bar> \<le> 8"
proof -
  define w where "w = (push_bit 8 (ucast (temperature_msb sp)) + ucast (temperature_lsb sp) :: u16)"
  define r where "r = \<bar>sint w\<bar>"
  define d where "d = r mod 16 * 100 div 16"
  define e where "e = (if 5 \<le> d mod 10 then d + 10 else d) div 10"
  have e: "0 \<le> e \<and> e < 10 \<and> \<bar>16 * e - 10 * (r mod 16)\<bar> \<le> 8"
    by (rule tenths_bound [OF _ _ d_def e_def]) simp_all
  have "reading_parts sp = (sint w < 0, r div 16, e)"
    using abs_word [of w] assms e [unfolded e_def] unfolding reading_parts_def w_def [symmetric] sixteenths_def Let_def r_def [symmetric]
    by (auto simp: d_def [symmetric] e_def)
  moreover have "16 * (10 * (r div 16) + e) - 10 * r = 16 * e - 10 * (r mod 16)"
  proof -
    define q k where "q = r div 16" and "k = r mod 16"
    have "r = q * 16 + k" unfolding q_def k_def by (rule div_mult_mod_eq [symmetric])
    then show ?thesis unfolding q_def [symmetric] k_def [symmetric] by simp
  qed
  ultimately show ?thesis using e unfolding sixteenths_def w_def [symmetric] r_def [symmetric] by (simp only: prod.case simp_thms)
qed

section \<open>Operations\<close>

lemma logger_ok_timers: "logger_ok s \<Longrightarrow> chain t xs \<Longrightarrow> logger_ok (s\<lparr>timers := t\<rparr>) \<and> keeps s (s\<lparr>timers := t\<rparr>)"
  by (auto simp: logger_ok_def keeps_def)

lemma register_runs [logger_runs]: "logger_ok s \<Longrightarrow> runs s (logger_register sec0 ms f cb s)"
proof -
  assume ok: "logger_ok s"
  then obtain xs where "chain (timers s) xs" by (auto simp: logger_ok_def)
  from register_callback [OF this] obtain t where
    "timer1_clock_register_callback sec0 ms 1 f 0 cb (timers s) = Some t" "chain t (if cb \<in> set xs then xs else xs @ [cb])" .
  then show ?thesis using logger_ok_timers [OF ok] by (simp add: logger_register_def runs_def)
qed

lemma unregister_runs [logger_runs]: "logger_ok s \<Longrightarrow> runs s (logger_unregister cb s)"
proof -
  assume ok: "logger_ok s"
  then obtain xs where "chain (timers s) xs" by (auto simp: logger_ok_def)
  from unregister_callback [OF this] obtain t where
    "timer1_clock_unregister_callback cb (timers s) = Some t" "chain t (remove1 cb xs)" .
  then show ?thesis using logger_ok_timers [OF ok] by (simp add: logger_unregister_def runs_def)
qed

lemma runningChar_ok:
  "\<lbrakk>logger_ok s; c \<in> {0x20, 0x57, 0x4F, 0x2B}\<rbrakk> \<Longrightarrow> logger_ok (s\<lparr>runningChar := c\<rparr>)" "keeps s (s\<lparr>runningChar := c\<rparr>)"
  by (simp_all add: logger_ok_def keeps_def)

lemma blinkLoggingLed_runs [logger_runs]:
  "logger_ok s \<Longrightarrow> runs s (blinkLoggingLedOff E s)" "logger_ok s \<Longrightarrow> runs s (blinkLoggingLed E s)"
  unfolding blinkLoggingLedOff_def blinkLoggingLed_def by (auto intro!: runs_bind logger_runs intro: runs_Some)

lemma stopWaiting_runs [logger_runs]: "logger_ok s \<Longrightarrow> runs s (stopWaiting s)"
  unfolding stopWaiting_def by (auto intro!: runs_bind logger_runs runs_Some runningChar_ok)

lemma startWaiting_runs [logger_runs]: "logger_ok s \<Longrightarrow> runs s (startWaiting s)"
  unfolding startWaiting_def Let_def by (rule runs_from, rule runningChar_ok(2), rule register_runs) (simp add: runningChar_ok(1))

lemma stopRelayTimer_runs [logger_runs]: "logger_ok s \<Longrightarrow> runs s (stopRelayTimer E s)"
  unfolding stopRelayTimer_def
  by (rule runs_bind, erule unregister_runs, rule runs_from, rule logger_ok_board(2), rule startWaiting_runs) simp

lemma startRelayTimer_runs [logger_runs]: "logger_ok s \<Longrightarrow> runs s (startRelayTimer E s)"
  unfolding startRelayTimer_def Let_def
  by (rule runs_bind, rule runs_from, rule logger_ok_board(2), rule register_runs) (auto intro!: runs_Some runningChar_ok)

lemma setRelay_runs [logger_runs]: "logger_ok s \<Longrightarrow> runs s (setRelay E s)"
proof -
  assume ok: "logger_ok s"
  then have "length (nowTemp s) = 7" by (simp add: logger_ok_def text7_def)
  then have fin: "finishes (deci_text (nowTemp s) 6 0 (replicate 6 0x20 @ [0]))" by (intro deci_text_ok) simp_all
  have "logger_ok (on_board (relayStatus (io E) 1) s\<lparr>runningChar := 0x2B\<rparr>)"
    "keeps s (on_board (relayStatus (io E) 1) s\<lparr>runningChar := 0x2B\<rparr>)"
    using ok by (simp_all add: logger_ok_def keeps_def)
  then show ?thesis unfolding setRelay_def
    using ok fin startRelayTimer_runs [OF ok] by (auto intro!: runs_value runs_Some)
qed

lemma updateTemp_runs [logger_runs]:
  assumes "answers E" "logger_ok s"
  shows "runs s (updateTemp E s)"
proof (cases "updateState s = CONVERT")
  case True
  have "logger_ok (s\<lparr>updateState := READOUT, board := h\<rparr>) \<and> keeps s (s\<lparr>updateState := READOUT, board := h\<rparr>)" for h
    using assms(2) by (simp add: logger_ok_def keeps_def)
  then show ?thesis using True answers_ds18s20(1) [OF assms(1)] unfolding updateTemp_def
    by (auto intro!: runs_value runs_Some)
next
  case False
  obtain r sp h where rd: "ds18s20_blocking_read_scratchpad (logger_onewire E) (logger_rom s) (board s) = Some (r, sp, h)"
    using finishesD [OF answers_ds18s20(2) [OF assms(1)]] by (metis prod_cases3)
  obtain b where b: "temperature_buffer sp = Some b" "text7 b" using temperature_buffer_ok by blast
  obtain n where n: "strcpy (nowTemp s) b = Some n" "text7 n"
    using strcpy_text7 [OF _ b(2)] assms(2) by (auto simp: logger_ok_def)
  show ?thesis using False rd b n assms(2) by (simp add: updateTemp_def runs_def logger_ok_def keeps_def)
qed

lemma sint_u16: "- 32768 \<le> sint (x :: u16)" "sint (x :: u16) \<le> 32767"
  using sint_ge [of x] sint_lt [of x] by simp_all

lemma send_time_runs [logger_runs]:
  assumes "answers E" "logger_ok s"
  shows "runs s (async_serial_send_time E s)"
proof -
  define i where "i = sint (freerunning_sec (timer1_clock_get_time (timers s)) - program_log s)"
  have "- 32768 \<le> i" "i \<le> 32767" unfolding i_def by (rule sint_u16)+
  then have "length (print_int i) < 10" using length_print_int(1) [of i] by simp
  then show ?thesis using answers_serial(3) [OF assms(1)] assms(2)
    unfolding async_serial_send_time_def Let_def i_def [symmetric]
    by (auto intro!: runs_value runs_Some simp: print_into_def)
qed

lemma updateLogged_runs [logger_runs]:
  assumes "answers E" "logger_ok s"
  shows "runs s (updateLogged E s)"
proof -
  obtain l where l: "fixFontMapping (loggerTemp s) (nowTemp s) = Some l" "text7 l"
    using fixFontMapping_text7 assms(2) by (auto simp: logger_ok_def)
  have ok: "logger_ok (s\<lparr>loggerTemp := l\<rparr>)" "keeps s (s\<lparr>loggerTemp := l\<rparr>)" using assms(2) l by (simp_all add: logger_ok_def keeps_def)
  have "runs (s\<lparr>loggerTemp := l\<rparr>) (updateLogged E s)" unfolding updateLogged_def l(1) Option.bind.bind_lunit
    using assms(1) ok
    by (auto intro!: runs_bind [OF send_time_runs] runs_value [OF answers_serial(2)] runs_value [OF answers_serial(3)]
        runs_from [OF logger_ok_board(2) blinkLoggingLed_runs(2)])
  then show ?thesis using ok(2) by (rule runs_from [rotated])
qed

lemma statemachine_runs [logger_runs]:
  assumes "answers E" "logger_ok s" "interval_ok (program_log s)"
  shows "runs s (statemachine E s)"
proof -
  have c: "logger_ok (s\<lparr>stateCounter := n\<rparr>)" "keeps s (s\<lparr>stateCounter := n\<rparr>)" for n
    using assms(2) by (simp_all add: logger_ok_def keeps_def)
  have tick: "runs s (do { s \<leftarrow> updateTemp E (s\<lparr>stateCounter := n\<rparr>); setRelay E s })" for n
    using c by (intro runs_from [OF c(2) [of n]] runs_bind updateTemp_runs setRelay_runs assms(1)) auto
  have log: "runs s (do { s \<leftarrow> updateTemp E (s\<lparr>stateCounter := n\<rparr>); s \<leftarrow> updateLogged E s; setRelay E s })" for n
    using c by (intro runs_from [OF c(2) [of n]] runs_bind updateTemp_runs updateLogged_runs setRelay_runs assms(1)) auto
  show ?thesis using tick [of "stateCounter s + 1"] log [of 0] c assms(3)
    by (auto simp: statemachine_def Let_def interval_ok_def intro: runs_Some)
qed

lemma show_text_runs [logger_runs]:
  assumes "answers E" "logger_ok s" "0 \<in> set str"
  shows "runs s (show_text E x y str font s)"
proof -
  have l: "buslock s = 0" using assms(2) by (simp add: logger_ok_def)
  obtain h where "pcd8544_print (io E) (font_memory E) (pcdIO (io E)) x y str font id (0, ()) (board s) = Some ((0, ()), h)"
    using answers_display [OF assms(1,3)] by blast
  then show ?thesis using assms(2) l by (simp add: show_text_def runs_def logger_ok_def keeps_def)
qed

lemma show_value_runs [logger_runs]:
  assumes "answers E" "logger_ok s"
  shows "runs s (show_value E l x1 x2 x3 y v s)"
proof -
  obtain b b' where b: "prepareDeciPrint (replicate 6 0) v = Some b" "removeLeadingZeros b 0 = Some b'" "0 \<in> set b'"
    using shown_value by blast
  have "runs s (do { s \<leftarrow> show_text E x1 y [0x3A, 0] (font_6x8 E) s; s \<leftarrow> show_text E x2 y [l, 0] (font_6x8 E) s;
    show_text E x3 y b' (font_6x8 E) s })"
    by (intro runs_bind show_text_runs assms b) auto
  then show ?thesis using assms(2) by (auto simp: show_value_def b intro: runs_Some)
qed

lemma show_interval_runs [logger_runs]:
  assumes "answers E" "logger_ok s" "interval_ok (program_log s)"
  shows "runs s (show_interval E s)"
proof -
  define cs where "cs = print_int (sint (program_log s))"
  have "length cs \<le> 5" unfolding cs_def
    using assms(3) by (intro length_print_int(2)) (simp_all add: sint_u16 interval_ok_def)
  then have b: "print_into 6 (cs @ replicate (4 - length cs) 0x20) = Some ((cs @ replicate (4 - length cs) 0x20) @ [0])"
    by (simp add: print_into_def)
  show ?thesis unfolding show_interval_def cs_def [symmetric] Let_def b Option.bind.bind_lunit
    by (intro runs_bind show_text_runs assms) auto
qed

lemma show_temperature_runs [logger_runs]:
  assumes "answers E" "logger_ok s"
  shows "runs s (show_temperature E s)"
proof -
  have t: "0 \<in> set (nowTemp t)" "0 \<in> set (loggerTemp t)" "5 < length (nowTemp t)" if "logger_ok t" for t :: "'a logger"
    using that text7_end by (auto simp: logger_ok_def text7_def)
  have "runs s (do {
      s \<leftarrow> (if nowTemp s ! 5 \<noteq> 0x20 then show_text E 8 1 (nowTemp s) (font_12x16 E) s else Some s);
      show_text E 54 0 (loggerTemp s) (font_6x8 E) s })"
    by (rule runs_bind) (use assms t in \<open>auto intro!: show_text_runs runs_Some\<close>)
  then show ?thesis unfolding show_temperature_def using t(3) [OF assms(2)] by (simp add: get_def)
qed

lemma show_dot_runs [logger_runs]:
  assumes "answers E" "logger_ok s"
  shows "runs s (show_dot E s)"
proof (cases "runningDotCount s = 25")
  case True
  define c where "c = (if runningDot s = 0x20 then 0x2A else 0x20 :: u8)"
  obtain h where "pcd8544_print (io E) (font_memory E) (pcdIO (io E)) 0 0 [c, 0] (font_6x8 E) id (0, ()) (board s) = Some ((0, ()), h)"
    using answers_display [OF assms(1), of "[c, 0]" "pcdIO (io E)" 0 0 "font_6x8 E" "board s"] by auto
  then show ?thesis using True assms(2)
    by (simp add: show_dot_def c_def [symmetric] show_text_def runs_def logger_ok_def keeps_def) (simp add: c_def)
next
  case False
  then have "runningDotCount s + 1 \<le> 25" using assms(2) by (simp add: logger_ok_def) unat_arith
  then show ?thesis using False assms(2) by (simp add: show_dot_def runs_def logger_ok_def keeps_def)
qed

lemma updateDisplay_runs [logger_runs]:
  assumes "answers E" "logger_ok s" "interval_ok (program_log s)"
  shows "runs s (updateDisplay E s)"
  unfolding updateDisplay_def
  by (intro runs_bind show_value_runs show_interval_runs show_text_runs show_temperature_runs show_dot_runs assms(1,2))
    (use assms(3) in \<open>simp_all add: keeps_def\<close>)

section \<open>Commands\<close>

text \<open>A command changes the interval only if its letter is \<open>L\<close>.\<close>

definition keeps_buffer :: "'h logger \<Rightarrow> u8 \<Rightarrow> 'h logger \<Rightarrow> bool" where
  "keeps_buffer s ty s' \<longleftrightarrow> logger_ok s' \<and> programValue s' = programValue s \<and> programPointer s' = programPointer s \<and>
     (ty \<noteq> 0x4C \<longrightarrow> program_log s' = program_log s)"

lemma keeps_buffer_runs: "runs s m \<Longrightarrow> \<exists>s'. m = Some s' \<and> keeps_buffer s ty s'"
  by (auto simp: runs_def keeps_def keeps_buffer_def)

lemma run_command_ok:
  assumes "logger_ok s"
  shows "\<exists>b s'. run_command E ty v s = Some (b, s') \<and> keeps_buffer s ty s'"
proof (cases "ty = 0x2D \<or> ty = 0x53")
  case True
  define t where "t = on_board (relayStatus (io E) 0) ((if ty = 0x2D then s\<lparr>alwaysRun := 0\<rparr> else s)\<lparr>programChar := 0x20\<rparr>)"
  have t: "logger_ok t" "keeps s t" using assms by (auto simp: t_def logger_ok_def keeps_def)
  obtain s' where "stopWaiting t = Some s'" "keeps_buffer s ty s'"
    using keeps_buffer_runs [OF runs_from [OF t(2) stopWaiting_runs [OF t(1)]]] by blast
  then show ?thesis using True by (auto simp: run_command_def t_def)
next
  case False
  then show ?thesis using assms by (auto simp: run_command_def logger_ok_def keeps_buffer_def)
qed

lemma setProgramVariable_ok:
  assumes "logger_ok s" "2 \<le> length str" "0 \<in> set (drop 2 str)"
  shows "\<exists>s'. setProgramVariable E str s = Some s' \<and> keeps_buffer s (str ! 0) s'"
proof -
  have same: "keeps_buffer s (str ! 0) s" using assms(1) by (simp add: keeps_buffer_def)
  obtain v n where v: "command_value 0 0 (drop 2 str) = Some (v, n)"
    using finishesD [OF command_value_finishes [OF assms(3)]] by (metis surj_pair)
  have g: "get str 0 = Some (str ! 0)" "get str 1 = Some (str ! 1)" using assms(2) by (auto simp: get_def)
  define w where "w = (if n = 0 \<and> str ! 0 \<noteq> 0x4C then v * 10 else v)"
  obtain b t where t: "run_command E (str ! 0) w s = Some (b, t)" "keeps_buffer s (str ! 0) t"
    using run_command_ok [OF assms(1)] by blast
  then have "logger_ok t" by (simp add: keeps_buffer_def)
  then obtain u where "setRelay E t = Some u" "keeps_buffer s (str ! 0) u"
    using keeps_buffer_runs [OF setRelay_runs] t(2) by (fastforce simp: keeps_buffer_def runs_def)
  then have inner: "\<exists>s'. (do { (changeFound, s) \<leftarrow> run_command E (str ! 0) w s; if changeFound then setRelay E s else Some s }) = Some s' \<and>
      keeps_buffer s (str ! 0) s'" using t by auto
  define ig where "ig = (str ! 0 \<noteq> 0x52 \<and> str ! 0 \<noteq> 0x53 \<and> str ! 0 \<noteq> 0x2B \<and> str ! 0 \<noteq> 0x2D \<and> str ! 1 \<noteq> 0x3A)"
  have ig: "(if str ! 0 \<noteq> 0x52 \<and> str ! 0 \<noteq> 0x53 \<and> str ! 0 \<noteq> 0x2B \<and> str ! 0 \<noteq> 0x2D
    then do { c \<leftarrow> get str 1; Some (c \<noteq> 0x3A) } else Some False) = Some ig" by (simp add: ig_def g(2) [unfolded One_nat_def])
  show ?thesis unfolding setProgramVariable_def g(1) Option.bind.bind_lunit ig v prod.case w_def [symmetric]
    using inner same by simp
qed

lemma receive_ok:
  assumes "logger_ok s"
  shows "\<exists>s'. logger_receive E c s = Some s' \<and> logger_ok s' \<and> (programValue s ! 0 \<noteq> 0x4C \<longrightarrow> program_log s' = program_log s)"
proof -
  let ?p = "unat (programPointer s)"
  have b: "length (programValue s) = 8" "programValue s ! 7 = 0" "?p \<le> 7"
    using assms by (simp_all add: logger_ok_def PROGRAM_VALUE_LENGTH_def)
  have store: "\<exists>t'. (if \<not> is_separator c then do {
          v \<leftarrow> put (programValue t) (unat (programPointer t)) c;
          Some (t\<lparr>programValue := v, programPointer := programPointer t + 1\<rparr>) } else Some t) = Some t' \<and>
        logger_ok t' \<and> program_log t' = program_log t"
    if t: "logger_ok t" "unat (programPointer t) < 7" for t :: "'a logger"
  proof -
    have "unat (programPointer t + 1) = unat (programPointer t) + 1" using t(2) by (simp add: unat_inc_u8)
    then show ?thesis using t by (simp add: put_def logger_ok_def PROGRAM_VALUE_LENGTH_def)
  qed
  show ?thesis
  proof (cases "is_separator c \<or> 7 \<le> ?p")
    case True
    define v where "v = (programValue s)[?p := 0]"
    have v: "length v = 8" "v ! 7 = 0" using b by (auto simp: v_def nth_list_update)
    then have z: "0 \<in> set (drop 2 v)" using nth_mem [of 5 "drop 2 v"] by simp
    have ok: "logger_ok (s\<lparr>programValue := v\<rparr>)" using assms v by (simp add: logger_ok_def PROGRAM_VALUE_LENGTH_def)
    obtain t where t: "setProgramVariable E v (s\<lparr>programValue := v\<rparr>) = Some t" "keeps_buffer (s\<lparr>programValue := v\<rparr>) (v ! 0) t"
      using setProgramVariable_ok [OF ok _ z] v(1) by auto
    have t0: "logger_ok (t\<lparr>programPointer := 0\<rparr>)" using t(2) by (auto simp: keeps_buffer_def logger_ok_def)
    have log: "program_log t = program_log s" if "programValue s ! 0 \<noteq> 0x4C"
      using that t(2) b by (auto simp: keeps_buffer_def v_def nth_list_update)
    have p: "put (programValue s) ?p 0 = Some v" using b by (simp add: put_def v_def)
    show ?thesis unfolding logger_receive_def p Option.bind.bind_lunit t(1)
      using store [OF t0] log True by (auto simp: PROGRAM_VALUE_LENGTH_def simp del: logger.simps)
  next
    case False
    then show ?thesis using store [OF assms] by (auto simp: logger_receive_def PROGRAM_VALUE_LENGTH_def)
  qed
qed

section \<open>Events\<close>

text \<open>A byte is received, the timer of the clock expires, or the loop of the program makes a round.\<close>

datatype logger_event = SerialByte | TimerTick | LoopRound

fun logger_step :: "'h logger_env \<Rightarrow> logger_event \<Rightarrow> 'h logger \<Rightarrow> 'h logger option" where
  "logger_step E SerialByte s = logger_serial E s"
| "logger_step E TimerTick s = logger_tick E s"
| "logger_step E LoopRound s = logger_loop E s"

lemma tick_runs:
  assumes "answers E" "logger_ok s" "interval_ok (program_log s)"
  shows "runs s (logger_tick E s)"
proof -
  obtain xs where xs: "chain (timers s) xs" using assms(2) by (auto simp: logger_ok_def)
  then have "represents (timers s) (xs, walltimer (timers s), payload (timers s))" by (simp add: represents_def)
  from TIMER1_COMPA_refines [OF this] obtain t call sch where r: "TIMER1_COMPA_vect (timers s) = Some (t, call)" "represents t sch"
    by blast
  obtain ys where t: "TIMER1_COMPA_vect (timers s) = Some (t, call)" "chain t ys"
    using r by (cases sch) (auto simp: represents_def)
  have ok: "logger_ok (s\<lparr>timers := t\<rparr>)" "keeps s (s\<lparr>timers := t\<rparr>)" using logger_ok_timers [OF assms(2) t(2)] by simp_all
  have "runs (s\<lparr>timers := t\<rparr>) (logger_call E f (s\<lparr>timers := t\<rparr>))" for f
    using ok assms by (cases f) (auto intro!: logger_runs runs_Some simp: toggleBlueLed_def)
  then have "runs s (logger_call E f (s\<lparr>timers := t\<rparr>))" for f using runs_from [OF ok(2)] by blast
  then show ?thesis using t(1) ok by (auto simp: logger_tick_def Let_def intro: runs_Some split: option.splits)
qed

lemma loop_runs:
  assumes "answers E" "logger_ok s" "interval_ok (program_log s)"
  shows "runs s (logger_loop E s)"
proof (cases "crc_error s")
  case None
  then show ?thesis using updateDisplay_runs [OF assms] by (simp add: logger_loop_def)
next
  case (Some b)
  have "0 \<in> set b" using Some by (auto simp: crc_error_def Let_def split: if_splits)
  then show ?thesis unfolding logger_loop_def Some option.case
    by (intro runs_bind show_text_runs assms) (auto simp: c_string_def)
qed

section \<open>Start\<close>

lemma answers_bus:
  assumes "finishes (body h)"
  shows "\<exists>h'. with_bus body id (0, ()) h = Some ((0, ()), h')"
  using finishesD [OF assms] by (auto simp: with_bus_def spi_obtain_bus_def obtain_loop.simps take_lock_def spi_release_bus_def)

lemma answers_init:
  assumes "answers E"
  shows "\<exists>h'. pcd8544_init (io E) P c id (0, ()) h = Some (P, (0, ()), h')"
    and "\<exists>h'. pcd8544_fill_screen (io E) P c id (0, ()) h = Some ((0, ()), h')"
proof -
  have spi: "finishes (spi_put (io E) b h)" for b h
    using assms by (auto intro!: returns_bind simp: spi_put_def spi_io_def answers_def)
  have puts: "finishes (spi_puts (io E) bs h)" for bs h
    by (induction bs arbitrary: h) (auto intro!: returns_bind spi)
  have rep: "finishes (repeat_put (io E) c n h)" for n h
    by (induction n arbitrary: h) (auto intro!: returns_bind spi)
  have "finishes (pcd8544_init_body (io E) P c (desert_reset P (assert_reset P h)))"
    unfolding pcd8544_init_body_def Let_def by (intro returns_bind puts) simp
  then show "\<exists>h'. pcd8544_init (io E) P c id (0, ()) h = Some (P, (0, ()), h')"
    using answers_bus by (auto simp: pcd8544_init_def Let_def dest!: answers_bus)
  have "finishes (pcd8544_fill_body (io E) P c h)" for h
    unfolding pcd8544_fill_body_def Let_def by (intro returns_bind spi rep) simp
  then show "\<exists>h'. pcd8544_fill_screen (io E) P c id (0, ()) h = Some ((0, ()), h')"
    using answers_bus [of "pcd8544_fill_body (io E) P c"] by (simp add: pcd8544_fill_screen_def)
qed

lemma ds18b20_init_runs:
  assumes "answers E" "logger_ok s"
  shows "runs s (ds18b20_init E s)"
proof -
  have W: "(logger_onewire E)\<lparr>pull_low := logger_pull_low (io E), release := logger_release (io E), get_bit := logger_get_bit (io E)\<rparr> =
    logger_onewire E" by (simp add: logger_onewire_def)
  have rom: "logger_ok (s\<lparr>logger_rom := c, board := h\<rparr>)" "keeps s (s\<lparr>logger_rom := c, board := h\<rparr>)" for c h
    using assms(2) by (simp_all add: logger_ok_def keeps_def)
  show ?thesis unfolding ds18b20_init_def onewire_init_def W Let_def prod.case
    by (intro runs_value answers_sensor answers_ds18s20 assms(1))
      (auto intro!: runs_value answers_sensor runs_Some rom assms(1) split: prod.splits)
qed

lemma clock_init_ok:
  "logger_ok s \<Longrightarrow> logger_ok (s\<lparr>timers := timer1_clock_init u\<rparr>)" "keeps s (s\<lparr>timers := timer1_clock_init u\<rparr>)"
  by (auto simp: logger_ok_def keeps_def timer1_clock_init_def chain_def intro!: exI [of _ "[]"])

lemma io_start_ok: "logger_ok s \<Longrightarrow> logger_ok (logger_io_start M s)" "keeps s (logger_io_start M s)"
  using clock_init_ok [of s "timers s"] by (simp_all add: logger_io_start_def Let_def logger_ok_def keeps_def)

lemma hardware_start_runs:
  assumes "answers E" "logger_ok s"
  shows "runs s (logger_hardware_start E s)"
proof -
  have bus: "logger_ok (t\<lparr>buslock := 0, board := h\<rparr>)" "keeps t (t\<lparr>buslock := 0, board := h\<rparr>)" "buslock t = 0" if "logger_ok t" for t :: "'a logger" and h
    using that by (simp_all add: logger_ok_def keeps_def)
  have "runs t (do {
       s \<leftarrow> blinkLoggingLedOff E (t\<lparr>buslock := 0, board := h\<rparr>);
       let s = on_board (relayStatus (io E) 0) s;
       (le, h) \<leftarrow> pcd8544_fill_screen (io E) (pcdIO (io E)) 0 id (buslock s, ()) (board s);
       ds18b20_init E (s\<lparr>buslock := fst le, board := h\<rparr>) })" if t: "logger_ok t" for t :: "'a logger" and h
  proof (rule runs_bind)
    show "runs t (blinkLoggingLedOff E (t\<lparr>buslock := 0, board := h\<rparr>))"
      by (rule runs_from [OF bus(2) [OF t]], rule blinkLoggingLed_runs(1)) (rule bus(1) [OF t])
    fix u :: "'a logger"
    assume u: "logger_ok u"
    obtain h' where "pcd8544_fill_screen (io E) (pcdIO (io E)) 0 id (0, ()) (relayStatus (io E) 0 (board u)) = Some ((0, ()), h')"
      using answers_init(2) [OF assms(1)] by blast
    then show "runs u (let s = on_board (relayStatus (io E) 0) u in
       (pcd8544_fill_screen (io E) (pcdIO (io E)) 0 id (buslock s, ()) (board s) \<bind>
       (\<lambda>(le, h). ds18b20_init E (s\<lparr>buslock := fst le, board := h\<rparr>))))"
      using runs_from [OF bus(2) [OF u] ds18b20_init_runs [OF assms(1) bus(1) [OF u]]] bus(3) [OF u]
      by (simp add: Let_def)
  qed
  note fin = this [OF io_start_ok(1) [OF assms(2)]]
  obtain h where "pcd8544_init (io E) (pcdIO (io E)) 65 id (0, ()) (board (logger_io_start (io E) s)) = Some (pcdIO (io E), (0, ()), h)"
    using answers_init(1) [OF assms(1)] by blast
  then show ?thesis using runs_from [OF io_start_ok(2) fin [of "io E" h]] bus(3) [OF io_start_ok(1) [OF assms(2)]]
    by (simp add: logger_hardware_start_def Let_def)
qed

lemma initial_ok: "callback_chain t = None \<Longrightarrow> logger_ok (initial_logger t h)"
  by (auto simp: initial_logger_def logger_ok_def text7_def c_string_def PROGRAM_VALUE_LENGTH_def chain_def intro!: exI [of _ "[]"])

lemma send_text_runs [logger_runs]: "answers E \<Longrightarrow> logger_ok s \<Longrightarrow> runs s (send_text E str s)"
  unfolding send_text_def by (auto intro!: runs_value answers_serial runs_Some)

lemma announce_runs:
  assumes "answers E" "logger_ok s"
  shows "runs s (logger_announce E s)"
  unfolding logger_announce_def Let_def
  by (intro runs_bind runs_from [OF clock_init_ok(2) register_runs] show_text_runs updateTemp_runs updateLogged_runs send_text_runs
      register_runs runs_Some assms) (simp_all add: clock_init_ok c_string_def)

lemma interval_command: "setProgramVariable E [0x4C, 0x3A, 0x31, 0x30, 0] s = Some (s\<lparr>program_log := 10\<rparr>)"
  by (simp add: setProgramVariable_def get_def run_command_def)

lemma start_runs:
  assumes "answers E" "logger_ok s" "program_log s = 10"
  shows "runs s (logger_start E s)"
  unfolding logger_start_def
proof (rule runs_bind [OF hardware_start_runs [OF assms(1,2)]])
  fix t :: "'a logger"
  assume t: "logger_ok t" "keeps s t"
  then have log: "program_log t = 10" "logger_ok (t\<lparr>program_log := 10\<rparr>)" "keeps t (t\<lparr>program_log := 10\<rparr>)"
    using assms(3) by (simp_all add: keeps_def logger_ok_def)
  have "print_int 10 = [0x31, 0x30]" by (simp add: print_int_def digits_of.simps)
  then show "runs t (do {
      strBuffer \<leftarrow> print_into 4 (print_int (sint (program_log t)));
      l \<leftarrow> print_into 6 (0x4C # 0x3A # butlast strBuffer);
      u \<leftarrow> setProgramVariable E l t;
      logger_announce E u })"
    using runs_from [OF log(3) announce_runs [OF assms(1) log(2)]] log(1) by (simp add: print_into_def interval_command)
qed

text \<open>
  The interval matters: with a multiple of 16384 the state machine divides by zero, and a large one
  does not fit into the text for the display. Both can be set over the serial line. The texts of the
  settings lose every zero in front of the last digit before the point, not only leading ones.
\<close>

lemma interval_zero: "setProgramVariable E (c_string ''L:0'') s = Some (s\<lparr>program_log := 0\<rparr>)"
  "statemachine E (s\<lparr>program_log := 0\<rparr>) = None"
  by (simp_all add: setProgramVariable_def get_def run_command_def c_string_def statemachine_def)

lemma interval_large: "setProgramVariable E (c_string ''L:40000'') s = Some (s\<lparr>program_log := 40000\<rparr>)"
  "show_interval E (s\<lparr>program_log := 40000\<rparr>) = None"
proof -
  show "setProgramVariable E (c_string ''L:40000'') s = Some (s\<lparr>program_log := 40000\<rparr>)"
    by (simp add: setProgramVariable_def get_def run_command_def c_string_def)
  have "length (digits_of 25536) = 5"
    by (simp add: digits_of.simps [of 25536] digits_of.simps [of 2553] digits_of.simps [of 255] digits_of.simps [of 25] digits_of.simps [of 2])
  then show "show_interval E (s\<lparr>program_log := 40000\<rparr>) = None"
    by (simp add: show_interval_def print_int_def print_into_def)
qed

lemma inner_zero_removed: "removeLeadingZeros (c_string ''100.5'') 0 = Some (c_string ''1 0.5'')"
  by (simp add: removeLeadingZeros_def strlen_def c_string_def font_chars get_def put_def)

section \<open>Properties\<close>


definition quiet_board :: "registers logger_env" where
  "quiet_board = \<lparr>io = plain\<lparr>rd := \<lambda>r h. (if r = UCSR1A \<or> r = SPSR \<or> r = PINC then 0xFF else fst h r, h)\<rparr>,
     wait_us = \<lambda>n h. h, font_memory = \<lambda>a. 0,
     font_6x8 = \<lparr>vf_width = 6, vf_height = 1, vf_start = 32, vf_end = 126, vf_bytes = 0\<rparr>,
     font_12x16 = \<lparr>vf_width = 12, vf_height = 2, vf_start = 48, vf_end = 61, vf_bytes = 0\<rparr>\<rparr>"

definition quiet_timer :: "logger_fn timer1" where
  "quiet_timer = \<lparr>walltimer = zero_wall_time, callback_chain = None,
     heap = \<lambda>a. \<lparr>next_ptr = None, time = zero_wall_time, recurring = 0, recurring_msec = 0, user_data = 0, callback = StopWaiting\<rparr>,
     regs = \<lparr>OCR1A = 0, OCR1B = 0, TCNT1 = 0, TCCR1A = 0, TCCR1B = 0, TIMSK1 = 0, TIFR1 = 0\<rparr>\<rparr>"


end
