(* ===== verification/Spec2Isabelle.thy ===== *)
theory Spec2Isabelle
  imports Timer1_Schedule Pff_Properties Pff_Mount Pff_Names Sdcard_Properties Ds18s20 Quadrature Actuators
    Buses Dht11 Ili9341 Pcd8544 Lcd_44780 Lcd_Terminal Alarm_Clock Mmc_Diskio Templogger_Safe
begin

text \<open>
  Verification of the minimus32 SDK.
\<close>

end
